theory Spec2Isabelle
  imports Main
begin

unbundle bit_operations_syntax

section \<open>The process and virtual-memory manager of the teaching kernel (pset4/kernel.c)\<close>

text \<open>
  The development embeds \<^verbatim>\<open>src/pset4/kernel.c\<close>. The kernel's global variables
  (\<^verbatim>\<open>pageinfo[]\<close>, \<^verbatim>\<open>processes[]\<close>, \<^verbatim>\<open>current\<close>, \<^verbatim>\<open>ticks\<close>) and the physical memory that
  holds the page tables are the fields of one state record, which every function takes
  and returns. The headers \<^verbatim>\<open>kernel.h\<close>, \<^verbatim>\<open>lib.h\<close> and the memory-mapping module are not
  among the sources: the size constants they define are the fields of a configuration
  record, and the two page-table primitives are modelled from the specification.
\<close>

subsection \<open>Layout constants\<close>

text \<open>
  \<^verbatim>\<open>physical_page_alloc\<close> tests alignment with the mask \<^verbatim>\<open>0xFFF\<close> and \<^verbatim>\<open>memshow_physical\<close>
  prints the address of page \<^verbatim>\<open>pn\<close> as \<^verbatim>\<open>pn << 12\<close>: a page has 4096 bytes. A page-table
  entry is a 32-bit word, so a page holds 1024 entries.
\<close>

definition PAGESIZE :: nat where
  "PAGESIZE = 4096"

definition PAGENUMBER :: "nat \<Rightarrow> nat" where
  "PAGENUMBER a = a div PAGESIZE"

definition PAGEADDRESS :: "nat \<Rightarrow> nat" where
  "PAGEADDRESS pn = pn * PAGESIZE"

definition PAGETABLE_NENTRIES :: nat where
  "PAGETABLE_NENTRIES = 1024"

text \<open>
  Modelled from the spec: the permission set \<open>{present, writable, user-accessible}\<close> of a
  leaf entry (section 3), with the bit values of the x86 page-table format; the entry
  macros \<^verbatim>\<open>PTE_ADDR\<close>, \<^verbatim>\<open>PTE_FLAGS\<close> and the index macros of the absent header split an entry
  and a virtual address at the page boundary.
\<close>

definition PTE_P :: nat where "PTE_P = 1"
definition PTE_W :: nat where "PTE_W = 2"
definition PTE_U :: nat where "PTE_U = 4"

definition PTE_ADDR :: "nat \<Rightarrow> nat" where
  "PTE_ADDR e = e - e mod PAGESIZE"

definition PTE_FLAGS :: "nat \<Rightarrow> nat" where
  "PTE_FLAGS e = e mod PAGESIZE"

definition L1PAGEINDEX :: "nat \<Rightarrow> nat" where
  "L1PAGEINDEX va = (va div (PAGESIZE * PAGETABLE_NENTRIES)) mod PAGETABLE_NENTRIES"

definition L2PAGEINDEX :: "nat \<Rightarrow> nat" where
  "L2PAGEINDEX va = (va div PAGESIZE) mod PAGETABLE_NENTRIES"

text \<open>
  The constants of \<^verbatim>\<open>kernel.h\<close> that the code uses by name only. \<^verbatim>\<open>pageinfo[]\<close> has
  \<^verbatim>\<open>PAGENUMBER(MEMSIZE_PHYSICAL)\<close> entries, one per physical page, and the allocator scans
  \<^verbatim>\<open>NPAGES\<close> of them: \<open>NPAGES\<close> is the number of physical pages and \<open>MEMSIZE_PHYSICAL\<close> its
  size in bytes.
\<close>

record config =
  NPROC :: nat
  NPAGES :: nat
  PROC_START_ADDR :: nat
  MEMSIZE_VIRTUAL :: nat
  KERNEL_START_ADDR :: nat
  KERNEL_STACK_TOP :: nat
  kernel_end :: nat
  kernel_pagetable :: nat
  console :: nat
  physical_memory_isreserved :: "nat \<Rightarrow> bool"

definition MEMSIZE_PHYSICAL :: "config \<Rightarrow> nat" where
  "MEMSIZE_PHYSICAL cfg = PAGEADDRESS (NPAGES cfg)"

subsection \<open>Data model\<close>

text \<open>
  \<^verbatim>\<open>int8_t\<close> fields hold an \<open>int\<close> in \<open>-128..127\<close>; \<open>int8\<close> is the conversion of an \<^verbatim>\<open>int\<close> to
  \<^verbatim>\<open>int8_t\<close> (wrapping, as gcc does), applied wherever the code stores into such a field.
\<close>

definition int8 :: "int \<Rightarrow> int" where
  "int8 x = (x + 128) mod 256 - 128"

record physical_pageinfo =
  owner :: int
  refcount :: int

definition PO_FREE :: int where "PO_FREE = 0"
definition PO_RESERVED :: int where "PO_RESERVED = - 1"
definition PO_KERNEL :: int where "PO_KERNEL = - 2"

text \<open>
  Modelled from the spec: the process states \<open>Free, Runnable, Broken\<close> (section 3), the
  trap kinds of the dispatcher (section 4.4) and the saved registers the core reads and
  writes; their C declarations are in the absent headers. \<^verbatim>\<open>start\<close> sets
  \<^verbatim>\<open>processes[i].p_pid = i\<close> and nothing changes it afterwards, so \<open>p_pid\<close> is a \<open>nat\<close>.
\<close>

datatype procstate = P_FREE | P_RUNNABLE | P_BROKEN

datatype trap =
    INT_SYS_PANIC | INT_SYS_GETPID | INT_SYS_YIELD | INT_SYS_PAGE_ALLOC | INT_SYS_FORK
  | INT_TIMER | INT_PAGEFAULT | INT_UNRECOGNIZED

record x86_registers =
  reg_eax :: int
  reg_esp :: int
  reg_eip :: int
  reg_intno :: trap
  reg_err :: nat

record proc =
  p_pid :: nat
  p_registers :: x86_registers
  p_state :: procstate
  p_pagetable :: nat

text \<open>
  Physical memory is read and written a page at a time (\<^verbatim>\<open>memcpy\<close> of \<^verbatim>\<open>PAGESIZE\<close> bytes) or
  an entry at a time (\<^verbatim>\<open>pagetable[i]\<close>): \<open>mem s pn i\<close> is the \<open>i\<close>-th 32-bit word of
  physical page \<open>pn\<close>. A pointer is a physical address; \<open>0\<close> is \<^verbatim>\<open>NULL\<close>. \<open>current\<close> is the
  index in \<open>processes\<close> of the descriptor \<^verbatim>\<open>current\<close> points to. \<open>last_ticks\<close> and
  \<open>showing\<close> are the two static variables of \<^verbatim>\<open>memshow_virtual_animate\<close>; \<^verbatim>\<open>showing\<close>
  starts at 1 and is only incremented and reduced modulo \<^verbatim>\<open>NPROC\<close>, so it is a \<open>nat\<close>.
\<close>

record kstate =
  pageinfo :: "nat \<Rightarrow> physical_pageinfo"
  processes :: "nat \<Rightarrow> proc"
  current :: nat
  ticks :: nat
  last_ticks :: nat
  showing :: nat
  mem :: "nat \<Rightarrow> nat \<Rightarrow> nat"

text \<open>
  \<open>Panic\<close> is a call of \<^verbatim>\<open>panic\<close> or a failed \<^verbatim>\<open>assert\<close>; \<open>OutOfBounds\<close> is an index outside
  \<^verbatim>\<open>pageinfo[]\<close>, \<^verbatim>\<open>processes[]\<close> or \<^verbatim>\<open>memstate_colors[]\<close>, where C defines no behaviour.
\<close>

datatype fault = Panic | OutOfBounds

subsection \<open>Physical frame allocator\<close>

definition physical_page_alloc :: "config \<Rightarrow> nat \<Rightarrow> int \<Rightarrow> kstate \<Rightarrow> int \<times> kstate" where
  "physical_page_alloc cfg addr ownr s =
     (if addr AND 0xFFF \<noteq> 0
         \<or> addr \<ge> MEMSIZE_PHYSICAL cfg
         \<or> refcount (pageinfo s (PAGENUMBER addr)) \<noteq> 0
      then (- 1, s)
      else (0, s\<lparr>pageinfo := (pageinfo s)
                  (PAGENUMBER addr := \<lparr>owner = int8 ownr, refcount = 1\<rparr>)\<rparr>))"

text \<open>The scan \<^verbatim>\<open>for(pn = 0; pn < NPAGES; ++pn) if(!pageinfo[pn].refcount) break;\<close>\<close>

function free_page_scan :: "config \<Rightarrow> kstate \<Rightarrow> nat \<Rightarrow> nat" where
  "free_page_scan cfg s pn =
     (if pn < NPAGES cfg
      then (if refcount (pageinfo s pn) = 0 then pn else free_page_scan cfg s (Suc pn))
      else pn)"
  by pat_completeness auto
termination
  by (relation "measure (\<lambda>(cfg, s, pn). NPAGES cfg - pn)") auto

declare free_page_scan.simps [simp del]

definition page_alloc_lite :: "config \<Rightarrow> int \<Rightarrow> kstate \<Rightarrow> nat \<times> kstate" where
  "page_alloc_lite cfg pid s =
     (let n = free_page_scan cfg s 0;
          (r, s') = physical_page_alloc cfg (n * PAGESIZE) pid s
      in if r \<ge> 0 then (PAGEADDRESS n, s') else (0, s'))"

subsection \<open>Page-table primitives\<close>

record vamapping =
  vam_pn :: int
  vam_pa :: nat
  vam_perm :: nat

text \<open>
  Modelled from the spec: \<open>lookup(table, virtual_addr) -> {frame_id, physical_addr,
  permissions}\<close>, with a negative frame id when the address is unmapped (section 6), on
  the two-level structure of section 3: the level-1 entry of the address is absent or
  points to a level-2 table, whose leaf entry holds the frame and the permission set.
  \<^verbatim>\<open>virtual_memory_lookup\<close> is defined in the memory-mapping module, which is not among the
  sources.
\<close>

definition virtual_memory_lookup :: "(nat \<Rightarrow> nat \<Rightarrow> nat) \<Rightarrow> nat \<Rightarrow> nat \<Rightarrow> vamapping" where
  "virtual_memory_lookup m pagetable va =
     (let l1e = m (PAGENUMBER pagetable) (L1PAGEINDEX va);
          pe = (if l1e AND PTE_P \<noteq> 0 then m (PAGENUMBER l1e) (L2PAGEINDEX va) else 0)
      in if pe AND PTE_P \<noteq> 0
         then \<lparr>vam_pn = int (PAGENUMBER pe), vam_pa = PTE_ADDR pe + va mod PAGESIZE,
               vam_perm = PTE_FLAGS pe\<rparr>
         else \<lparr>vam_pn = - 1, vam_pa = 2 ^ 32 - 1, vam_perm = 0\<rparr>)"

text \<open>
  Modelled from the spec: \<open>map_range(table, virtual_addr, physical_addr, length,
  permissions) -> void\<close> (section 6). Each page of the range gets the leaf entry
  \<open>pa | perm\<close> in the level-2 table its level-1 entry points to; the primitive has no
  allocator and returns nothing, so a page whose level-1 entry is absent is left unmapped.
  \<^verbatim>\<open>virtual_memory_map\<close> is defined in the memory-mapping module, which is not among the
  sources.
\<close>

definition map_page :: "(nat \<Rightarrow> nat \<Rightarrow> nat) \<Rightarrow> nat \<Rightarrow> nat \<Rightarrow> nat \<Rightarrow> nat \<Rightarrow> (nat \<Rightarrow> nat \<Rightarrow> nat)" where
  "map_page m pagetable va pa perm =
     (let l1e = m (PAGENUMBER pagetable) (L1PAGEINDEX va)
      in if l1e AND PTE_P \<noteq> 0
         then m(PAGENUMBER l1e := (m (PAGENUMBER l1e))(L2PAGEINDEX va := pa OR perm))
         else m)"

fun map_pages :: "(nat \<Rightarrow> nat \<Rightarrow> nat) \<Rightarrow> nat \<Rightarrow> nat \<Rightarrow> nat \<Rightarrow> nat \<Rightarrow> nat \<Rightarrow> (nat \<Rightarrow> nat \<Rightarrow> nat)" where
  "map_pages m pagetable va pa 0 perm = m"
| "map_pages m pagetable va pa (Suc k) perm =
     map_pages (map_page m pagetable va pa perm) pagetable (va + PAGESIZE) (pa + PAGESIZE) k perm"

definition virtual_memory_map ::
  "(nat \<Rightarrow> nat \<Rightarrow> nat) \<Rightarrow> nat \<Rightarrow> nat \<Rightarrow> nat \<Rightarrow> nat \<Rightarrow> nat \<Rightarrow> (nat \<Rightarrow> nat \<Rightarrow> nat)" where
  "virtual_memory_map m pagetable va pa sz perm = map_pages m pagetable va pa (sz div PAGESIZE) perm"

text \<open>
  \<^verbatim>\<open>memcpy(dst, src, PAGESIZE)\<close> between page-aligned addresses. Every pointer the kernel
  copies between is page-aligned: a result of \<^verbatim>\<open>page_alloc_lite\<close>, the address part of a
  page-table entry, the physical address of a page-aligned virtual address, or a page
  table (\<^verbatim>\<open>memshow_virtual\<close> asserts that a page table is page-aligned).
\<close>

definition memcpy_page :: "(nat \<Rightarrow> nat \<Rightarrow> nat) \<Rightarrow> nat \<Rightarrow> nat \<Rightarrow> (nat \<Rightarrow> nat \<Rightarrow> nat)" where
  "memcpy_page m dst src = m(PAGENUMBER dst := m (PAGENUMBER src))"

subsection \<open>Address-space manager\<close>

text \<open>
  \<^verbatim>\<open>copy_pagetable\<close>. The source of the first copy is
  \<^verbatim>\<open>pagetable - (pageentry_t)pagetable % PAGESIZE\<close>, pointer arithmetic in units of 4 bytes;
  the source of the second is \<^verbatim>\<open>pagetable[0] - pagetable[0] % PAGESIZE\<close>, read after the
  new level-1 table has been written.
\<close>

definition copy_pagetable :: "config \<Rightarrow> nat \<Rightarrow> int \<Rightarrow> kstate \<Rightarrow> nat \<times> kstate" where
  "copy_pagetable cfg pagetable ownr s =
     (let (pagel1, s1) = page_alloc_lite cfg ownr s
      in if pagel1 = 0 then (0, s1)
         else
           (let (pagel2, s2) = page_alloc_lite cfg ownr s1
            in if pagel2 = 0 then (0, s2)
               else
                 (let m1 = memcpy_page (mem s2) pagel1 (pagetable - 4 * (pagetable mod PAGESIZE));
                      m2 = m1(PAGENUMBER pagel1 :=
                             (m1 (PAGENUMBER pagel1))(0 := pagel2 OR PTE_P OR PTE_W OR PTE_U));
                      e0 = m2 (PAGENUMBER pagetable) 0;
                      m3 = memcpy_page m2 pagel2 (e0 - e0 mod PAGESIZE)
                  in (pagel1, s2\<lparr>mem := m3\<rparr>))))"

definition sys_page_alloc_func :: "config \<Rightarrow> nat \<Rightarrow> nat \<Rightarrow> int \<Rightarrow> kstate \<Rightarrow> int \<times> kstate" where
  "sys_page_alloc_func cfg addr pagetable pid s =
     (let n = free_page_scan cfg s 0;
          (r, s') = physical_page_alloc cfg (n * PAGESIZE) pid s
      in if r \<ge> 0
         then (r, s'\<lparr>mem := virtual_memory_map (mem s') pagetable addr (n * PAGESIZE) PAGESIZE
                              (PTE_P OR PTE_W OR PTE_U)\<rparr>)
         else (r, s'))"

subsection \<open>Scheduler\<close>

text \<open>
  \<^verbatim>\<open>run(p)\<close> asserts that \<open>p\<close> is runnable, makes it current and returns to user mode: the
  kernel's next state. \<^verbatim>\<open>schedule\<close> loops until it finds a runnable process and never
  returns otherwise, which is the value \<open>None\<close>.
\<close>

definition run :: "kstate \<Rightarrow> nat \<Rightarrow> fault + kstate" where
  "run s p = (if p_state (processes s p) = P_RUNNABLE then Inr (s\<lparr>current := p\<rparr>) else Inl Panic)"

partial_function (option) schedule_loop :: "config \<Rightarrow> kstate \<Rightarrow> nat \<Rightarrow> (fault + kstate) option" where
  "schedule_loop cfg s pid =
     (let pid' = (pid + 1) mod NPROC cfg
      in if p_state (processes s pid') = P_RUNNABLE then Some (run s pid')
         else schedule_loop cfg s pid')"

definition schedule :: "config \<Rightarrow> kstate \<Rightarrow> (fault + kstate) option" where
  "schedule cfg s = schedule_loop cfg s (p_pid (processes s (current s)))"

subsection \<open>Fork\<close>

definition set_eax :: "nat \<Rightarrow> int \<Rightarrow> kstate \<Rightarrow> kstate" where
  "set_eax p v s =
     s\<lparr>processes := (processes s)
          (p := (processes s p)\<lparr>p_registers := (p_registers (processes s p))\<lparr>reg_eax := v\<rparr>\<rparr>)\<rparr>"

text \<open>
  One iteration of the loop over the virtual pages (lines 262 to 274). \<^verbatim>\<open>pageinfo[vam.pn]\<close>
  is read only when the permission test before it holds.
\<close>

definition fork_page :: "config \<Rightarrow> nat \<Rightarrow> nat \<Rightarrow> kstate \<Rightarrow> fault + kstate" where
  "fork_page cfg newpid va s =
     (let cur = processes s (current s);
          vam = virtual_memory_lookup (mem s) (p_pagetable cur) va
      in if vam_perm vam = 0 then Inr s
         else if vam_pn vam < 0 \<or> int (NPAGES cfg) \<le> vam_pn vam then Inl OutOfBounds
         else if vam_perm vam AND PTE_W \<noteq> 0
                 \<and> owner (pageinfo s (nat (vam_pn vam))) = int (p_pid cur)
         then
           (let (page, s1) = page_alloc_lite cfg (int newpid) s;
                s2 = s1\<lparr>mem := memcpy_page (mem s1) page (vam_pa vam)\<rparr>
            in Inr (s2\<lparr>mem := virtual_memory_map (mem s2) (p_pagetable (processes s2 newpid))
                                 va page PAGESIZE (vam_perm vam)\<rparr>))
         else if owner (pageinfo s (nat (vam_pn vam))) = int (p_pid cur)
         then
           (let s1 = s\<lparr>mem := virtual_memory_map (mem s) (p_pagetable (processes s newpid)) va
                                 (vam_pa (virtual_memory_lookup (mem s) (p_pagetable cur) va))
                                 PAGESIZE (vam_perm vam)\<rparr>;
                n = vam_pn (virtual_memory_lookup (mem s1) (p_pagetable cur) va)
            in if n < 0 \<or> int (NPAGES cfg) \<le> n then Inl OutOfBounds
               else Inr (s1\<lparr>pageinfo := (pageinfo s1)
                              (nat n := (pageinfo s1 (nat n))
                                 \<lparr>refcount := int8 (refcount (pageinfo s1 (nat n)) + 1)\<rparr>)\<rparr>))
         else Inr s)"

function fork_pages :: "config \<Rightarrow> nat \<Rightarrow> nat \<Rightarrow> kstate \<Rightarrow> fault + kstate" where
  "fork_pages cfg newpid va s =
     (if va < MEMSIZE_VIRTUAL cfg
      then (case fork_page cfg newpid va s of
              Inl f \<Rightarrow> Inl f
            | Inr s' \<Rightarrow> fork_pages cfg newpid (va + PAGESIZE) s')
      else Inr s)"
  by pat_completeness auto
termination
  by (relation "measure (\<lambda>(cfg, newpid, va, s). MEMSIZE_VIRTUAL cfg - va)")
     (auto simp: PAGESIZE_def)

declare fork_pages.simps [simp del]

text \<open>
  The body of the loop over the process slots for a free slot (lines 259 to 279), in three
  parts: the slot is claimed and given the clone of the caller's page table
  (\<open>fork_clone\<close>), the pages are copied or shared (\<open>fork_pages\<close>), and the registers are
  set (\<open>fork_registers\<close>).
\<close>

definition fork_clone :: "config \<Rightarrow> nat \<Rightarrow> kstate \<Rightarrow> kstate" where
  "fork_clone cfg newpid s =
     (let s1 = s\<lparr>processes := (processes s)(newpid := (processes s newpid)\<lparr>p_state := P_RUNNABLE\<rparr>)\<rparr>;
          (pt, s2) = copy_pagetable cfg (p_pagetable (processes s1 (current s1))) (int newpid) s1
      in s2\<lparr>processes := (processes s2)(newpid := (processes s2 newpid)\<lparr>p_pagetable := pt\<rparr>)\<rparr>)"

definition fork_registers :: "nat \<Rightarrow> kstate \<Rightarrow> kstate" where
  "fork_registers newpid s =
     (let s5 = s\<lparr>processes := (processes s)
                  (newpid := (processes s newpid)
                     \<lparr>p_registers := p_registers (processes s (current s))\<rparr>)\<rparr>;
          s6 = set_eax newpid 0 s5
      in set_eax (current s6) (int newpid) s6)"

definition fork_child :: "config \<Rightarrow> nat \<Rightarrow> kstate \<Rightarrow> fault + kstate" where
  "fork_child cfg newpid s =
     (case fork_pages cfg newpid (PROC_START_ADDR cfg) (fork_clone cfg newpid s) of
        Inl f \<Rightarrow> Inl f
      | Inr s4 \<Rightarrow> Inr (fork_registers newpid s4))"

text \<open>
  The loop \<^verbatim>\<open>for(newpid = 1; newpid < NPROC; ++newpid)\<close> of \<^verbatim>\<open>INT_SYS_FORK\<close>: a free slot
  ends it (\<^verbatim>\<open>break\<close>); at the occupied slot 15 the caller's \<^verbatim>\<open>reg_eax\<close> becomes \<open>-1\<close> and the
  loop goes on.
\<close>

function fork_scan :: "config \<Rightarrow> nat \<Rightarrow> kstate \<Rightarrow> fault + kstate" where
  "fork_scan cfg newpid s =
     (if newpid < NPROC cfg
      then (if p_state (processes s newpid) = P_FREE then fork_child cfg newpid s
            else if newpid = 15 then fork_scan cfg (Suc newpid) (set_eax (current s) (- 1) s)
            else fork_scan cfg (Suc newpid) s)
      else Inr s)"
  by pat_completeness auto
termination
  by (relation "measure (\<lambda>(cfg, newpid, s). NPROC cfg - newpid)") auto

declare fork_scan.simps [simp del]

definition sys_fork :: "config \<Rightarrow> kstate \<Rightarrow> fault + kstate" where
  "sys_fork cfg s = fork_scan cfg 1 s"

subsection \<open>The frame invariant and the range of the reference counts\<close>

text \<open>
  The invariant of the frame table, section 3 of the specification: a frame has reference
  count 0 exactly when its owner is \<^verbatim>\<open>PO_FREE\<close>.
\<close>

definition frames_inv :: "config \<Rightarrow> kstate \<Rightarrow> bool" where
  "frames_inv cfg s =
     (\<forall>n<NPAGES cfg. (refcount (pageinfo s n) = 0) = (owner (pageinfo s n) = PO_FREE))"

text \<open>
  \<^verbatim>\<open>refcount\<close> is an \<^verbatim>\<open>int8_t\<close>, and \<^verbatim>\<open>fork\<close> increments it once for every virtual page it
  shares. \<open>fork_page_shares\<close> is the frame whose count the iteration at \<open>va\<close> increments,
  if it takes the sharing branch; \<open>fork_counts_in_range\<close> says of a run of the loop that
  every count it increments is that of a referenced frame and below the largest \<^verbatim>\<open>int8_t\<close>
  when it does.
\<close>

definition fork_page_shares :: "config \<Rightarrow> nat \<Rightarrow> nat \<Rightarrow> kstate \<Rightarrow> int option" where
  "fork_page_shares cfg newpid va s =
     (let cur = processes s (current s);
          vam = virtual_memory_lookup (mem s) (p_pagetable cur) va
      in if vam_perm vam = 0 then None
         else if vam_pn vam < 0 \<or> int (NPAGES cfg) \<le> vam_pn vam then None
         else if vam_perm vam AND PTE_W \<noteq> 0
                 \<and> owner (pageinfo s (nat (vam_pn vam))) = int (p_pid cur)
         then None
         else if owner (pageinfo s (nat (vam_pn vam))) = int (p_pid cur)
         then
           (let m1 = virtual_memory_map (mem s) (p_pagetable (processes s newpid)) va
                       (vam_pa vam) PAGESIZE (vam_perm vam);
                n = vam_pn (virtual_memory_lookup m1 (p_pagetable cur) va)
            in if n < 0 \<or> int (NPAGES cfg) \<le> n then None else Some n)
         else None)"

function fork_counts_in_range :: "config \<Rightarrow> nat \<Rightarrow> nat \<Rightarrow> kstate \<Rightarrow> bool" where
  "fork_counts_in_range cfg newpid va s =
     (if va < MEMSIZE_VIRTUAL cfg
      then (case fork_page_shares cfg newpid va s of
              None \<Rightarrow> True
            | Some n \<Rightarrow> 0 < refcount (pageinfo s (nat n)) \<and> refcount (pageinfo s (nat n)) < 127)
           \<and> (case fork_page cfg newpid va s of
                 Inl f \<Rightarrow> True
               | Inr s' \<Rightarrow> fork_counts_in_range cfg newpid (va + PAGESIZE) s')
      else True)"
  by pat_completeness auto
termination
  by (relation "measure (\<lambda>(cfg, newpid, va, s). MEMSIZE_VIRTUAL cfg - va)")
     (auto simp: PAGESIZE_def)

declare fork_counts_in_range.simps [simp del]

text \<open>
  An increment \<^verbatim>\<open>++refcount\<close> of the \<^verbatim>\<open>int8_t\<close> count of a frame keeps the frame invariant
  exactly when the count is not 0 (the frame is referenced, so its owner is not the free
  tag) and the incremented count is not 0 again. \<open>fork_counts_kept\<close> says of a run of the
  loop that every count it increments is such a count.
\<close>

definition count_can_grow :: "int \<Rightarrow> bool" where
  "count_can_grow rc = (rc \<noteq> 0 \<and> int8 (rc + 1) \<noteq> 0)"



subsection \<open>Boot-time frame table\<close>

definition initial_owner :: "config \<Rightarrow> nat \<Rightarrow> int" where
  "initial_owner cfg addr =
     (if physical_memory_isreserved cfg addr then PO_RESERVED
      else if (KERNEL_START_ADDR cfg \<le> addr \<and> addr < kernel_end cfg)
              \<or> addr = KERNEL_STACK_TOP cfg - PAGESIZE
      then PO_KERNEL
      else PO_FREE)"

function pageinfo_init_loop :: "config \<Rightarrow> nat \<Rightarrow> kstate \<Rightarrow> kstate" where
  "pageinfo_init_loop cfg addr s =
     (if addr < MEMSIZE_PHYSICAL cfg
      then pageinfo_init_loop cfg (addr + PAGESIZE)
             (s\<lparr>pageinfo := (pageinfo s)
                  (PAGENUMBER addr :=
                     \<lparr>owner = int8 (initial_owner cfg addr),
                      refcount = (if initial_owner cfg addr \<noteq> PO_FREE then 1 else 0)\<rparr>)\<rparr>)
      else s)"
  by pat_completeness auto
termination
  by (relation "measure (\<lambda>(cfg, addr, s). MEMSIZE_PHYSICAL cfg - addr)")
     (auto simp: PAGESIZE_def)

declare pageinfo_init_loop.simps [simp del]

definition pageinfo_init :: "config \<Rightarrow> kstate \<Rightarrow> kstate" where
  "pageinfo_init cfg s = pageinfo_init_loop cfg 0 s"

subsection \<open>Invariant checker\<close>

text \<open>
  \<^verbatim>\<open>virtual_memory_check\<close> returns nothing and panics at the first assertion that fails:
  \<open>None\<close> is a check that passed. \<open>first_fault\<close> runs the iterations of a loop in order.
\<close>

fun first_fault :: "fault option list \<Rightarrow> fault option" where
  "first_fault [] = None"
| "first_fault (None # cs) = first_fault cs"
| "first_fault (Some f # cs) = Some f"

definition expected_kernel_refcount :: "config \<Rightarrow> kstate \<Rightarrow> int" where
  "expected_kernel_refcount cfg s =
     1 + int (length (filter
                (\<lambda>pid. p_state (processes s pid) \<noteq> P_FREE
                       \<and> p_pagetable (processes s pid) = kernel_pagetable cfg)
                [0..<NPROC cfg]))"

definition check_l2 :: "config \<Rightarrow> kstate \<Rightarrow> nat \<Rightarrow> int \<Rightarrow> nat \<Rightarrow> fault option" where
  "check_l2 cfg s pagetable expected_owner i =
     (let pte = mem s (PAGENUMBER pagetable) i
      in if pte AND PTE_P \<noteq> 0
         then (if NPAGES cfg \<le> PAGENUMBER pte then Some OutOfBounds
               else if owner (pageinfo s (PAGENUMBER pte)) \<noteq> expected_owner then Some Panic
               else if refcount (pageinfo s (PAGENUMBER pte)) \<noteq> 1 then Some Panic
               else None)
         else None)"

definition check_pagetable :: "config \<Rightarrow> kstate \<Rightarrow> nat \<Rightarrow> int \<Rightarrow> int \<Rightarrow> fault option" where
  "check_pagetable cfg s pagetable expected_owner expected_refcount =
     (if NPAGES cfg \<le> PAGENUMBER pagetable then Some OutOfBounds
      else if owner (pageinfo s (PAGENUMBER pagetable)) \<noteq> expected_owner then Some Panic
      else if refcount (pageinfo s (PAGENUMBER pagetable)) \<noteq> expected_refcount then Some Panic
      else first_fault (map (check_l2 cfg s pagetable expected_owner) [0..<PAGETABLE_NENTRIES]))"

text \<open>The body of the loop \<^verbatim>\<open>for (int pid = -1; pid < NPROC; ++pid)\<close>; \<open>None\<close> is the kernel.\<close>

definition check_process :: "config \<Rightarrow> kstate \<Rightarrow> nat option \<Rightarrow> fault option" where
  "check_process cfg s po =
     (case po of
        None \<Rightarrow> check_pagetable cfg s (kernel_pagetable cfg) PO_KERNEL (expected_kernel_refcount cfg s)
      | Some pid \<Rightarrow>
          if p_state (processes s pid) = P_FREE then None
          else if p_pagetable (processes s pid) = kernel_pagetable cfg
          then check_pagetable cfg s (kernel_pagetable cfg) PO_KERNEL (expected_kernel_refcount cfg s)
          else check_pagetable cfg s (p_pagetable (processes s pid)) (int pid) 1)"

definition check_referenced :: "config \<Rightarrow> kstate \<Rightarrow> nat \<Rightarrow> fault option" where
  "check_referenced cfg s n =
     (if refcount (pageinfo s n) > 0 \<and> owner (pageinfo s n) \<ge> 0
      then (if int (NPROC cfg) \<le> owner (pageinfo s n) then Some OutOfBounds
            else if p_state (processes s (nat (owner (pageinfo s n)))) = P_FREE then Some Panic
            else None)
      else None)"

definition virtual_memory_check :: "config \<Rightarrow> kstate \<Rightarrow> fault option" where
  "virtual_memory_check cfg s =
     first_fault
       ([if NPROC cfg = 0 then Some OutOfBounds
         else if p_state (processes s 0) = P_FREE then None else Some Panic]
        @ map (check_process cfg s) (None # map Some [0..<NPROC cfg])
        @ map (check_referenced cfg s) [0..<PAGENUMBER (MEMSIZE_PHYSICAL cfg)])"

subsection \<open>Memory display\<close>

text \<open>
  \<^verbatim>\<open>memshow_physical\<close>, \<^verbatim>\<open>memshow_virtual\<close> and \<^verbatim>\<open>memshow_virtual_animate\<close> run at every
  interrupt, before the trap is handled. They draw on the console, whose cells are not
  part of the state; the model keeps of them what decides whether the kernel goes on:
  the index \<^verbatim>\<open>owner - PO_KERNEL\<close> into \<^verbatim>\<open>memstate_colors\<close>, a table of 18 entries, the two
  assertions of \<^verbatim>\<open>memshow_virtual\<close>, and the static variables that choose the process
  whose address space is shown. \<^verbatim>\<open>HZ\<close> is defined as 100 in \<^verbatim>\<open>kernel.c\<close>.
\<close>

definition HZ :: nat where "HZ = 100"

definition memstate_colors_entries :: int where "memstate_colors_entries = 18"

definition memstate_color :: "physical_pageinfo \<Rightarrow> fault option" where
  "memstate_color pi =
     (let ow = (if refcount pi = 0 then PO_FREE else owner pi)
      in if 0 \<le> ow - PO_KERNEL \<and> ow - PO_KERNEL < memstate_colors_entries then None
         else Some OutOfBounds)"

definition memshow_physical :: "config \<Rightarrow> kstate \<Rightarrow> fault option" where
  "memshow_physical cfg s =
     first_fault (map (\<lambda>pn. memstate_color (pageinfo s pn)) [0..<PAGENUMBER (MEMSIZE_PHYSICAL cfg)])"

text \<open>One iteration of the loop of \<^verbatim>\<open>memshow_virtual\<close> over the virtual pages, and the function.\<close>

definition memshow_virtual_page :: "config \<Rightarrow> kstate \<Rightarrow> nat \<Rightarrow> nat \<Rightarrow> fault option" where
  "memshow_virtual_page cfg s pagetable va =
     (let vam = virtual_memory_lookup (mem s) pagetable va
      in if vam_pn vam < 0 then None
         else if \<not> vam_pa vam < MEMSIZE_PHYSICAL cfg then Some Panic
         else if int (NPAGES cfg) \<le> vam_pn vam then Some OutOfBounds
         else memstate_color (pageinfo s (nat (vam_pn vam))))"

definition memshow_virtual :: "config \<Rightarrow> kstate \<Rightarrow> nat \<Rightarrow> fault option" where
  "memshow_virtual cfg s pagetable =
     (if pagetable \<noteq> PTE_ADDR pagetable then Some Panic
      else first_fault
             (map (\<lambda>k. memshow_virtual_page cfg s pagetable (k * PAGESIZE))
                [0..<(MEMSIZE_VIRTUAL cfg + PAGESIZE - 1) div PAGESIZE]))"

text \<open>
  The loop \<^verbatim>\<open>while (showing <= 2*NPROC && processes[showing % NPROC].p_state == P_FREE)
  ++showing;\<close> and \<^verbatim>\<open>memshow_virtual_animate\<close>. \<^verbatim>\<open>ticks - last_ticks\<close> is a difference of two
  \<^verbatim>\<open>unsigned\<close> values.
\<close>

function animate_skip :: "config \<Rightarrow> kstate \<Rightarrow> nat \<Rightarrow> nat" where
  "animate_skip cfg s sh =
     (if sh \<le> 2 * NPROC cfg \<and> p_state (processes s (sh mod NPROC cfg)) = P_FREE
      then animate_skip cfg s (Suc sh)
      else sh)"
  by pat_completeness auto
termination
  by (relation "measure (\<lambda>(cfg, s, sh). Suc (2 * NPROC cfg) - sh)") auto

declare animate_skip.simps [simp del]

definition memshow_virtual_animate :: "config \<Rightarrow> kstate \<Rightarrow> fault + kstate" where
  "memshow_virtual_animate cfg s =
     (if NPROC cfg = 0 then Inl OutOfBounds
      else
        (let s1 = (if last_ticks s = 0
                      \<or> int (HZ div 2) \<le> (int (ticks s) - int (last_ticks s)) mod 2 ^ 32
                   then s\<lparr>last_ticks := ticks s, showing := showing s + 1\<rparr>
                   else s);
             sh = animate_skip cfg s1 (showing s1) mod NPROC cfg;
             s2 = s1\<lparr>showing := sh\<rparr>
         in if p_state (processes s2 sh) \<noteq> P_FREE
            then (case memshow_virtual cfg s2 (p_pagetable (processes s2 sh)) of
                    Some f \<Rightarrow> Inl f
                  | None \<Rightarrow> Inr s2)
            else Inr s2))"

subsection \<open>Process creation\<close>

definition PROC_SIZE :: nat where
  "PROC_SIZE = 0x040000"

text \<open>
  \<^verbatim>\<open>process_setup\<close>. The register initialisation \<^verbatim>\<open>process_init\<close> and the program loader
  \<^verbatim>\<open>program_load\<close> belong to the hardware layer and the loader, which are not among the
  sources: they are parameters, the first a function on the descriptor, the second a
  function on the kernel state that returns the loader's result. The failed
  \<^verbatim>\<open>assert(r >= 0)\<close> is a panic. \<open>process_setup_pagetable\<close> is the first part of
  \<^verbatim>\<open>process_setup\<close>, up to the choice of the page table (lines 124 to 137).
\<close>

definition process_setup_pagetable :: "config \<Rightarrow> (proc \<Rightarrow> proc) \<Rightarrow> nat \<Rightarrow> kstate \<Rightarrow> fault + kstate" where
  "process_setup_pagetable cfg process_init pid s =
     (let s0 = s\<lparr>processes := (processes s)(pid := process_init (processes s pid))\<rparr>;
          (pt, s1) = copy_pagetable cfg (kernel_pagetable cfg) (int pid) s0;
          s2 = s1\<lparr>processes := (processes s1)(pid := (processes s1 pid)\<lparr>p_pagetable := pt\<rparr>)\<rparr>
      in if pt \<noteq> 0
         then
           (let m1 = virtual_memory_map (mem s2) pt (PROC_START_ADDR cfg) (PROC_START_ADDR cfg)
                       (MEMSIZE_PHYSICAL cfg - PROC_START_ADDR cfg) 0;
                m2 = virtual_memory_map m1 pt
                       (PROC_START_ADDR cfg + (pid - 1) * PROC_SIZE)
                       (PROC_START_ADDR cfg + (pid - 1) * PROC_SIZE)
                       (2 * PAGESIZE) (PTE_P OR PTE_W OR PTE_U)
            in Inr (s2\<lparr>mem := m2\<rparr>))
         else
           (let s3 = s2\<lparr>processes := (processes s2)
                        (pid := (processes s2 pid)\<lparr>p_pagetable := kernel_pagetable cfg\<rparr>)\<rparr>;
                k = PAGENUMBER (kernel_pagetable cfg)
            in if NPAGES cfg \<le> k then Inl OutOfBounds
               else Inr (s3\<lparr>pageinfo := (pageinfo s3)
                              (k := (pageinfo s3 k)
                                 \<lparr>refcount := int8 (refcount (pageinfo s3 k) + 1)\<rparr>)\<rparr>)))"


subsection \<open>Interrupt dispatcher\<close>

text \<open>
  \<^verbatim>\<open>interrupt\<close> ends in \<^verbatim>\<open>run\<close> or in \<^verbatim>\<open>schedule\<close>, neither of which returns: its value is
  the state in which the next process runs, a fault, or \<open>None\<close> when the scheduler spins
  for ever. \<open>interrupt_entry\<close> is its first part, up to the \<^verbatim>\<open>switch\<close> (lines 217 to 231):
  the registers are saved, the invariants are checked and the memory is displayed.
  \<^verbatim>\<open>set_pagetable\<close>, \<^verbatim>\<open>console_show_cursor\<close>, \<^verbatim>\<open>console_printf\<close> and \<^verbatim>\<open>check_keyboard\<close> belong
  to the hardware layer and change nothing of the state; no key is typed. \<open>PFERR_USER\<close>
  is the user-mode bit of the x86 page-fault error code.
\<close>

definition PFERR_USER :: nat where "PFERR_USER = 4"

definition resume :: "config \<Rightarrow> kstate \<Rightarrow> (fault + kstate) option" where
  "resume cfg s =
     (if p_state (processes s (current s)) = P_RUNNABLE then Some (run s (current s))
      else schedule cfg s)"

definition sys_page_alloc :: "config \<Rightarrow> kstate \<Rightarrow> kstate" where
  "sys_page_alloc cfg s =
     (let cur = processes s (current s);
          addr = nat (reg_eax (p_registers cur) mod 2 ^ 32);
          (r, s') = sys_page_alloc_func cfg addr (p_pagetable cur) (int (p_pid cur)) s
      in set_eax (current s') r s')"

definition pagefault :: "x86_registers \<Rightarrow> kstate \<Rightarrow> fault + kstate" where
  "pagefault reg s =
     (if reg_err reg AND PFERR_USER = 0 then Inl Panic
      else Inr (s\<lparr>processes := (processes s)
                   (current s := (processes s (current s))\<lparr>p_state := P_BROKEN\<rparr>)\<rparr>))"

definition interrupt_entry :: "config \<Rightarrow> x86_registers \<Rightarrow> kstate \<Rightarrow> fault + kstate" where
  "interrupt_entry cfg reg s =
     (let s1 = s\<lparr>processes := (processes s)
                  (current s := (processes s (current s))\<lparr>p_registers := reg\<rparr>)\<rparr>
      in case virtual_memory_check cfg s1 of
           Some f \<Rightarrow> Inl f
         | None \<Rightarrow>
             (case memshow_physical cfg s1 of
                Some f \<Rightarrow> Inl f
              | None \<Rightarrow> memshow_virtual_animate cfg s1))"

definition interrupt :: "config \<Rightarrow> x86_registers \<Rightarrow> kstate \<Rightarrow> (fault + kstate) option" where
  "interrupt cfg reg s =
     (case interrupt_entry cfg reg s of
        Inl f \<Rightarrow> Some (Inl f)
      | Inr s1 \<Rightarrow>
          (case reg_intno reg of
             INT_SYS_PANIC \<Rightarrow> Some (Inl Panic)
           | INT_SYS_GETPID \<Rightarrow>
               resume cfg (set_eax (current s1) (int (p_pid (processes s1 (current s1)))) s1)
           | INT_SYS_YIELD \<Rightarrow> schedule cfg s1
           | INT_SYS_PAGE_ALLOC \<Rightarrow> resume cfg (sys_page_alloc cfg s1)
           | INT_SYS_FORK \<Rightarrow>
               (case sys_fork cfg s1 of Inl f \<Rightarrow> Some (Inl f) | Inr s2 \<Rightarrow> resume cfg s2)
           | INT_TIMER \<Rightarrow> schedule cfg (s1\<lparr>ticks := (ticks s1 + 1) mod 2 ^ 32\<rparr>)
           | INT_PAGEFAULT \<Rightarrow>
               (case pagefault reg s1 of Inl f \<Rightarrow> Some (Inl f) | Inr s2 \<Rightarrow> resume cfg s2)
           | INT_UNRECOGNIZED \<Rightarrow> Some (Inl Panic)))"

subsection \<open>Boot\<close>

text \<open>
  \<^verbatim>\<open>start\<close> up to the process descriptors (lines 84 to 101), from the state the hardware
  initialisation leaves: the frame table, the kernel's mappings, and every descriptor
  zeroed, numbered and free.
\<close>

definition zero_registers :: x86_registers where
  "zero_registers = \<lparr>reg_eax = 0, reg_esp = 0, reg_eip = 0, reg_intno = INT_UNRECOGNIZED, reg_err = 0\<rparr>"

definition boot :: "config \<Rightarrow> kstate \<Rightarrow> kstate" where
  "boot cfg s =
     (let s1 = pageinfo_init cfg s;
          m1 = virtual_memory_map (mem s1) (kernel_pagetable cfg) 0 0 (PROC_START_ADDR cfg)
                 (PTE_P OR PTE_W);
          m2 = virtual_memory_map m1 (kernel_pagetable cfg) (console cfg) (console cfg) PAGESIZE
                 (PTE_P OR PTE_W OR PTE_U)
      in s1\<lparr>mem := m2,
             processes := (\<lambda>i. \<lparr>p_pid = i, p_registers = zero_registers, p_state = P_FREE,
                                 p_pagetable = 0\<rparr>)\<rparr>)"

subsection \<open>The checker's expected count, as the specification words it\<close>

text \<open>
  Section 4.6 of the specification: the expected reference count of the kernel's table is
  \<open>1 plus the number of Runnable processes aliasing it\<close>. This definition follows those
  words, for comparison with \<open>expected_kernel_refcount\<close>, which follows the code.
\<close>

definition spec_expected_kernel_refcount :: "config \<Rightarrow> kstate \<Rightarrow> int" where
  "spec_expected_kernel_refcount cfg s =
     1 + int (length (filter
                (\<lambda>pid. p_state (processes s pid) = P_RUNNABLE
                       \<and> p_pagetable (processes s pid) = kernel_pagetable cfg)
                [0..<NPROC cfg]))"

subsection \<open>What a fork does with each page of the caller\<close>

text \<open>
  The addresses the loop \<^verbatim>\<open>for(va = PROC_START_ADDR; va < MEMSIZE_VIRTUAL; va += PAGESIZE)\<close>
  of \<^verbatim>\<open>INT_SYS_FORK\<close> visits, the mapping of an address in the caller's and in the child's
  page table, and the two tests of the loop body (lines 264 and 269) on the caller's
  mapping: the caller owns the frame and may write it (the page is copied), or the caller
  owns the frame and may not write it (the page is shared).
\<close>

definition user_page :: "config \<Rightarrow> nat \<Rightarrow> bool" where
  "user_page cfg va =
     (PROC_START_ADDR cfg \<le> va \<and> va < MEMSIZE_VIRTUAL cfg
      \<and> (va - PROC_START_ADDR cfg) mod PAGESIZE = 0)"

definition parent_mapping :: "kstate \<Rightarrow> nat \<Rightarrow> vamapping" where
  "parent_mapping s va = virtual_memory_lookup (mem s) (p_pagetable (processes s (current s))) va"

definition child_mapping :: "nat \<Rightarrow> kstate \<Rightarrow> nat \<Rightarrow> vamapping" where
  "child_mapping newpid s va = virtual_memory_lookup (mem s) (p_pagetable (processes s newpid)) va"

definition page_frame :: "kstate \<Rightarrow> nat \<Rightarrow> nat" where
  "page_frame s va = nat (vam_pn (parent_mapping s va))"

definition page_owned :: "kstate \<Rightarrow> nat \<Rightarrow> bool" where
  "page_owned s va =
     (owner (pageinfo s (page_frame s va)) = int (p_pid (processes s (current s))))"

definition page_copied :: "kstate \<Rightarrow> nat \<Rightarrow> bool" where
  "page_copied s va = (vam_perm (parent_mapping s va) AND PTE_W \<noteq> 0 \<and> page_owned s va)"

definition page_shared :: "kstate \<Rightarrow> nat \<Rightarrow> bool" where
  "page_shared s va =
     (vam_perm (parent_mapping s va) \<noteq> 0 \<and> vam_perm (parent_mapping s va) AND PTE_W = 0
      \<and> page_owned s va)"

text \<open>
  The loop body does not test the result of \<^verbatim>\<open>page_alloc_lite\<close>. \<open>fork_page_copies\<close> is the
  test under which the iteration at \<open>va\<close> allocates; \<open>fork_allocations_succeed\<close> says of a
  run of the loop that every allocation it makes returns a frame.
\<close>

definition fork_page_copies :: "config \<Rightarrow> nat \<Rightarrow> kstate \<Rightarrow> bool" where
  "fork_page_copies cfg va s =
     (let cur = processes s (current s);
          vam = virtual_memory_lookup (mem s) (p_pagetable cur) va
      in vam_perm vam \<noteq> 0 \<and> 0 \<le> vam_pn vam \<and> vam_pn vam < int (NPAGES cfg)
         \<and> vam_perm vam AND PTE_W \<noteq> 0
         \<and> owner (pageinfo s (nat (vam_pn vam))) = int (p_pid cur))"

function fork_allocations_succeed :: "config \<Rightarrow> nat \<Rightarrow> nat \<Rightarrow> kstate \<Rightarrow> bool" where
  "fork_allocations_succeed cfg newpid va s =
     (if va < MEMSIZE_VIRTUAL cfg
      then (if fork_page_copies cfg va s then fst (page_alloc_lite cfg (int newpid) s) \<noteq> 0 else True)
           \<and> (case fork_page cfg newpid va s of
                 Inl f \<Rightarrow> True
               | Inr s' \<Rightarrow> fork_allocations_succeed cfg newpid (va + PAGESIZE) s')
      else True)"
  by pat_completeness auto
termination
  by (relation "measure (\<lambda>(cfg, newpid, va, s). MEMSIZE_VIRTUAL cfg - va)")
     (auto simp: PAGESIZE_def)

declare fork_allocations_succeed.simps [simp del]

text \<open>
  The conditions on the state before a fork under which the loop is followed: the frame
  invariant holds, the caller is not process 0 and the child's pid is stored in the owner
  field as a value other than the caller's pid, the caller's page table is page-aligned
  and lies, with the level-2 table of its entry 0, in referenced frames, and the user
  addresses are covered by entry 0 of a level-1 table.
\<close>

definition fork_pre :: "config \<Rightarrow> nat \<Rightarrow> kstate \<Rightarrow> bool" where
  "fork_pre cfg newpid s =
     (let cur = processes s (current s);
          pP = PAGENUMBER (p_pagetable cur)
      in frames_inv cfg s
         \<and> newpid \<noteq> current s
         \<and> p_pid cur \<noteq> 0
         \<and> int8 (int newpid) \<noteq> int (p_pid cur)
         \<and> p_pagetable cur mod PAGESIZE = 0
         \<and> refcount (pageinfo s pP) \<noteq> 0
         \<and> mem s pP 0 AND PTE_P \<noteq> 0
         \<and> refcount (pageinfo s (PAGENUMBER (mem s pP 0))) \<noteq> 0
         \<and> MEMSIZE_VIRTUAL cfg \<le> PAGESIZE * PAGETABLE_NENTRIES
         \<and> PROC_START_ADDR cfg mod PAGESIZE = 0)"

text \<open>
  The state \<open>t\<close> of a run of the loop that has reached \<open>va\<close>, against the state \<open>s\<close> before
  the fork; \<open>pC\<close> and \<open>lC\<close> are the frames of the child's two tables.
\<close>

definition parent_l2 :: "kstate \<Rightarrow> nat" where
  "parent_l2 s = PAGENUMBER (mem s (PAGENUMBER (p_pagetable (processes s (current s)))) 0)"

definition fork_copied :: "nat \<Rightarrow> kstate \<Rightarrow> nat \<Rightarrow> nat \<Rightarrow> nat \<Rightarrow> kstate \<Rightarrow> bool" where
  "fork_copied newpid s pC lC va t =
     (let pe = mem t lC (L2PAGEINDEX va); f = PAGENUMBER pe
      in pe = PAGEADDRESS f OR vam_perm (parent_mapping s va)
         \<and> f \<noteq> 0 \<and> f \<noteq> pC \<and> f \<noteq> lC
         \<and> refcount (pageinfo s f) = 0
         \<and> pageinfo t f = \<lparr>owner = int8 (int newpid), refcount = 1\<rparr>
         \<and> mem t f = mem s (page_frame s va)
         \<and> refcount (pageinfo s (page_frame s va)) \<noteq> 0)"

definition only_sharer :: "config \<Rightarrow> kstate \<Rightarrow> nat \<Rightarrow> bool" where
  "only_sharer cfg s va =
     (user_page cfg va \<and> page_shared s va
      \<and> (\<forall>va2. user_page cfg va2 \<and> page_shared s va2 \<and> page_frame s va2 = page_frame s va
             \<longrightarrow> va2 = va))"

definition fork_inv_procs :: "config \<Rightarrow> nat \<Rightarrow> kstate \<Rightarrow> nat \<Rightarrow> nat \<Rightarrow> kstate \<Rightarrow> bool" where
  "fork_inv_procs cfg newpid s pC va t =
     (current t = current s
      \<and> processes t (current s) = processes s (current s)
      \<and> p_pagetable (processes t newpid) = PAGEADDRESS pC
      \<and> PROC_START_ADDR cfg \<le> va \<and> (va - PROC_START_ADDR cfg) mod PAGESIZE = 0)"

definition fork_inv_frames :: "nat \<Rightarrow> kstate \<Rightarrow> nat \<Rightarrow> nat \<Rightarrow> kstate \<Rightarrow> bool" where
  "fork_inv_frames newpid s pC lC t =
     (pC \<noteq> lC \<and> refcount (pageinfo s pC) = 0 \<and> refcount (pageinfo s lC) = 0
      \<and> pageinfo t pC = \<lparr>owner = int8 (int newpid), refcount = 1\<rparr>
      \<and> pageinfo t lC = \<lparr>owner = int8 (int newpid), refcount = 1\<rparr>
      \<and> mem t pC 0 = PAGEADDRESS lC OR PTE_P OR PTE_W OR PTE_U
      \<and> (\<forall>n. refcount (pageinfo s n) \<noteq> 0 \<longrightarrow>
             owner (pageinfo t n) = owner (pageinfo s n) \<and> refcount (pageinfo t n) \<noteq> 0
             \<and> mem t n = mem s n)
      \<and> (\<forall>n. refcount (pageinfo s n) = 0 \<longrightarrow>
             pageinfo t n = pageinfo s n
             \<or> pageinfo t n = \<lparr>owner = int8 (int newpid), refcount = 1\<rparr>))"

definition fork_inv_pages :: "config \<Rightarrow> nat \<Rightarrow> kstate \<Rightarrow> nat \<Rightarrow> nat \<Rightarrow> nat \<Rightarrow> kstate \<Rightarrow> bool" where
  "fork_inv_pages cfg newpid s pC lC va t =
     (\<forall>va'. user_page cfg va' \<longrightarrow>
        (if va' < va \<and> page_copied s va' then fork_copied newpid s pC lC va' t
         else mem t lC (L2PAGEINDEX va') = mem s (parent_l2 s) (L2PAGEINDEX va')))"

definition fork_inv_counts :: "config \<Rightarrow> kstate \<Rightarrow> nat \<Rightarrow> kstate \<Rightarrow> bool" where
  "fork_inv_counts cfg s va t =
     ((\<forall>va'. only_sharer cfg s va' \<longrightarrow>
          refcount (pageinfo t (page_frame s va')) =
            refcount (pageinfo s (page_frame s va')) + (if va' < va then 1 else 0))
      \<and> (\<forall>n. refcount (pageinfo s n) \<noteq> 0
             \<and> (\<forall>va'. user_page cfg va' \<and> page_shared s va' \<longrightarrow> page_frame s va' \<noteq> n)
           \<longrightarrow> pageinfo t n = pageinfo s n))"

definition fork_inv :: "config \<Rightarrow> nat \<Rightarrow> kstate \<Rightarrow> nat \<Rightarrow> nat \<Rightarrow> nat \<Rightarrow> kstate \<Rightarrow> bool" where
  "fork_inv cfg newpid s pC lC va t =
     (fork_inv_procs cfg newpid s pC va t \<and> fork_inv_frames newpid s pC lC t
      \<and> fork_inv_pages cfg newpid s pC lC va t \<and> fork_inv_counts cfg s va t)"

section \<open>Concrete configurations and states\<close>

text \<open>
  A small machine on which the functions above are evaluated: eight process slots, eight
  physical pages, and a user region of two virtual pages.
\<close>

definition proc_in :: "procstate \<Rightarrow> nat \<Rightarrow> nat \<Rightarrow> proc" where
  "proc_in st pt i = \<lparr>p_pid = i, p_registers = zero_registers, p_state = st, p_pagetable = pt\<rparr>"

definition frame_table :: "(int \<times> int) list \<Rightarrow> nat \<Rightarrow> physical_pageinfo" where
  "frame_table xs n =
     (if n < length xs then \<lparr>owner = fst (xs ! n), refcount = snd (xs ! n)\<rparr>
      else \<lparr>owner = 0, refcount = 0\<rparr>)"

definition small_config :: config where
  "small_config =
     \<lparr>NPROC = 8, NPAGES = 8, PROC_START_ADDR = 0x4000, MEMSIZE_VIRTUAL = 0x6000,
      KERNEL_START_ADDR = 0x1000, KERNEL_STACK_TOP = 0x4000, kernel_end = 0x3000,
      kernel_pagetable = 0x1000, console = 0x3000,
      physical_memory_isreserved = (\<lambda>a. a = 0)\<rparr>"

text \<open>Frames 0 and 1 in use, frame 2 free, frame 3 in use, the rest free.\<close>

definition alloc_state :: kstate where
  "alloc_state =
     \<lparr>pageinfo = frame_table [(- 1, 1), (- 2, 1), (0, 0), (1, 1)],
      processes = proc_in P_FREE 0, current = 1, ticks = 0, last_ticks = 0, showing = 1, mem = (\<lambda>n i. 0)\<rparr>"

text \<open>The scheduler example of the specification: runnable processes at pids 2, 5 and 7.\<close>

definition sched_state :: "nat \<Rightarrow> kstate" where
  "sched_state c =
     \<lparr>pageinfo = frame_table [],
      processes = (\<lambda>i. proc_in (if i \<in> {2, 5, 7} then P_RUNNABLE else P_FREE) 0 i),
      current = c, ticks = 0, last_ticks = 0, showing = 1, mem = (\<lambda>n i. 0)\<rparr>"

text \<open>
  Two runnable processes, each with a page table of its own (frames 4 and 6) that maps
  nothing, and the page-fault trap of a user-mode read of an unmapped address.
\<close>

definition fault_state :: kstate where
  "fault_state =
     \<lparr>pageinfo = frame_table [(- 1, 1), (- 2, 1), (0, 0), (0, 0), (1, 1), (0, 0), (2, 1)],
      processes = (\<lambda>i. if i = 1 then proc_in P_RUNNABLE 0x4000 1
                        else if i = 2 then proc_in P_RUNNABLE 0x6000 2
                        else proc_in P_FREE 0 i),
      current = 1, ticks = 0, last_ticks = 0, showing = 1, mem = (\<lambda>n i. 0)\<rparr>"

definition fault_registers :: x86_registers where
  "fault_registers =
     \<lparr>reg_eax = 0, reg_esp = 0, reg_eip = 0, reg_intno = INT_PAGEFAULT, reg_err = 4\<rparr>"

text \<open>
  The state the hardware initialisation leaves: the kernel's level-1 table in frame 1,
  whose entry 0 points to a level-2 table in frame 2. And a state in which process 1 is
  broken and runs on the kernel's page table.
\<close>

definition power_on_state :: kstate where
  "power_on_state =
     \<lparr>pageinfo = frame_table [],
      processes = proc_in P_BROKEN 0,
      current = 0, ticks = 0, last_ticks = 0, showing = 1,
      mem = (\<lambda>n i. if n = 1 \<and> i = 0 then 0x2007 else 0)\<rparr>"

definition broken_alias_state :: kstate where
  "broken_alias_state =
     \<lparr>pageinfo = frame_table [(- 1, 1), (- 2, 2), (- 2, 1), (- 2, 1)],
      processes = (\<lambda>i. if i = 1 then proc_in P_BROKEN 0x1000 1 else proc_in P_FREE 0 i),
      current = 1, ticks = 0, last_ticks = 0, showing = 1,
      mem = (\<lambda>n i. if n = 1 \<and> i = 0 then 0x2007 else 0)\<rparr>"

text \<open>
  A machine of sixteen process slots and twenty frames. Every slot from 1 to 15 holds a
  runnable process whose page table, which maps nothing, is the frame after its pid; the
  caller of \<^verbatim>\<open>fork\<close> is process 1, with 42 in \<^verbatim>\<open>reg_eax\<close>.
\<close>

definition full_config :: config where
  "full_config =
     \<lparr>NPROC = 16, NPAGES = 20, PROC_START_ADDR = 0x14000, MEMSIZE_VIRTUAL = 0x16000,
      KERNEL_START_ADDR = 0x1000, KERNEL_STACK_TOP = 0x2000, kernel_end = 0x2000,
      kernel_pagetable = 0x1000, console = 0x2000,
      physical_memory_isreserved = (\<lambda>a. a = 0)\<rparr>"

definition fork_trap_registers :: x86_registers where
  "fork_trap_registers =
     \<lparr>reg_eax = 42, reg_esp = 0, reg_eip = 0, reg_intno = INT_SYS_FORK, reg_err = 0\<rparr>"

definition full_table_state :: kstate where
  "full_table_state =
     \<lparr>pageinfo = (\<lambda>n. if n = 0 then \<lparr>owner = - 1, refcount = 1\<rparr>
                        else if n = 1 then \<lparr>owner = - 2, refcount = 1\<rparr>
                        else if n < 17 then \<lparr>owner = int n - 1, refcount = 1\<rparr>
                        else \<lparr>owner = 0, refcount = 0\<rparr>),
      processes = (\<lambda>i. if 1 \<le> i \<and> i < 16
                        then (proc_in P_RUNNABLE (PAGEADDRESS (i + 1)) i)
                               \<lparr>p_registers := fork_trap_registers\<rparr>
                        else proc_in P_FREE 0 i),
      current = 1, ticks = 0, last_ticks = 0, showing = 1, mem = (\<lambda>n i. 0)\<rparr>"

text \<open>A frame table whose only free frame is frame 7.\<close>

definition one_free_state :: kstate where
  "one_free_state =
     \<lparr>pageinfo = frame_table [(- 1, 1), (- 2, 1), (- 2, 1), (- 2, 1), (1, 1), (1, 1), (1, 1), (0, 0)],
      processes = (\<lambda>i. if i = 1 then proc_in P_RUNNABLE 0x4000 1 else proc_in P_FREE 0 i),
      current = 1, ticks = 0, last_ticks = 0, showing = 1,
      mem = (\<lambda>n i. if n = 4 \<and> i = 0 then 0x5007 else 0)\<rparr>"

text \<open>
  Process 1 with its level-1 table in frame 4 and its level-2 table in frame 5, which maps
  the virtual page \<open>0x4000\<close> to frame 6, writable and owned by process 1. Frames 2 and 3
  are the only free frames: the clone takes both.
\<close>

definition exhaust_state :: kstate where
  "exhaust_state =
     \<lparr>pageinfo = frame_table [(- 1, 1), (- 2, 1), (0, 0), (0, 0), (1, 1), (1, 1), (1, 1), (- 2, 1)],
      processes = (\<lambda>i. if i = 1 then proc_in P_RUNNABLE 0x4000 1 else proc_in P_FREE 0 i),
      current = 1, ticks = 0, last_ticks = 0, showing = 1,
      mem = (\<lambda>n i. if n = 4 \<and> i = 0 then 0x5007
                    else if n = 5 \<and> i = 4 then 0x6007
                    else if n = 6 \<and> i = 0 then 0xABCD
                    else 0)\<rparr>"

text \<open>The state in which the loop over the pages starts, and the one in which it ends.\<close>

definition exhaust_loop_entry :: kstate where
  "exhaust_loop_entry = fork_clone small_config 2 exhaust_state"

definition exhaust_loop_exit :: kstate where
  "exhaust_loop_exit =
     exhaust_loop_entry
       \<lparr>mem := (mem exhaust_loop_entry)
                 (0 := mem exhaust_loop_entry 6, 3 := (mem exhaust_loop_entry 3)(4 := 7))\<rparr>"

text \<open>
  A machine of ten frames with a user region of three virtual pages, and a process 1 that
  maps all three: \<open>0x4000\<close> to frame 6, writable and its own; \<open>0x5000\<close> to frame 7,
  read-only and its own; \<open>0x6000\<close> to frame 9, read-only and owned by the kernel. Its
  level-1 table is frame 4 and its level-2 table frame 5; frames 2, 3 and 8 are free.
\<close>

definition fork_config :: config where
  "fork_config =
     \<lparr>NPROC = 8, NPAGES = 10, PROC_START_ADDR = 0x4000, MEMSIZE_VIRTUAL = 0x7000,
      KERNEL_START_ADDR = 0x1000, KERNEL_STACK_TOP = 0x4000, kernel_end = 0x3000,
      kernel_pagetable = 0x1000, console = 0x3000,
      physical_memory_isreserved = (\<lambda>a. a = 0)\<rparr>"

definition fork_state :: kstate where
  "fork_state =
     \<lparr>pageinfo = frame_table [(- 1, 1), (- 2, 1), (0, 0), (0, 0), (1, 1), (1, 1), (1, 1), (1, 1),
                               (0, 0), (- 2, 1)],
      processes = (\<lambda>i. if i = 1 then proc_in P_RUNNABLE 0x4000 1 else proc_in P_FREE 0 i),
      current = 1, ticks = 0, last_ticks = 0, showing = 1,
      mem = (\<lambda>n i. if n = 4 \<and> i = 0 then 0x5007
                    else if n = 5 \<and> i = 4 then 0x6007
                    else if n = 5 \<and> i = 5 then 0x7005
                    else if n = 5 \<and> i = 6 then 0x9005
                    else if n = 6 \<and> i = 0 then 0xABCD
                    else if n = 7 \<and> i = 0 then 0x1234
                    else 0)\<rparr>"

text \<open>The states of the loop of \<^verbatim>\<open>fork\<close> on it: at its entry, after the first page, at its exit.\<close>

definition fork_entry :: kstate where
  "fork_entry = fork_clone fork_config 2 fork_state"

definition fork_after_copy :: kstate where
  "fork_after_copy =
     fork_entry
       \<lparr>pageinfo := (pageinfo fork_entry)(8 := \<lparr>owner = 2, refcount = 1\<rparr>),
        mem := (mem fork_entry)(8 := mem fork_entry 6, 3 := (mem fork_entry 3)(4 := 0x8007))\<rparr>"

definition fork_exit :: kstate where
  "fork_exit =
     fork_after_copy
       \<lparr>mem := (mem fork_after_copy)(3 := (mem fork_after_copy 3)(5 := 0x7005)),
        pageinfo := (pageinfo fork_after_copy)(7 := \<lparr>owner = 1, refcount = 2\<rparr>)\<rparr>"

section \<open>Properties\<close>

subsection \<open>Pages and masks\<close>

lemma and_0xFFF: "(a::nat) AND 0xFFF = a mod PAGESIZE"
proof -
  have "(0xFFF::nat) = mask 12" by (simp add: mask_eq_exp_minus_1)
  then have "a AND 0xFFF = take_bit 12 a" by (simp only: take_bit_eq_mask)
  then show ?thesis by (simp add: take_bit_eq_mod PAGESIZE_def)
qed

lemma PAGESIZE_pos [simp]: "0 < PAGESIZE"
  by (simp add: PAGESIZE_def)

lemma PAGENUMBER_mult [simp]: "PAGENUMBER (n * PAGESIZE) = n"
  by (simp add: PAGENUMBER_def)

lemma PAGENUMBER_PAGEADDRESS [simp]: "PAGENUMBER (PAGEADDRESS n) = n"
  by (simp add: PAGENUMBER_def PAGEADDRESS_def)

subsection \<open>The frame allocator\<close>

lemma free_page_scan_ge: "k \<le> free_page_scan cfg s k"
proof (induction cfg s k rule: free_page_scan.induct)
  case (1 cfg s pn)
  show ?case
    using "1.IH" by (subst free_page_scan.simps) auto
qed

lemma free_page_scan_le: "k \<le> NPAGES cfg \<Longrightarrow> free_page_scan cfg s k \<le> NPAGES cfg"
proof (induction cfg s k rule: free_page_scan.induct)
  case (1 cfg s pn)
  show ?case
    using "1.IH" "1.prems" by (subst free_page_scan.simps) auto
qed

lemma free_page_scan_free:
  "free_page_scan cfg s k < NPAGES cfg \<Longrightarrow> refcount (pageinfo s (free_page_scan cfg s k)) = 0"
proof (induction cfg s k rule: free_page_scan.induct)
  case (1 cfg s pn)
  show ?case
  proof (cases "pn < NPAGES cfg \<and> refcount (pageinfo s pn) \<noteq> 0")
    case True
    then have eq: "free_page_scan cfg s pn = free_page_scan cfg s (Suc pn)"
      by (subst free_page_scan.simps) simp
    with "1.IH" "1.prems" True show ?thesis by simp
  next
    case False
    then have eq: "free_page_scan cfg s pn = pn"
      by (subst free_page_scan.simps) auto
    with "1.prems" False show ?thesis by auto
  qed
qed

lemma free_page_scan_skipped:
  "k \<le> j \<Longrightarrow> j < free_page_scan cfg s k \<Longrightarrow> refcount (pageinfo s j) \<noteq> 0"
proof (induction cfg s k rule: free_page_scan.induct)
  case (1 cfg s pn)
  have scan: "pn < NPAGES cfg \<and> refcount (pageinfo s pn) \<noteq> 0"
  proof (rule ccontr)
    assume "\<not> ?thesis"
    then have "free_page_scan cfg s pn = pn"
      by (subst free_page_scan.simps) auto
    with "1.prems" show False by simp
  qed
  then have eq: "free_page_scan cfg s pn = free_page_scan cfg s (Suc pn)"
    by (subst free_page_scan.simps) simp
  show ?case
  proof (cases "j = pn")
    case True
    with scan show ?thesis by simp
  next
    case False
    with "1.prems" have "Suc pn \<le> j" by simp
    with "1.IH" scan "1.prems"(2) eq show ?thesis by simp
  qed
qed

lemma free_page_scan_first:
  assumes "k \<le> n" "n < NPAGES cfg" "refcount (pageinfo s n) = 0"
    and "\<forall>j. k \<le> j \<and> j < n \<longrightarrow> refcount (pageinfo s j) \<noteq> 0"
  shows "free_page_scan cfg s k = n"
proof -
  have "\<not> n < free_page_scan cfg s k"
    using free_page_scan_skipped[of k n cfg s] assms by auto
  moreover have "\<not> free_page_scan cfg s k < n"
    using free_page_scan_free[of cfg s k] free_page_scan_ge[of k cfg s] assms by auto
  ultimately show ?thesis by simp
qed

lemma free_page_scan_none:
  assumes "\<forall>j. k \<le> j \<and> j < NPAGES cfg \<longrightarrow> refcount (pageinfo s j) \<noteq> 0" "k \<le> NPAGES cfg"
  shows "free_page_scan cfg s k = NPAGES cfg"
proof -
  have "\<not> free_page_scan cfg s k < NPAGES cfg"
    using free_page_scan_free[of cfg s k] free_page_scan_ge[of k cfg s] assms by auto
  with free_page_scan_le[of k cfg s] assms show ?thesis by simp
qed

lemma physical_page_alloc_ok:
  "n < NPAGES cfg \<Longrightarrow> refcount (pageinfo s n) = 0 \<Longrightarrow>
   physical_page_alloc cfg (n * PAGESIZE) pid s =
     (0, s\<lparr>pageinfo := (pageinfo s)(n := \<lparr>owner = int8 pid, refcount = 1\<rparr>)\<rparr>)"
  by (simp add: physical_page_alloc_def and_0xFFF MEMSIZE_PHYSICAL_def PAGEADDRESS_def)

lemma physical_page_alloc_full:
  "physical_page_alloc cfg (NPAGES cfg * PAGESIZE) pid s = (- 1, s)"
  by (simp add: physical_page_alloc_def MEMSIZE_PHYSICAL_def PAGEADDRESS_def)

lemma page_alloc_lite_found:
  assumes "n < NPAGES cfg" "refcount (pageinfo s n) = 0"
    and "\<forall>j<n. refcount (pageinfo s j) \<noteq> 0"
  shows "page_alloc_lite cfg pid s =
     (PAGEADDRESS n, s\<lparr>pageinfo := (pageinfo s)(n := \<lparr>owner = int8 pid, refcount = 1\<rparr>)\<rparr>)"
proof -
  have "free_page_scan cfg s 0 = n"
    using assms by (intro free_page_scan_first) auto
  then show ?thesis
    using assms by (simp add: page_alloc_lite_def physical_page_alloc_ok)
qed

lemma page_alloc_lite_exhausted:
  assumes "\<forall>j<NPAGES cfg. refcount (pageinfo s j) \<noteq> 0"
  shows "page_alloc_lite cfg pid s = (0, s)"
proof -
  have "free_page_scan cfg s 0 = NPAGES cfg"
    using assms by (intro free_page_scan_none) auto
  then show ?thesis
    by (simp add: page_alloc_lite_def physical_page_alloc_full)
qed

lemma page_alloc_lite_result:
  "page_alloc_lite cfg pid s = (a, s') \<Longrightarrow> a \<noteq> 0 \<Longrightarrow>
   \<exists>n<NPAGES cfg. a = PAGEADDRESS n \<and> refcount (pageinfo s n) = 0
      \<and> s' = s\<lparr>pageinfo := (pageinfo s)(n := \<lparr>owner = int8 pid, refcount = 1\<rparr>)\<rparr>"
proof -
  assume r: "page_alloc_lite cfg pid s = (a, s')" and nz: "a \<noteq> 0"
  let ?n = "free_page_scan cfg s 0"
  have le: "?n \<le> NPAGES cfg" by (rule free_page_scan_le) simp
  show ?thesis
  proof (cases "?n < NPAGES cfg")
    case True
    then have fr: "refcount (pageinfo s ?n) = 0" by (rule free_page_scan_free)
    from r True fr have "a = PAGEADDRESS ?n"
      "s' = s\<lparr>pageinfo := (pageinfo s)(?n := \<lparr>owner = int8 pid, refcount = 1\<rparr>)\<rparr>"
      by (auto simp: page_alloc_lite_def physical_page_alloc_ok Let_def)
    with True fr show ?thesis by blast
  next
    case False
    with le have "?n = NPAGES cfg" by simp
    with r have "a = 0" by (simp add: page_alloc_lite_def physical_page_alloc_full)
    with nz show ?thesis by simp
  qed
qed

text \<open>
  Claim C5. \<^verbatim>\<open>page_alloc_lite\<close> takes the first frame, in increasing frame number, whose
  reference count is 0: it gives the frame to the requested owner with reference count 1,
  changes no other frame record, and returns the frame's physical address. When no frame
  is free it returns \<^verbatim>\<open>NULL\<close> and changes nothing. Two allocations in sequence that both
  return a frame return different frames.
\<close>

theorem page_alloc_lite_first_free:
  "(\<forall>n. n < NPAGES cfg \<and> refcount (pageinfo s n) = 0 \<and> (\<forall>j<n. refcount (pageinfo s j) \<noteq> 0) \<longrightarrow>
        page_alloc_lite cfg pid s =
          (PAGEADDRESS n, s\<lparr>pageinfo := (pageinfo s)(n := \<lparr>owner = int8 pid, refcount = 1\<rparr>)\<rparr>))
   \<and> ((\<forall>j<NPAGES cfg. refcount (pageinfo s j) \<noteq> 0) \<longrightarrow> page_alloc_lite cfg pid s = (0, s))
   \<and> (\<forall>a1 s1 pid2 a2 s2. page_alloc_lite cfg pid s = (a1, s1) \<and> a1 \<noteq> 0
          \<and> page_alloc_lite cfg pid2 s1 = (a2, s2) \<and> a2 \<noteq> 0
        \<longrightarrow> a1 \<noteq> a2 \<and> PAGENUMBER a1 \<noteq> PAGENUMBER a2)"
proof (intro conjI allI impI)
  fix n
  assume "n < NPAGES cfg \<and> refcount (pageinfo s n) = 0 \<and> (\<forall>j<n. refcount (pageinfo s j) \<noteq> 0)"
  then show "page_alloc_lite cfg pid s =
      (PAGEADDRESS n, s\<lparr>pageinfo := (pageinfo s)(n := \<lparr>owner = int8 pid, refcount = 1\<rparr>)\<rparr>)"
    by (simp add: page_alloc_lite_found)
next
  assume "\<forall>j<NPAGES cfg. refcount (pageinfo s j) \<noteq> 0"
  then show "page_alloc_lite cfg pid s = (0, s)" by (rule page_alloc_lite_exhausted)
next
  fix a1 s1 pid2 a2 s2
  assume h: "page_alloc_lite cfg pid s = (a1, s1) \<and> a1 \<noteq> 0
          \<and> page_alloc_lite cfg pid2 s1 = (a2, s2) \<and> a2 \<noteq> 0"
  then obtain n where n: "a1 = PAGEADDRESS n"
      "s1 = s\<lparr>pageinfo := (pageinfo s)(n := \<lparr>owner = int8 pid, refcount = 1\<rparr>)\<rparr>"
    using page_alloc_lite_result[of cfg pid s a1 s1] by blast
  from h obtain m where m: "a2 = PAGEADDRESS m" "refcount (pageinfo s1 m) = 0"
    using page_alloc_lite_result[of cfg pid2 s1 a2 s2] by blast
  from n m have "m \<noteq> n" by auto
  with n m have "PAGENUMBER a1 \<noteq> PAGENUMBER a2" by simp
  then show "a1 \<noteq> a2" "PAGENUMBER a1 \<noteq> PAGENUMBER a2" by auto
qed

theorem page_alloc_lite_first_free_witness:
  "page_alloc_lite small_config 3 alloc_state =
     (8192, alloc_state\<lparr>pageinfo := (pageinfo alloc_state)(2 := \<lparr>owner = 3, refcount = 1\<rparr>)\<rparr>)"
proof -
  have h: "2 < NPAGES small_config \<and> refcount (pageinfo alloc_state 2) = 0
      \<and> (\<forall>j<2. refcount (pageinfo alloc_state j) \<noteq> 0)"
    by (auto simp: small_config_def alloc_state_def frame_table_def less_Suc_eq numeral_2_eq_2)
  from page_alloc_lite_first_free[THEN conjunct1, rule_format, OF h, of 3]
  show ?thesis by (simp add: PAGEADDRESS_def PAGESIZE_def int8_def)
qed

subsection \<open>The scheduler\<close>

lemma schedule_loop_found:
  "p_state (processes s ((pid + Suc k) mod NPROC cfg)) = P_RUNNABLE \<Longrightarrow>
   \<forall>j<k. p_state (processes s ((pid + Suc j) mod NPROC cfg)) \<noteq> P_RUNNABLE \<Longrightarrow>
   schedule_loop cfg s pid = Some (Inr (s\<lparr>current := (pid + Suc k) mod NPROC cfg\<rparr>))"
proof (induction k arbitrary: pid)
  case 0
  then show ?case
    by (subst schedule_loop.simps) (simp add: run_def)
next
  case (Suc k)
  let ?p = "(pid + 1) mod NPROC cfg"
  from Suc.prems(2) have nr: "p_state (processes s ?p) \<noteq> P_RUNNABLE" by auto
  have shift: "(?p + Suc j) mod NPROC cfg = (pid + Suc (Suc j)) mod NPROC cfg" for j
    using mod_add_left_eq[of "pid + 1" "NPROC cfg" "Suc j"] by simp
  have "schedule_loop cfg s ?p = Some (Inr (s\<lparr>current := (?p + Suc k) mod NPROC cfg\<rparr>))"
  proof (rule Suc.IH)
    show "p_state (processes s ((?p + Suc k) mod NPROC cfg)) = P_RUNNABLE"
      using Suc.prems(1) by (simp only: shift)
    show "\<forall>j<k. p_state (processes s ((?p + Suc j) mod NPROC cfg)) \<noteq> P_RUNNABLE"
      using Suc.prems(2) by (auto simp only: shift)
  qed
  then have "schedule_loop cfg s ?p = Some (Inr (s\<lparr>current := (pid + Suc (Suc k)) mod NPROC cfg\<rparr>))"
    by (simp only: shift)
  with nr show ?case
    by (subst schedule_loop.simps) (simp add: Let_def)
qed

lemma schedule_loop_runnable:
  assumes "schedule_loop cfg s pid = Some y"
  shows "\<exists>k. p_state (processes s ((pid + Suc k) mod NPROC cfg)) = P_RUNNABLE"
proof (rule schedule_loop.raw_induct
    [where P = "\<lambda>cfg s pid y. \<exists>k. p_state (processes s ((pid + Suc k) mod NPROC cfg)) = P_RUNNABLE",
      OF _ assms], goal_cases)
  case (1 f cfg s pid y)
  show ?case
  proof (cases "p_state (processes s ((pid + 1) mod NPROC cfg)) = P_RUNNABLE")
    case True
    then show ?thesis by (intro exI[of _ 0]) simp
  next
    case False
    with 1 obtain k where
      "p_state (processes s (((pid + 1) mod NPROC cfg + Suc k) mod NPROC cfg)) = P_RUNNABLE"
      by (fastforce simp: Let_def)
    moreover have "((pid + 1) mod NPROC cfg + Suc k) mod NPROC cfg = (pid + Suc (Suc k)) mod NPROC cfg"
      using mod_add_left_eq[of "pid + 1" "NPROC cfg" "Suc k"] by simp
    ultimately show ?thesis by (intro exI[of _ "Suc k"]) simp
  qed
qed

text \<open>
  Claim C6. The scheduler runs the first runnable descriptor in the order
  \<open>(current_pid + 1) mod NPROC, (current_pid + 2) mod NPROC, ...\<close>. With runnable processes
  exactly at pids 2, 5 and 7 in a table of 8 slots it goes from 5 to 7 and from 7 to 2.
\<close>

theorem schedule_round_robin:
  "(0 < NPROC cfg \<longrightarrow>
      (\<forall>k. p_state (processes s ((p_pid (processes s (current s)) + Suc k) mod NPROC cfg)) = P_RUNNABLE
          \<and> (\<forall>j<k. p_state (processes s ((p_pid (processes s (current s)) + Suc j) mod NPROC cfg))
                  \<noteq> P_RUNNABLE)
        \<longrightarrow> schedule cfg s =
              Some (Inr (s\<lparr>current := (p_pid (processes s (current s)) + Suc k) mod NPROC cfg\<rparr>))))
   \<and> NPROC small_config = 8
   \<and> schedule small_config (sched_state 5) = Some (Inr (sched_state 7))
   \<and> schedule small_config (sched_state 7) = Some (Inr (sched_state 2))"
proof (intro conjI impI allI)
  fix k
  assume "p_state (processes s ((p_pid (processes s (current s)) + Suc k) mod NPROC cfg)) = P_RUNNABLE
          \<and> (\<forall>j<k. p_state (processes s ((p_pid (processes s (current s)) + Suc j) mod NPROC cfg))
                  \<noteq> P_RUNNABLE)"
  then show "schedule cfg s =
       Some (Inr (s\<lparr>current := (p_pid (processes s (current s)) + Suc k) mod NPROC cfg\<rparr>))"
    unfolding schedule_def by (intro schedule_loop_found) auto
next
  show "NPROC small_config = 8" by (simp add: small_config_def)
next
  have "schedule_loop small_config (sched_state 5) 5 =
      Some (Inr ((sched_state 5)\<lparr>current := (5 + Suc 1) mod NPROC small_config\<rparr>))"
    by (rule schedule_loop_found) (simp_all add: small_config_def sched_state_def proc_in_def)
  then show "schedule small_config (sched_state 5) = Some (Inr (sched_state 7))"
    by (simp add: schedule_def small_config_def sched_state_def proc_in_def)
next
  have "schedule_loop small_config (sched_state 7) 7 =
      Some (Inr ((sched_state 7)\<lparr>current := (7 + Suc 2) mod NPROC small_config\<rparr>))"
    by (rule schedule_loop_found)
       (simp_all add: small_config_def sched_state_def proc_in_def less_Suc_eq numeral_2_eq_2)
  then show "schedule small_config (sched_state 7) = Some (Inr (sched_state 2))"
    by (simp add: schedule_def small_config_def sched_state_def proc_in_def)
qed

theorem schedule_round_robin_witness:
  "0 < NPROC small_config
   \<and> p_state (processes (sched_state 2) 5) = P_RUNNABLE
   \<and> p_state (processes (sched_state 2) 3) \<noteq> P_RUNNABLE
   \<and> p_state (processes (sched_state 2) 4) \<noteq> P_RUNNABLE
   \<and> schedule small_config (sched_state 2) = Some (Inr (sched_state 5))"
proof -
  have pos: "0 < NPROC small_config" by (simp add: small_config_def)
  have h: "p_state (processes (sched_state 2)
              ((p_pid (processes (sched_state 2) (current (sched_state 2))) + Suc 2)
                 mod NPROC small_config)) = P_RUNNABLE
      \<and> (\<forall>j<2. p_state (processes (sched_state 2)
              ((p_pid (processes (sched_state 2) (current (sched_state 2))) + Suc j)
                 mod NPROC small_config)) \<noteq> P_RUNNABLE)"
    by (simp add: small_config_def sched_state_def proc_in_def less_Suc_eq numeral_2_eq_2)
  from schedule_round_robin[THEN conjunct1, rule_format, OF pos h]
  show ?thesis by (simp add: small_config_def sched_state_def proc_in_def)
qed

lemma schedule_loop_total:
  assumes "0 < NPROC cfg" "q < NPROC cfg" "p_state (processes s q) = P_RUNNABLE"
  shows "\<exists>q'<NPROC cfg. p_state (processes s q') = P_RUNNABLE
            \<and> schedule_loop cfg s pid = Some (Inr (s\<lparr>current := q'\<rparr>))"
proof -
  let ?R = "\<lambda>k. p_state (processes s ((pid + Suc k) mod NPROC cfg)) = P_RUNNABLE"
  have "(pid + Suc (q + (NPROC cfg - 1) * (pid + 1))) mod NPROC cfg = q"
  proof -
    have "pid + Suc (q + (NPROC cfg - 1) * (pid + 1)) = q + NPROC cfg * (pid + 1)"
      using assms(1) by (cases "NPROC cfg") (simp_all add: algebra_simps)
    then have "(pid + Suc (q + (NPROC cfg - 1) * (pid + 1))) mod NPROC cfg = q mod NPROC cfg"
      by (simp only: mod_mult_self2)
    then show ?thesis using assms(2) by simp
  qed
  with assms(3) have ex: "?R (q + (NPROC cfg - 1) * (pid + 1))" by simp
  define k where "k = (LEAST k. ?R k)"
  have Rk: "?R k" unfolding k_def using ex by (rule LeastI)
  have least: "\<forall>j<k. \<not> ?R j" unfolding k_def using not_less_Least by blast
  have "schedule_loop cfg s pid = Some (Inr (s\<lparr>current := (pid + Suc k) mod NPROC cfg\<rparr>))"
    using Rk least by (intro schedule_loop_found) auto
  moreover have "(pid + Suc k) mod NPROC cfg < NPROC cfg" using assms(1) by simp
  ultimately show ?thesis using Rk by blast
qed

subsection \<open>The page-fault handler\<close>

lemma first_fault_None: "first_fault cs = None \<longleftrightarrow> (\<forall>c\<in>set cs. c = None)"
  by (induction cs rule: first_fault.induct) auto

lemma first_fault_append:
  "first_fault (xs @ ys) = (case first_fault xs of None \<Rightarrow> first_fault ys | Some f \<Rightarrow> Some f)"
  by (induction xs rule: first_fault.induct) auto

lemma check_pagetable_no_entries:
  assumes "\<forall>i. mem s (PAGENUMBER pt) i AND PTE_P = 0"
  shows "check_pagetable cfg s pt eo er =
     (if NPAGES cfg \<le> PAGENUMBER pt then Some OutOfBounds
      else if owner (pageinfo s (PAGENUMBER pt)) \<noteq> eo then Some Panic
      else if refcount (pageinfo s (PAGENUMBER pt)) \<noteq> er then Some Panic
      else None)"
proof -
  have "first_fault (map (check_l2 cfg s pt eo) xs) = None" for xs
    using assms by (simp add: first_fault_None check_l2_def)
  then show ?thesis by (simp add: check_pagetable_def)
qed

lemma upt8: "[0..<8] = [0, 1, 2, 3, 4, 5, 6, 7]"
  by (simp add: upt_rec)

lemma fault_state_check:
  "virtual_memory_check small_config
     (fault_state\<lparr>processes := (processes fault_state)
        (current fault_state := (processes fault_state (current fault_state))
           \<lparr>p_registers := fault_registers\<rparr>)\<rparr>) = None"
  by (simp add: virtual_memory_check_def first_fault_append check_process_def
        check_pagetable_no_entries expected_kernel_refcount_def check_referenced_def
        fault_state_def small_config_def proc_in_def frame_table_def upt8
        MEMSIZE_PHYSICAL_def PAGENUMBER_def PAGEADDRESS_def PAGESIZE_def PO_KERNEL_def)

subsection \<open>The frame table at boot\<close>

lemma pageinfo_init_loop_other:
  "processes (pageinfo_init_loop cfg addr s) = processes s
   \<and> mem (pageinfo_init_loop cfg addr s) = mem s
   \<and> current (pageinfo_init_loop cfg addr s) = current s
   \<and> ticks (pageinfo_init_loop cfg addr s) = ticks s"
proof (induction cfg addr s rule: pageinfo_init_loop.induct)
  case (1 cfg addr s)
  show ?case
    using "1.IH" by (subst (1 2 3 4) pageinfo_init_loop.simps) simp
qed

lemma pageinfo_init_loop_pageinfo:
  "pageinfo (pageinfo_init_loop cfg (k * PAGESIZE) s) n =
     (if k \<le> n \<and> n < NPAGES cfg
      then \<lparr>owner = int8 (initial_owner cfg (PAGEADDRESS n)),
            refcount = (if initial_owner cfg (PAGEADDRESS n) \<noteq> PO_FREE then 1 else 0)\<rparr>
      else pageinfo s n)"
proof (induction cfg "k * PAGESIZE" s arbitrary: k rule: pageinfo_init_loop.induct)
  case (1 cfg s)
  show ?case
  proof (cases "k < NPAGES cfg")
    case True
    then have lt: "k * PAGESIZE < MEMSIZE_PHYSICAL cfg"
      by (simp add: MEMSIZE_PHYSICAL_def PAGEADDRESS_def)
    have nxt: "k * PAGESIZE + PAGESIZE = Suc k * PAGESIZE" by simp
    let ?s' = "s\<lparr>pageinfo := (pageinfo s)
              (PAGENUMBER (k * PAGESIZE) :=
                 \<lparr>owner = int8 (initial_owner cfg (k * PAGESIZE)),
                  refcount = (if initial_owner cfg (k * PAGESIZE) \<noteq> PO_FREE then 1 else 0)\<rparr>)\<rparr>"
    have step: "pageinfo_init_loop cfg (k * PAGESIZE) s = pageinfo_init_loop cfg (Suc k * PAGESIZE) ?s'"
      by (subst pageinfo_init_loop.simps) (simp only: lt if_True nxt)
    have IH: "pageinfo (pageinfo_init_loop cfg (Suc k * PAGESIZE) ?s') n =
        (if Suc k \<le> n \<and> n < NPAGES cfg
         then \<lparr>owner = int8 (initial_owner cfg (PAGEADDRESS n)),
               refcount = (if initial_owner cfg (PAGEADDRESS n) \<noteq> PO_FREE then 1 else 0)\<rparr>
         else pageinfo ?s' n)"
      by (rule "1.hyps"[OF lt nxt])
    show ?thesis
      unfolding step IH using True by (auto simp: PAGEADDRESS_def)
  next
    case False
    then have "\<not> k * PAGESIZE < MEMSIZE_PHYSICAL cfg"
      by (simp add: MEMSIZE_PHYSICAL_def PAGEADDRESS_def)
    with False show ?thesis
      by (subst pageinfo_init_loop.simps) simp
  qed
qed

lemma pageinfo_init_pageinfo:
  "n < NPAGES cfg \<Longrightarrow> pageinfo (pageinfo_init cfg s) n =
      \<lparr>owner = int8 (initial_owner cfg (PAGEADDRESS n)),
       refcount = (if initial_owner cfg (PAGEADDRESS n) \<noteq> PO_FREE then 1 else 0)\<rparr>"
  using pageinfo_init_loop_pageinfo[of cfg 0 s n] by (simp add: pageinfo_init_def)

lemma int8_initial_owner [simp]: "int8 (initial_owner cfg a) = initial_owner cfg a"
  by (simp add: initial_owner_def int8_def PO_RESERVED_def PO_KERNEL_def PO_FREE_def)

lemma initial_owner_cases:
  "initial_owner cfg a = PO_RESERVED \<or> initial_owner cfg a = PO_KERNEL \<or> initial_owner cfg a = PO_FREE"
  by (simp add: initial_owner_def)

lemma boot_fields:
  "pageinfo (boot cfg s) = pageinfo (pageinfo_init cfg s)"
  "processes (boot cfg s) i = \<lparr>p_pid = i, p_registers = zero_registers, p_state = P_FREE, p_pagetable = 0\<rparr>"
  by (simp_all add: boot_def Let_def)

lemma expected_kernel_refcount_card:
  "expected_kernel_refcount cfg s =
     1 + int (card {pid. pid < NPROC cfg \<and> p_state (processes s pid) \<noteq> P_FREE
                       \<and> p_pagetable (processes s pid) = kernel_pagetable cfg})"
proof -
  let ?P = "\<lambda>pid. p_state (processes s pid) \<noteq> P_FREE
                       \<and> p_pagetable (processes s pid) = kernel_pagetable cfg"
  have "{pid. pid < NPROC cfg \<and> ?P pid} = set (filter ?P [0..<NPROC cfg])" by auto
  then have "card {pid. pid < NPROC cfg \<and> ?P pid} = length (filter ?P [0..<NPROC cfg])"
    by (simp only: distinct_card[OF distinct_filter[OF distinct_upt]])
  then show ?thesis by (simp add: expected_kernel_refcount_def)
qed

lemma expected_kernel_refcount_all_free:
  "\<forall>pid<NPROC cfg. p_state (processes s pid) = P_FREE \<Longrightarrow> expected_kernel_refcount cfg s = 1"
  by (simp add: expected_kernel_refcount_def filter_empty_conv)

lemma virtual_memory_check_kernel:
  assumes "virtual_memory_check cfg s = None"
  shows "owner (pageinfo s (PAGENUMBER (kernel_pagetable cfg))) = PO_KERNEL
       \<and> refcount (pageinfo s (PAGENUMBER (kernel_pagetable cfg))) = expected_kernel_refcount cfg s"
proof -
  from assms have "check_process cfg s None = None"
    by (simp add: virtual_memory_check_def first_fault_None)
  then show ?thesis
    by (simp add: check_process_def check_pagetable_def split: if_splits)
qed

lemma boot_check:
  assumes np: "0 < NPROC cfg"
    and kr: "PAGENUMBER (kernel_pagetable cfg) < NPAGES cfg"
    and ko: "initial_owner cfg (PAGEADDRESS (PAGENUMBER (kernel_pagetable cfg))) = PO_KERNEL"
    and l2: "\<forall>i<PAGETABLE_NENTRIES.
               mem (boot cfg s) (PAGENUMBER (kernel_pagetable cfg)) i AND PTE_P \<noteq> 0 \<longrightarrow>
               PAGENUMBER (mem (boot cfg s) (PAGENUMBER (kernel_pagetable cfg)) i) < NPAGES cfg
               \<and> initial_owner cfg (PAGEADDRESS (PAGENUMBER
                    (mem (boot cfg s) (PAGENUMBER (kernel_pagetable cfg)) i))) = PO_KERNEL"
  shows "virtual_memory_check cfg (boot cfg s) = None"
proof -
  let ?b = "boot cfg s"
  have ex: "expected_kernel_refcount cfg ?b = 1"
    by (rule expected_kernel_refcount_all_free) (simp add: boot_fields)
  have pi: "n < NPAGES cfg \<Longrightarrow> pageinfo ?b n =
      \<lparr>owner = initial_owner cfg (PAGEADDRESS n),
       refcount = (if initial_owner cfg (PAGEADDRESS n) \<noteq> PO_FREE then 1 else 0)\<rparr>" for n
    by (simp add: boot_fields pageinfo_init_pageinfo)
  have l2ok: "check_l2 cfg ?b (kernel_pagetable cfg) PO_KERNEL i = None" if "i < PAGETABLE_NENTRIES" for i
    using l2 that by (auto simp: check_l2_def Let_def pi PO_KERNEL_def PO_FREE_def)
  have k: "check_pagetable cfg ?b (kernel_pagetable cfg) PO_KERNEL 1 = None"
    using kr ko l2ok by (simp add: check_pagetable_def pi first_fault_None PO_KERNEL_def PO_FREE_def)
  have p: "check_process cfg ?b po = None" for po
    using k ex by (cases po) (simp_all add: check_process_def boot_fields)
  have r: "check_referenced cfg ?b n = None" if "n < NPAGES cfg" for n
    using that initial_owner_cases[of cfg "PAGEADDRESS n"]
    by (auto simp: check_referenced_def pi PO_KERNEL_def PO_FREE_def PO_RESERVED_def)
  show ?thesis
    using np p r
    by (auto simp: virtual_memory_check_def first_fault_None boot_fields MEMSIZE_PHYSICAL_def)
qed


subsection \<open>The invariant checker\<close>

text \<open>
  Claim C8, amended. The checker's expected reference count of the kernel's level-1 table
  is 1 plus the number of processes that are not free (runnable or broken) and whose page
  table is the kernel's; a check that passes found exactly that count in the frame record
  of the kernel's table. After boot, with every process free and the kernel's tables in
  kernel-owned frames, the expected count is 1, the frame record holds 1 and the check
  passes.
\<close>

theorem kernel_refcount_counts_non_free:
  "expected_kernel_refcount cfg s =
     1 + int (card {pid. pid < NPROC cfg \<and> p_state (processes s pid) \<noteq> P_FREE
                       \<and> p_pagetable (processes s pid) = kernel_pagetable cfg})
   \<and> (virtual_memory_check cfg s = None \<longrightarrow>
        refcount (pageinfo s (PAGENUMBER (kernel_pagetable cfg))) = expected_kernel_refcount cfg s)
   \<and> (0 < NPROC cfg
        \<and> PAGENUMBER (kernel_pagetable cfg) < NPAGES cfg
        \<and> initial_owner cfg (PAGEADDRESS (PAGENUMBER (kernel_pagetable cfg))) = PO_KERNEL
        \<and> (\<forall>i<PAGETABLE_NENTRIES.
               mem (boot cfg s) (PAGENUMBER (kernel_pagetable cfg)) i AND PTE_P \<noteq> 0 \<longrightarrow>
               PAGENUMBER (mem (boot cfg s) (PAGENUMBER (kernel_pagetable cfg)) i) < NPAGES cfg
               \<and> initial_owner cfg (PAGEADDRESS (PAGENUMBER
                    (mem (boot cfg s) (PAGENUMBER (kernel_pagetable cfg)) i))) = PO_KERNEL)
      \<longrightarrow> expected_kernel_refcount cfg (boot cfg s) = 1
          \<and> refcount (pageinfo (boot cfg s) (PAGENUMBER (kernel_pagetable cfg))) = 1
          \<and> virtual_memory_check cfg (boot cfg s) = None)"
proof (intro conjI impI)
  show "expected_kernel_refcount cfg s =
     1 + int (card {pid. pid < NPROC cfg \<and> p_state (processes s pid) \<noteq> P_FREE
                       \<and> p_pagetable (processes s pid) = kernel_pagetable cfg})"
    by (rule expected_kernel_refcount_card)
next
  assume "virtual_memory_check cfg s = None"
  then show "refcount (pageinfo s (PAGENUMBER (kernel_pagetable cfg))) = expected_kernel_refcount cfg s"
    by (simp add: virtual_memory_check_kernel)
next
  assume h: "0 < NPROC cfg
        \<and> PAGENUMBER (kernel_pagetable cfg) < NPAGES cfg
        \<and> initial_owner cfg (PAGEADDRESS (PAGENUMBER (kernel_pagetable cfg))) = PO_KERNEL
        \<and> (\<forall>i<PAGETABLE_NENTRIES.
               mem (boot cfg s) (PAGENUMBER (kernel_pagetable cfg)) i AND PTE_P \<noteq> 0 \<longrightarrow>
               PAGENUMBER (mem (boot cfg s) (PAGENUMBER (kernel_pagetable cfg)) i) < NPAGES cfg
               \<and> initial_owner cfg (PAGEADDRESS (PAGENUMBER
                    (mem (boot cfg s) (PAGENUMBER (kernel_pagetable cfg)) i))) = PO_KERNEL)"
  show e: "expected_kernel_refcount cfg (boot cfg s) = 1"
    by (rule expected_kernel_refcount_all_free) (simp add: boot_fields)
  from h show c: "virtual_memory_check cfg (boot cfg s) = None"
    by (intro boot_check) simp_all
  from virtual_memory_check_kernel[OF c] e
  show "refcount (pageinfo (boot cfg s) (PAGENUMBER (kernel_pagetable cfg))) = 1" by simp
qed

lemma map_pages_numeral:
  "map_pages m pt va pa (numeral k) perm =
     map_pages (map_page m pt va pa perm) pt (va + PAGESIZE) (pa + PAGESIZE) (pred_numeral k) perm"
  by (simp add: numeral_eq_Suc)

lemma pageinfo_init_mem [simp]: "mem (pageinfo_init cfg s) = mem s"
  by (simp add: pageinfo_init_def pageinfo_init_loop_other)

lemma boot_power_on_mem_maps: "mem (boot small_config power_on_state) =
   map_pages (map_pages (\<lambda>n i. if n = 1 \<and> i = 0 then 0x2007 else 0) 0x1000 0 0 4 3) 0x1000 0x3000 0x3000 1 7"
  by (simp add: boot_def Let_def power_on_state_def small_config_def virtual_memory_map_def
        PAGESIZE_def PTE_P_def PTE_W_def PTE_U_def)

lemma boot_power_on_mem:
  "mem (boot small_config power_on_state) 1 = (\<lambda>i. if i = 0 then 0x2007 else 0)"
  unfolding boot_power_on_mem_maps
  by (simp add: map_pages_numeral map_page_def Let_def
        PAGESIZE_def PAGENUMBER_def L1PAGEINDEX_def L2PAGEINDEX_def PAGETABLE_NENTRIES_def
        PTE_P_def)

theorem kernel_refcount_counts_non_free_witness:
  "expected_kernel_refcount small_config (boot small_config power_on_state) = 1
   \<and> refcount (pageinfo (boot small_config power_on_state) 1) = 1
   \<and> virtual_memory_check small_config (boot small_config power_on_state) = None"
proof -
  have k: "PAGENUMBER (kernel_pagetable small_config) = 1"
    by (simp add: small_config_def PAGENUMBER_def PAGESIZE_def)
  have h: "0 < NPROC small_config
        \<and> PAGENUMBER (kernel_pagetable small_config) < NPAGES small_config
        \<and> initial_owner small_config (PAGEADDRESS (PAGENUMBER (kernel_pagetable small_config))) = PO_KERNEL
        \<and> (\<forall>i<PAGETABLE_NENTRIES.
               mem (boot small_config power_on_state) (PAGENUMBER (kernel_pagetable small_config)) i
                 AND PTE_P \<noteq> 0 \<longrightarrow>
               PAGENUMBER (mem (boot small_config power_on_state)
                             (PAGENUMBER (kernel_pagetable small_config)) i) < NPAGES small_config
               \<and> initial_owner small_config (PAGEADDRESS (PAGENUMBER
                    (mem (boot small_config power_on_state)
                       (PAGENUMBER (kernel_pagetable small_config)) i))) = PO_KERNEL)"
  proof (intro conjI allI impI)
    fix i
    assume "i < PAGETABLE_NENTRIES"
      and "mem (boot small_config power_on_state) (PAGENUMBER (kernel_pagetable small_config)) i
                 AND PTE_P \<noteq> 0"
    then have e: "mem (boot small_config power_on_state)
                    (PAGENUMBER (kernel_pagetable small_config)) i = 0x2007"
      unfolding k boot_power_on_mem by (simp split: if_splits)
    show "PAGENUMBER (mem (boot small_config power_on_state)
                             (PAGENUMBER (kernel_pagetable small_config)) i) < NPAGES small_config"
      unfolding e by (simp add: small_config_def PAGENUMBER_def PAGESIZE_def)
    show "initial_owner small_config (PAGEADDRESS (PAGENUMBER
                    (mem (boot small_config power_on_state)
                       (PAGENUMBER (kernel_pagetable small_config)) i))) = PO_KERNEL"
      unfolding e
      by (simp add: small_config_def initial_owner_def PAGEADDRESS_def PAGENUMBER_def PAGESIZE_def)
  qed (simp_all add: small_config_def initial_owner_def PAGEADDRESS_def PAGENUMBER_def PAGESIZE_def)
  from kernel_refcount_counts_non_free[of small_config power_on_state,
      THEN conjunct2, THEN conjunct2, rule_format, OF h]
  show ?thesis by (simp add: k)
qed


lemma broken_alias_check: "virtual_memory_check small_config broken_alias_state = None"
proof -
  have l2: "first_fault (map (check_l2 small_config broken_alias_state 0x1000 PO_KERNEL) xs) = None" for xs
    by (simp add: first_fault_None check_l2_def broken_alias_state_def frame_table_def
          small_config_def PAGENUMBER_def PAGESIZE_def PTE_P_def PO_KERNEL_def)
  have e: "expected_kernel_refcount small_config broken_alias_state = 2"
    by (simp add: expected_kernel_refcount_def small_config_def broken_alias_state_def proc_in_def upt8)
  have k: "check_pagetable small_config broken_alias_state 0x1000 PO_KERNEL 2 = None"
    unfolding check_pagetable_def l2
    by (simp add: broken_alias_state_def frame_table_def small_config_def PAGENUMBER_def
          PAGESIZE_def PO_KERNEL_def)
  have p: "check_process small_config broken_alias_state po = None" for po
    using k e
    by (cases po) (simp_all add: check_process_def, simp_all add: small_config_def
        broken_alias_state_def proc_in_def)
  have r: "check_referenced small_config broken_alias_state n = None" for n
    by (simp add: check_referenced_def broken_alias_state_def frame_table_def nth_Cons'
          less_Suc_eq numeral_eq_Suc)
  show ?thesis
    using p r
    by (auto simp: virtual_memory_check_def first_fault_None)
       (simp_all add: small_config_def broken_alias_state_def proc_in_def)
qed

text \<open>
  With process 1 broken and on the kernel's page table, the code expects 2, where the
  count of runnable processes gives 1, and the check passes on a frame record that holds 2.
\<close>

theorem kernel_refcount_runnable_only_counterexample:
  "expected_kernel_refcount small_config broken_alias_state = 2
   \<and> spec_expected_kernel_refcount small_config broken_alias_state = 1
   \<and> refcount (pageinfo broken_alias_state (PAGENUMBER (kernel_pagetable small_config))) = 2
   \<and> virtual_memory_check small_config broken_alias_state = None"
  by (simp add: broken_alias_check)
     (simp add: expected_kernel_refcount_def spec_expected_kernel_refcount_def small_config_def
        broken_alias_state_def proc_in_def upt8 frame_table_def PAGENUMBER_def PAGESIZE_def)

subsection \<open>What the allocator and the clone leave unchanged\<close>

lemma physical_page_alloc_fields [simp]:
  "mem (snd (physical_page_alloc cfg a ow s)) = mem s"
  "processes (snd (physical_page_alloc cfg a ow s)) = processes s"
  "current (snd (physical_page_alloc cfg a ow s)) = current s"
  "ticks (snd (physical_page_alloc cfg a ow s)) = ticks s"
  by (simp_all add: physical_page_alloc_def)

lemma page_alloc_lite_fields [simp]:
  "mem (snd (page_alloc_lite cfg ow s)) = mem s"
  "processes (snd (page_alloc_lite cfg ow s)) = processes s"
  "current (snd (page_alloc_lite cfg ow s)) = current s"
  "ticks (snd (page_alloc_lite cfg ow s)) = ticks s"
proof -
  obtain r s' where r: "physical_page_alloc cfg (free_page_scan cfg s 0 * PAGESIZE) ow s = (r, s')"
    by (cases "physical_page_alloc cfg (free_page_scan cfg s 0 * PAGESIZE) ow s")
  have "mem s' = mem s" "processes s' = processes s" "current s' = current s" "ticks s' = ticks s"
    using physical_page_alloc_fields[of cfg "free_page_scan cfg s 0 * PAGESIZE" ow s] r by simp_all
  then show "mem (snd (page_alloc_lite cfg ow s)) = mem s"
    "processes (snd (page_alloc_lite cfg ow s)) = processes s"
    "current (snd (page_alloc_lite cfg ow s)) = current s"
    "ticks (snd (page_alloc_lite cfg ow s)) = ticks s"
    using r by (simp_all add: page_alloc_lite_def Let_def)
qed

lemma page_alloc_lite_cases:
  obtains (exhausted) "\<forall>j<NPAGES cfg. refcount (pageinfo s j) \<noteq> 0"
      "page_alloc_lite cfg ow s = (0, s)"
  | (found) n where "n < NPAGES cfg" "refcount (pageinfo s n) = 0"
      "\<forall>j<n. refcount (pageinfo s j) \<noteq> 0"
      "page_alloc_lite cfg ow s =
         (PAGEADDRESS n, s\<lparr>pageinfo := (pageinfo s)(n := \<lparr>owner = int8 ow, refcount = 1\<rparr>)\<rparr>)"
proof (cases "\<forall>j<NPAGES cfg. refcount (pageinfo s j) \<noteq> 0")
  case True
  then show ?thesis using exhausted page_alloc_lite_exhausted by blast
next
  case False
  define n where "n = (LEAST j. j < NPAGES cfg \<and> refcount (pageinfo s j) = 0)"
  from False have ex: "\<exists>j. j < NPAGES cfg \<and> refcount (pageinfo s j) = 0" by blast
  have n: "n < NPAGES cfg \<and> refcount (pageinfo s n) = 0"
    unfolding n_def using ex by (rule LeastI_ex)
  have least: "\<forall>j<n. refcount (pageinfo s j) \<noteq> 0"
  proof (intro allI impI)
    fix j assume "j < n"
    then have "\<not> (j < NPAGES cfg \<and> refcount (pageinfo s j) = 0)"
      unfolding n_def by (rule not_less_Least)
    with \<open>j < n\<close> n show "refcount (pageinfo s j) \<noteq> 0" by auto
  qed
  from n least show ?thesis
    using found page_alloc_lite_found[of n cfg s ow] by blast
qed

lemma PAGESIZE_neq_0 [simp]: "PAGESIZE \<noteq> 0"
  by (simp add: PAGESIZE_def)

lemma PAGEADDRESS_eq_0 [simp]: "PAGEADDRESS n = 0 \<longleftrightarrow> n = 0"
  by (simp add: PAGEADDRESS_def)

lemma copy_pagetable_fields [simp]:
  "processes (snd (copy_pagetable cfg pt ow s)) = processes s"
  "current (snd (copy_pagetable cfg pt ow s)) = current s"
  "ticks (snd (copy_pagetable cfg pt ow s)) = ticks s"
proof -
  obtain a1 s1 where 1: "page_alloc_lite cfg ow s = (a1, s1)" by (cases "page_alloc_lite cfg ow s")
  obtain a2 s2 where 2: "page_alloc_lite cfg ow s1 = (a2, s2)" by (cases "page_alloc_lite cfg ow s1")
  have f1: "processes s1 = processes s" "current s1 = current s" "ticks s1 = ticks s"
    using page_alloc_lite_fields[of cfg ow s] 1 by simp_all
  have f2: "processes s2 = processes s1" "current s2 = current s1" "ticks s2 = ticks s1"
    using page_alloc_lite_fields[of cfg ow s1] 2 by simp_all
  show "processes (snd (copy_pagetable cfg pt ow s)) = processes s"
    "current (snd (copy_pagetable cfg pt ow s)) = current s"
    "ticks (snd (copy_pagetable cfg pt ow s)) = ticks s"
    using 1 2 f1 f2 by (simp_all add: copy_pagetable_def Let_def)
qed

text \<open>The clone fails exactly when fewer than two frames can be claimed.\<close>

lemma copy_pagetable_failed:
  assumes "fst (copy_pagetable cfg pt ow s) = 0"
  shows "mem (snd (copy_pagetable cfg pt ow s)) = mem s
     \<and> ((\<forall>j<NPAGES cfg. refcount (pageinfo s j) \<noteq> 0) \<and> snd (copy_pagetable cfg pt ow s) = s
        \<or> (\<exists>n<NPAGES cfg. refcount (pageinfo s n) = 0
             \<and> (\<forall>j<NPAGES cfg. j \<noteq> n \<longrightarrow> refcount (pageinfo s j) \<noteq> 0 \<or> n = 0)
             \<and> snd (copy_pagetable cfg pt ow s) =
                 s\<lparr>pageinfo := (pageinfo s)(n := \<lparr>owner = int8 ow, refcount = 1\<rparr>)\<rparr>))"
proof (cases rule: page_alloc_lite_cases[of cfg s ow])
  case exhausted
  then show ?thesis by (simp add: copy_pagetable_def)
next
  case (found n)
  let ?s1 = "s\<lparr>pageinfo := (pageinfo s)(n := \<lparr>owner = int8 ow, refcount = 1\<rparr>)\<rparr>"
  show ?thesis
  proof (cases "n = 0")
    case True
    with found show ?thesis by (auto simp: copy_pagetable_def)
  next
    case False
    show ?thesis
    proof (cases rule: page_alloc_lite_cases[of cfg ?s1 ow])
      case exhausted
      then have "\<forall>j<NPAGES cfg. j \<noteq> n \<longrightarrow> refcount (pageinfo s j) \<noteq> 0" by auto
      with found exhausted False show ?thesis
        by (auto simp: copy_pagetable_def)
    next
      case (found m)
      from found(2) have "m \<noteq> n" by auto
      with found(2) have "refcount (pageinfo s m) = 0" by simp
      with \<open>\<forall>j<n. refcount (pageinfo s j) \<noteq> 0\<close> have "\<not> m < n" by auto
      with False have "m \<noteq> 0" by auto
      with assms \<open>page_alloc_lite cfg ow s = _\<close> found(4) False show ?thesis
        by (simp add: copy_pagetable_def Let_def)
    qed
  qed
qed

subsection \<open>A clone that fails\<close>

lemma copy_pagetable_exhausted:
  "\<forall>j<NPAGES cfg. refcount (pageinfo s j) \<noteq> 0 \<Longrightarrow> copy_pagetable cfg pt ow s = (0, s)"
  by (simp add: copy_pagetable_def page_alloc_lite_exhausted)

lemma copy_pagetable_one_free:
  assumes "n < NPAGES cfg" "refcount (pageinfo s n) = 0"
    and "\<forall>j<NPAGES cfg. j \<noteq> n \<longrightarrow> refcount (pageinfo s j) \<noteq> 0"
  shows "copy_pagetable cfg pt ow s =
           (0, s\<lparr>pageinfo := (pageinfo s)(n := \<lparr>owner = int8 ow, refcount = 1\<rparr>)\<rparr>)"
proof -
  let ?s1 = "s\<lparr>pageinfo := (pageinfo s)(n := \<lparr>owner = int8 ow, refcount = 1\<rparr>)\<rparr>"
  have 1: "page_alloc_lite cfg ow s = (PAGEADDRESS n, ?s1)"
    using assms by (intro page_alloc_lite_found) auto
  have 2: "page_alloc_lite cfg ow ?s1 = (0, ?s1)"
    using assms by (intro page_alloc_lite_exhausted) auto
  show ?thesis
    using 1 2 by (simp add: copy_pagetable_def Let_def)
qed

lemma copy_pagetable_failed_frames:
  assumes "fst (copy_pagetable cfg pt ow s) = 0"
  shows "pageinfo (snd (copy_pagetable cfg pt ow s)) k = pageinfo s k
         \<or> (refcount (pageinfo s k) = 0
              \<and> pageinfo (snd (copy_pagetable cfg pt ow s)) k = \<lparr>owner = int8 ow, refcount = 1\<rparr>)"
proof -
  from copy_pagetable_failed[OF assms]
  consider "snd (copy_pagetable cfg pt ow s) = s"
    | n where "refcount (pageinfo s n) = 0"
        "snd (copy_pagetable cfg pt ow s) =
           s\<lparr>pageinfo := (pageinfo s)(n := \<lparr>owner = int8 ow, refcount = 1\<rparr>)\<rparr>"
    by blast
  then show ?thesis
  proof cases
    case 1
    then show ?thesis by simp
  next
    case (2 n)
    then show ?thesis by (cases "k = n") simp_all
  qed
qed

lemma process_setup_pagetable_fallback:
  assumes "fst (copy_pagetable cfg (kernel_pagetable cfg) (int pid)
                 (s\<lparr>processes := (processes s)(pid := pinit (processes s pid))\<rparr>)) = 0"
    and "PAGENUMBER (kernel_pagetable cfg) < NPAGES cfg"
  shows "\<exists>s'. process_setup_pagetable cfg pinit pid s = Inr s'
      \<and> p_pagetable (processes s' pid) = kernel_pagetable cfg
      \<and> pageinfo s' =
          (pageinfo (snd (copy_pagetable cfg (kernel_pagetable cfg) (int pid)
                 (s\<lparr>processes := (processes s)(pid := pinit (processes s pid))\<rparr>))))
          (PAGENUMBER (kernel_pagetable cfg) :=
             (pageinfo (snd (copy_pagetable cfg (kernel_pagetable cfg) (int pid)
                 (s\<lparr>processes := (processes s)(pid := pinit (processes s pid))\<rparr>)))
                (PAGENUMBER (kernel_pagetable cfg)))
             \<lparr>refcount := int8 (refcount (pageinfo (snd (copy_pagetable cfg (kernel_pagetable cfg) (int pid)
                 (s\<lparr>processes := (processes s)(pid := pinit (processes s pid))\<rparr>)))
                (PAGENUMBER (kernel_pagetable cfg))) + 1)\<rparr>)"
  using assms
  by (cases "copy_pagetable cfg (kernel_pagetable cfg) (int pid)
                 (s\<lparr>processes := (processes s)(pid := pinit (processes s pid))\<rparr>)")
     (simp add: process_setup_pagetable_def Let_def)

text \<open>
  Claim C4, amended. When one of its two frame allocations fails, \<^verbatim>\<open>copy_pagetable\<close>
  returns \<^verbatim>\<open>NULL\<close>: it does not return the source table and does not touch the source's
  reference count. Memory and the process table are unchanged, and a frame record changes
  only from free to allocated for the requested owner: no record changes when no frame is
  free, and when exactly one frame is free that frame stays allocated. The fallback to the
  kernel's table, with its reference count incremented, is made by the caller
  \<^verbatim>\<open>process_setup\<close>.
\<close>

theorem copy_pagetable_failure_returns_null:
  "(fst (copy_pagetable cfg pt ow s) = 0 \<longrightarrow>
      mem (snd (copy_pagetable cfg pt ow s)) = mem s
      \<and> processes (snd (copy_pagetable cfg pt ow s)) = processes s
      \<and> (\<forall>k. pageinfo (snd (copy_pagetable cfg pt ow s)) k = pageinfo s k
              \<or> (refcount (pageinfo s k) = 0
                   \<and> pageinfo (snd (copy_pagetable cfg pt ow s)) k = \<lparr>owner = int8 ow, refcount = 1\<rparr>)))
   \<and> ((\<forall>j<NPAGES cfg. refcount (pageinfo s j) \<noteq> 0) \<longrightarrow> copy_pagetable cfg pt ow s = (0, s))
   \<and> (\<forall>n. n < NPAGES cfg \<and> refcount (pageinfo s n) = 0
           \<and> (\<forall>j<NPAGES cfg. j \<noteq> n \<longrightarrow> refcount (pageinfo s j) \<noteq> 0) \<longrightarrow>
         copy_pagetable cfg pt ow s =
           (0, s\<lparr>pageinfo := (pageinfo s)(n := \<lparr>owner = int8 ow, refcount = 1\<rparr>)\<rparr>))
   \<and> (fst (copy_pagetable cfg (kernel_pagetable cfg) (int pid)
                 (s\<lparr>processes := (processes s)(pid := pinit (processes s pid))\<rparr>)) = 0
        \<and> PAGENUMBER (kernel_pagetable cfg) < NPAGES cfg \<longrightarrow>
        (\<exists>s'. process_setup_pagetable cfg pinit pid s = Inr s'
           \<and> p_pagetable (processes s' pid) = kernel_pagetable cfg
           \<and> refcount (pageinfo s' (PAGENUMBER (kernel_pagetable cfg))) =
               int8 (refcount (pageinfo (snd (copy_pagetable cfg (kernel_pagetable cfg) (int pid)
                 (s\<lparr>processes := (processes s)(pid := pinit (processes s pid))\<rparr>)))
                (PAGENUMBER (kernel_pagetable cfg))) + 1)))"
proof (intro conjI impI allI)
  assume f: "fst (copy_pagetable cfg pt ow s) = 0"
  from copy_pagetable_failed[OF f] show "mem (snd (copy_pagetable cfg pt ow s)) = mem s" by simp
  show "processes (snd (copy_pagetable cfg pt ow s)) = processes s" by simp
  fix k
  from copy_pagetable_failed_frames[OF f]
  show "pageinfo (snd (copy_pagetable cfg pt ow s)) k = pageinfo s k
              \<or> (refcount (pageinfo s k) = 0
                   \<and> pageinfo (snd (copy_pagetable cfg pt ow s)) k = \<lparr>owner = int8 ow, refcount = 1\<rparr>)" .
next
  assume "\<forall>j<NPAGES cfg. refcount (pageinfo s j) \<noteq> 0"
  then show "copy_pagetable cfg pt ow s = (0, s)" by (rule copy_pagetable_exhausted)
next
  fix n
  assume "n < NPAGES cfg \<and> refcount (pageinfo s n) = 0
           \<and> (\<forall>j<NPAGES cfg. j \<noteq> n \<longrightarrow> refcount (pageinfo s j) \<noteq> 0)"
  then show "copy_pagetable cfg pt ow s =
           (0, s\<lparr>pageinfo := (pageinfo s)(n := \<lparr>owner = int8 ow, refcount = 1\<rparr>)\<rparr>)"
    by (intro copy_pagetable_one_free) auto
next
  assume "fst (copy_pagetable cfg (kernel_pagetable cfg) (int pid)
                 (s\<lparr>processes := (processes s)(pid := pinit (processes s pid))\<rparr>)) = 0
        \<and> PAGENUMBER (kernel_pagetable cfg) < NPAGES cfg"
  then obtain s' where "process_setup_pagetable cfg pinit pid s = Inr s'"
      "p_pagetable (processes s' pid) = kernel_pagetable cfg"
      "pageinfo s' =
          (pageinfo (snd (copy_pagetable cfg (kernel_pagetable cfg) (int pid)
                 (s\<lparr>processes := (processes s)(pid := pinit (processes s pid))\<rparr>))))
          (PAGENUMBER (kernel_pagetable cfg) :=
             (pageinfo (snd (copy_pagetable cfg (kernel_pagetable cfg) (int pid)
                 (s\<lparr>processes := (processes s)(pid := pinit (processes s pid))\<rparr>)))
                (PAGENUMBER (kernel_pagetable cfg)))
             \<lparr>refcount := int8 (refcount (pageinfo (snd (copy_pagetable cfg (kernel_pagetable cfg) (int pid)
                 (s\<lparr>processes := (processes s)(pid := pinit (processes s pid))\<rparr>)))
                (PAGENUMBER (kernel_pagetable cfg))) + 1)\<rparr>)"
    using process_setup_pagetable_fallback[of cfg pid s pinit] by blast
  then show "\<exists>s'. process_setup_pagetable cfg pinit pid s = Inr s'
           \<and> p_pagetable (processes s' pid) = kernel_pagetable cfg
           \<and> refcount (pageinfo s' (PAGENUMBER (kernel_pagetable cfg))) =
               int8 (refcount (pageinfo (snd (copy_pagetable cfg (kernel_pagetable cfg) (int pid)
                 (s\<lparr>processes := (processes s)(pid := pinit (processes s pid))\<rparr>)))
                (PAGENUMBER (kernel_pagetable cfg))) + 1)"
    by (intro exI[of _ s']) simp
qed

lemma less_8_cases:
  "j < (8::nat) \<Longrightarrow> j = 0 \<or> j = 1 \<or> j = 2 \<or> j = 3 \<or> j = 4 \<or> j = 5 \<or> j = 6 \<or> j = 7"
  by arith

lemma one_free_state_frames:
  "7 < NPAGES small_config \<and> refcount (pageinfo one_free_state 7) = 0
     \<and> (\<forall>j<NPAGES small_config. j \<noteq> 7 \<longrightarrow> refcount (pageinfo one_free_state j) \<noteq> 0)"
proof (intro conjI allI impI)
  fix j assume "j < NPAGES small_config" "j \<noteq> 7"
  then have "j = 0 \<or> j = 1 \<or> j = 2 \<or> j = 3 \<or> j = 4 \<or> j = 5 \<or> j = 6"
    using less_8_cases[of j] by (simp add: small_config_def)
  then show "refcount (pageinfo one_free_state j) \<noteq> 0"
    by (auto simp: one_free_state_def frame_table_def)
qed (simp_all add: small_config_def one_free_state_def frame_table_def)

theorem copy_pagetable_failure_returns_null_witness:
  "copy_pagetable small_config 0x4000 2 one_free_state =
     (0, one_free_state\<lparr>pageinfo := (pageinfo one_free_state)(7 := \<lparr>owner = 2, refcount = 1\<rparr>)\<rparr>)"
  using copy_pagetable_failure_returns_null[of small_config "0x4000" 2 one_free_state,
      THEN conjunct2, THEN conjunct2, THEN conjunct1, rule_format, OF one_free_state_frames]
  by (simp add: int8_def)

text \<open>
  With frame 7 the only free frame, the clone of process 1's table (at \<open>0x4000\<close>, frame 4)
  returns \<^verbatim>\<open>NULL\<close>, leaves the reference count of frame 4 at 1, and leaves frame 7 allocated.
\<close>

theorem copy_pagetable_leaves_frame_counterexample:
  "fst (copy_pagetable small_config (p_pagetable (processes one_free_state 1)) 2 one_free_state) = 0
   \<and> p_pagetable (processes one_free_state 1) = 0x4000
   \<and> refcount (pageinfo one_free_state 4) = 1
   \<and> refcount (pageinfo (snd (copy_pagetable small_config
        (p_pagetable (processes one_free_state 1)) 2 one_free_state)) 4) = 1
   \<and> pageinfo one_free_state 7 = \<lparr>owner = 0, refcount = 0\<rparr>
   \<and> pageinfo (snd (copy_pagetable small_config
        (p_pagetable (processes one_free_state 1)) 2 one_free_state)) 7 = \<lparr>owner = 2, refcount = 1\<rparr>"
  by (simp add: copy_pagetable_one_free[OF one_free_state_frames[THEN conjunct1]
          one_free_state_frames[THEN conjunct2, THEN conjunct1]
          one_free_state_frames[THEN conjunct2, THEN conjunct2]] int8_def)
     (simp add: one_free_state_def frame_table_def proc_in_def)

subsection \<open>Fork: the scan for a free slot\<close>

lemma set_eax_fields [simp]:
  "pageinfo (set_eax p v s) = pageinfo s"
  "mem (set_eax p v s) = mem s"
  "current (set_eax p v s) = current s"
  "ticks (set_eax p v s) = ticks s"
  "p_state (processes (set_eax p v s) q) = p_state (processes s q)"
  "p_pagetable (processes (set_eax p v s) q) = p_pagetable (processes s q)"
  "p_pid (processes (set_eax p v s) q) = p_pid (processes s q)"
  by (simp_all add: set_eax_def)

lemma set_eax_eax [simp]:
  "reg_eax (p_registers (processes (set_eax p v s) p)) = v"
  by (simp add: set_eax_def)

lemma set_eax_idem [simp]: "set_eax p v (set_eax p v s) = set_eax p v s"
  by (simp add: set_eax_def)

lemma fork_scan_occupied:
  "\<forall>j. k \<le> j \<and> j < NPROC cfg \<longrightarrow> p_state (processes s j) \<noteq> P_FREE \<Longrightarrow>
   fork_scan cfg k s = Inr (if k \<le> 15 \<and> 15 < NPROC cfg then set_eax (current s) (- 1) s else s)"
proof (induction cfg k s rule: fork_scan.induct)
  case (1 cfg newpid s)
  show ?case
  proof (cases "newpid < NPROC cfg")
    case False
    then show ?thesis by (subst fork_scan.simps) auto
  next
    case True
    with "1.prems" have occ: "p_state (processes s newpid) \<noteq> P_FREE" by simp
    show ?thesis
    proof (cases "newpid = 15")
      case True
      have "fork_scan cfg (Suc newpid) (set_eax (current s) (- 1) s) =
          Inr (if Suc newpid \<le> 15 \<and> 15 < NPROC cfg
               then set_eax (current (set_eax (current s) (- 1) s)) (- 1) (set_eax (current s) (- 1) s)
               else set_eax (current s) (- 1) s)"
        using "1.prems" \<open>newpid < NPROC cfg\<close> occ True
        by (intro "1.IH"(1)) auto
      with True \<open>newpid < NPROC cfg\<close> occ show ?thesis
        by (subst fork_scan.simps) simp
    next
      case False
      have "fork_scan cfg (Suc newpid) s =
          Inr (if Suc newpid \<le> 15 \<and> 15 < NPROC cfg then set_eax (current s) (- 1) s else s)"
        using "1.prems" True occ False by (intro "1.IH"(2)) auto
      with False True occ show ?thesis
        by (subst fork_scan.simps) auto
    qed
  qed
qed

lemma fork_scan_first_free:
  "k \<le> newpid \<Longrightarrow> newpid < NPROC cfg \<Longrightarrow> p_state (processes s newpid) = P_FREE \<Longrightarrow>
   \<forall>j. k \<le> j \<and> j < newpid \<longrightarrow> p_state (processes s j) \<noteq> P_FREE \<Longrightarrow>
   fork_scan cfg k s =
     fork_child cfg newpid (if k \<le> 15 \<and> 15 < newpid then set_eax (current s) (- 1) s else s)"
proof (induction cfg k s rule: fork_scan.induct)
  case (1 cfg k s)
  show ?case
  proof (cases "k = newpid")
    case True
    with "1.prems" show ?thesis by (subst fork_scan.simps) auto
  next
    case False
    with "1.prems" have lt: "k < newpid" "k < NPROC cfg" and occ: "p_state (processes s k) \<noteq> P_FREE"
      by auto
    show ?thesis
    proof (cases "k = 15")
      case True
      have "fork_scan cfg (Suc k) (set_eax (current s) (- 1) s) =
          fork_child cfg newpid
            (if Suc k \<le> 15 \<and> 15 < newpid
             then set_eax (current (set_eax (current s) (- 1) s)) (- 1) (set_eax (current s) (- 1) s)
             else set_eax (current s) (- 1) s)"
        using "1.prems" lt occ True by (intro "1.IH"(1)) auto
      with True lt occ show ?thesis
        by (subst fork_scan.simps) simp
    next
      case False
      have "fork_scan cfg (Suc k) s =
          fork_child cfg newpid (if Suc k \<le> 15 \<and> 15 < newpid then set_eax (current s) (- 1) s else s)"
        using "1.prems" lt occ False by (intro "1.IH"(2)) auto
      with False lt occ show ?thesis
        by (subst fork_scan.simps) auto
    qed
  qed
qed

text \<open>With sixteen slots or more, a table without a free slot gives the caller \<open>-1\<close>.\<close>

lemma sys_fork_exhausted:
  assumes "16 \<le> NPROC cfg" "\<forall>j. 1 \<le> j \<and> j < NPROC cfg \<longrightarrow> p_state (processes s j) \<noteq> P_FREE"
  shows "sys_fork cfg s = Inr (set_eax (current s) (- 1) s)"
  using assms fork_scan_occupied[of 1 cfg s] by (simp add: sys_fork_def)

subsection \<open>Fork: the error stored at slot 15 is overwritten\<close>

lemma set_eax_updates:
  "(set_eax p v s)\<lparr>mem := m\<rparr> = set_eax p v (s\<lparr>mem := m\<rparr>)"
  "(set_eax p v s)\<lparr>pageinfo := f\<rparr> = set_eax p v (s\<lparr>pageinfo := f\<rparr>)"
  by (simp_all add: set_eax_def)

lemma free_page_scan_pageinfo:
  "pageinfo s = pageinfo t \<Longrightarrow> free_page_scan cfg s k = free_page_scan cfg t k"
proof (induction cfg s k rule: free_page_scan.induct)
  case (1 cfg s pn)
  show ?case
    using 1 by (subst (1 2) free_page_scan.simps) auto
qed

lemma physical_page_alloc_processes:
  "physical_page_alloc cfg a ow (s\<lparr>processes := f\<rparr>) =
     (fst (physical_page_alloc cfg a ow s), (snd (physical_page_alloc cfg a ow s))\<lparr>processes := f\<rparr>)"
  by (simp add: physical_page_alloc_def)

lemma page_alloc_lite_processes:
  "page_alloc_lite cfg ow (s\<lparr>processes := f\<rparr>) =
     (fst (page_alloc_lite cfg ow s), (snd (page_alloc_lite cfg ow s))\<lparr>processes := f\<rparr>)"
  by (simp add: page_alloc_lite_def Let_def case_prod_beta physical_page_alloc_processes
        free_page_scan_pageinfo[of "s\<lparr>processes := f\<rparr>" s])

lemma copy_pagetable_processes:
  "copy_pagetable cfg pt ow (s\<lparr>processes := f\<rparr>) =
     (fst (copy_pagetable cfg pt ow s), (snd (copy_pagetable cfg pt ow s))\<lparr>processes := f\<rparr>)"
  by (simp add: copy_pagetable_def Let_def case_prod_beta page_alloc_lite_processes)

lemma set_eax_as_update:
  "set_eax p v s = s\<lparr>processes := (processes s)
      (p := (processes s p)\<lparr>p_registers := (p_registers (processes s p))\<lparr>reg_eax := v\<rparr>\<rparr>)\<rparr>"
  by (simp add: set_eax_def)

lemma page_alloc_lite_set_eax:
  "page_alloc_lite cfg ow (set_eax p v s) =
     (fst (page_alloc_lite cfg ow s), set_eax p v (snd (page_alloc_lite cfg ow s)))"
  by (simp add: set_eax_as_update page_alloc_lite_processes)

lemma copy_pagetable_set_eax:
  "copy_pagetable cfg pt ow (set_eax p v s) =
     (fst (copy_pagetable cfg pt ow s), set_eax p v (snd (copy_pagetable cfg pt ow s)))"
  by (simp add: set_eax_as_update copy_pagetable_processes)

lemma fork_page_set_eax:
  "fork_page cfg newpid va (set_eax p v s) = map_sum id (set_eax p v) (fork_page cfg newpid va s)"
proof -
  obtain a t where a: "page_alloc_lite cfg (int newpid) s = (a, t)"
    by (cases "page_alloc_lite cfg (int newpid) s")
  then have a': "page_alloc_lite cfg (int newpid) (set_eax p v s) = (a, set_eax p v t)"
    by (simp add: page_alloc_lite_set_eax)
  have f: "mem t = mem s" "processes t = processes s"
    using page_alloc_lite_fields[of cfg "int newpid" s] a by simp_all
  show ?thesis
    by (simp add: fork_page_def Let_def a a' f set_eax_updates)
qed

lemma fork_pages_set_eax:
  "fork_pages cfg newpid va (set_eax p v s) = map_sum id (set_eax p v) (fork_pages cfg newpid va s)"
proof (induction cfg newpid va s rule: fork_pages.induct)
  case (1 cfg newpid va s)
  show ?case
  proof (cases "va < MEMSIZE_VIRTUAL cfg")
    case False
    then show ?thesis by (subst (1 2) fork_pages.simps) simp
  next
    case True
    show ?thesis
    proof (cases "fork_page cfg newpid va s")
      case (Inl f)
      with True show ?thesis
        by (subst (1 2) fork_pages.simps) (simp add: fork_page_set_eax)
    next
      case (Inr s')
      with True "1.IH"[OF True Inr] show ?thesis
        by (subst (1 2) fork_pages.simps) (simp add: fork_page_set_eax id_def)
    qed
  qed
qed

lemma fork_page_fields:
  assumes "fork_page cfg newpid va s = Inr s'"
  shows "processes s' = processes s" "current s' = current s" "ticks s' = ticks s"
proof -
  obtain a t where a: "page_alloc_lite cfg (int newpid) s = (a, t)"
    by (cases "page_alloc_lite cfg (int newpid) s")
  then have "processes t = processes s" "current t = current s" "ticks t = ticks s"
    using page_alloc_lite_fields[of cfg "int newpid" s] by simp_all
  with assms a show "processes s' = processes s" "current s' = current s" "ticks s' = ticks s"
    by (auto simp: fork_page_def Let_def split: if_splits)
qed

lemma fork_pages_fields:
  "fork_pages cfg newpid va s = Inr s' \<Longrightarrow>
   processes s' = processes s \<and> current s' = current s \<and> ticks s' = ticks s"
proof (induction cfg newpid va s rule: fork_pages.induct)
  case (1 cfg newpid va s)
  show ?case
  proof (cases "va < MEMSIZE_VIRTUAL cfg")
    case False
    with "1.prems" show ?thesis by (subst (asm) fork_pages.simps) simp
  next
    case True
    with "1.prems" obtain t where t: "fork_page cfg newpid va s = Inr t"
        "fork_pages cfg newpid (va + PAGESIZE) t = Inr s'"
      by (subst (asm) fork_pages.simps) (auto split: sum.splits)
    from "1.IH"[OF True t] fork_page_fields[OF t(1)] show ?thesis by simp
  qed
qed

lemma fork_clone_fields [simp]:
  "current (fork_clone cfg newpid s) = current s"
  "ticks (fork_clone cfg newpid s) = ticks s"
  "processes (fork_clone cfg newpid s) =
     (processes s)(newpid := (processes s newpid)
        \<lparr>p_state := P_RUNNABLE,
         p_pagetable := fst (copy_pagetable cfg (p_pagetable
           (((processes s)(newpid := (processes s newpid)\<lparr>p_state := P_RUNNABLE\<rparr>)) (current s)))
           (int newpid) s)\<rparr>)"
  by (simp_all add: fork_clone_def Let_def case_prod_beta copy_pagetable_processes)

lemma fork_clone_set_eax:
  "fork_clone cfg newpid (set_eax p v s) = set_eax p v (fork_clone cfg newpid s)"
  by (simp add: fork_clone_def Let_def case_prod_beta copy_pagetable_processes set_eax_def
        fun_eq_iff)

lemma fork_registers_set_eax:
  "fork_registers newpid (set_eax (current s) v s) = fork_registers newpid s"
  by (cases "current s = newpid") (auto simp: fork_registers_def set_eax_def Let_def fun_eq_iff)

lemma fork_child_set_eax:
  "fork_child cfg newpid (set_eax (current s) v s) = fork_child cfg newpid s"
proof (cases "fork_pages cfg newpid (PROC_START_ADDR cfg) (fork_clone cfg newpid s)")
  case (Inl f)
  then show ?thesis
    by (simp add: fork_child_def fork_clone_set_eax fork_pages_set_eax)
next
  case (Inr t)
  from fork_pages_fields[OF Inr] have "current t = current s" by simp
  with Inr fork_registers_set_eax[of newpid t v] show ?thesis
    by (simp add: fork_child_def fork_clone_set_eax fork_pages_set_eax)
qed

lemma sys_fork_first_free:
  assumes "1 \<le> newpid" "newpid < NPROC cfg" "p_state (processes s newpid) = P_FREE"
    and "\<forall>j. 1 \<le> j \<and> j < newpid \<longrightarrow> p_state (processes s j) \<noteq> P_FREE"
  shows "sys_fork cfg s = fork_child cfg newpid s"
  using fork_scan_first_free[OF assms] by (simp add: sys_fork_def fork_child_set_eax)

subsection \<open>Fork with a clone that fails\<close>

lemma fork_clone_child:
  "p_state (processes (fork_clone cfg newpid s) newpid) = P_RUNNABLE"
  "p_pagetable (processes (fork_clone cfg newpid s) newpid) =
     fst (copy_pagetable cfg (p_pagetable (processes s (current s))) (int newpid) s)"
  by (simp_all cong: if_cong)

lemma fork_clone_frames:
  "mem (fork_clone cfg newpid s) =
     mem (snd (copy_pagetable cfg (p_pagetable (processes s (current s))) (int newpid) s))"
  "pageinfo (fork_clone cfg newpid s) =
     pageinfo (snd (copy_pagetable cfg (p_pagetable (processes s (current s))) (int newpid) s))"
  by (simp_all add: fork_clone_def Let_def case_prod_beta copy_pagetable_processes cong: if_cong)

lemma fork_clone_other:
  "q \<noteq> newpid \<Longrightarrow> processes (fork_clone cfg newpid s) q = processes s q"
  by simp

lemma fork_registers_fields [simp]:
  "pageinfo (fork_registers newpid s) = pageinfo s"
  "mem (fork_registers newpid s) = mem s"
  "current (fork_registers newpid s) = current s"
  "ticks (fork_registers newpid s) = ticks s"
  "p_state (processes (fork_registers newpid s) q) = p_state (processes s q)"
  "p_pagetable (processes (fork_registers newpid s) q) = p_pagetable (processes s q)"
  "p_pid (processes (fork_registers newpid s) q) = p_pid (processes s q)"
  "reg_eax (p_registers (processes (fork_registers newpid s) (current s))) = int newpid"
  by (simp_all add: fork_registers_def Let_def)

lemma fork_child_result:
  assumes "fork_child cfg newpid s = Inr s'"
  obtains t where "fork_pages cfg newpid (PROC_START_ADDR cfg) (fork_clone cfg newpid s) = Inr t"
    "s' = fork_registers newpid t" "processes t = processes (fork_clone cfg newpid s)"
    "current t = current s"
proof -
  from assms obtain t where t: "fork_pages cfg newpid (PROC_START_ADDR cfg) (fork_clone cfg newpid s) = Inr t"
    "s' = fork_registers newpid t"
    by (auto simp: fork_child_def split: sum.splits)
  from fork_pages_fields[OF t(1)] have "processes t = processes (fork_clone cfg newpid s)"
    "current t = current s" by simp_all
  with t that show ?thesis by blast
qed

lemma fork_failed_clone:
  assumes nf: "1 \<le> newpid" "newpid < NPROC cfg" "p_state (processes s newpid) = P_FREE"
      "\<forall>j. 1 \<le> j \<and> j < newpid \<longrightarrow> p_state (processes s j) \<noteq> P_FREE"
    and cp: "fst (copy_pagetable cfg (p_pagetable (processes s (current s))) (int newpid) s) = 0"
    and sf: "sys_fork cfg s = Inr s'"
  shows "p_state (processes s' newpid) = P_RUNNABLE \<and> p_pagetable (processes s' newpid) = 0
       \<and> run s' newpid = Inr (s'\<lparr>current := newpid\<rparr>)
       \<and> reg_eax (p_registers (processes s' (current s'))) = int newpid"
proof -
  from sf sys_fork_first_free[OF nf] have "fork_child cfg newpid s = Inr s'" by simp
  then obtain t where t: "s' = fork_registers newpid t"
      "processes t = processes (fork_clone cfg newpid s)" "current t = current s"
    by (rule fork_child_result)
  have st: "p_state (processes s' newpid) = P_RUNNABLE"
    unfolding t(1) by (simp add: t(2) fork_clone_child del: fork_clone_fields)
  have pt: "p_pagetable (processes s' newpid) = 0"
    unfolding t(1) by (simp add: t(2) fork_clone_child cp del: fork_clone_fields)
  have "reg_eax (p_registers (processes (fork_registers newpid t) (current t))) = int newpid"
    by simp
  then have ea: "reg_eax (p_registers (processes s' (current s'))) = int newpid"
    unfolding t(1) by simp
  from st pt ea show ?thesis by (simp add: run_def)
qed

text \<open>
  Claim C9. When the clone of the caller's page table fails in \<^verbatim>\<open>fork\<close>, the slot that
  was claimed is left runnable with a null page table: the scheduler's \<^verbatim>\<open>run\<close> accepts it,
  and the caller is given the new pid. \<^verbatim>\<open>process_setup\<close>, in the same situation, falls
  back to the kernel's page table.
\<close>

theorem fork_failed_clone_leaves_null_pagetable:
  "(1 \<le> newpid \<and> newpid < NPROC cfg \<and> p_state (processes s newpid) = P_FREE
      \<and> (\<forall>j. 1 \<le> j \<and> j < newpid \<longrightarrow> p_state (processes s j) \<noteq> P_FREE)
      \<and> fst (copy_pagetable cfg (p_pagetable (processes s (current s))) (int newpid) s) = 0
      \<and> sys_fork cfg s = Inr s'
    \<longrightarrow> p_state (processes s' newpid) = P_RUNNABLE \<and> p_pagetable (processes s' newpid) = 0
       \<and> run s' newpid = Inr (s'\<lparr>current := newpid\<rparr>)
       \<and> reg_eax (p_registers (processes s' (current s'))) = int newpid)
   \<and> (fst (copy_pagetable cfg (kernel_pagetable cfg) (int pid)
              (s\<lparr>processes := (processes s)(pid := pinit (processes s pid))\<rparr>)) = 0
        \<and> PAGENUMBER (kernel_pagetable cfg) < NPAGES cfg
      \<longrightarrow> (\<exists>t. process_setup_pagetable cfg pinit pid s = Inr t
              \<and> p_pagetable (processes t pid) = kernel_pagetable cfg))"
proof (rule conjI; rule impI)
  assume "1 \<le> newpid \<and> newpid < NPROC cfg \<and> p_state (processes s newpid) = P_FREE
      \<and> (\<forall>j. 1 \<le> j \<and> j < newpid \<longrightarrow> p_state (processes s j) \<noteq> P_FREE)
      \<and> fst (copy_pagetable cfg (p_pagetable (processes s (current s))) (int newpid) s) = 0
      \<and> sys_fork cfg s = Inr s'"
  then show "p_state (processes s' newpid) = P_RUNNABLE \<and> p_pagetable (processes s' newpid) = 0
       \<and> run s' newpid = Inr (s'\<lparr>current := newpid\<rparr>)
       \<and> reg_eax (p_registers (processes s' (current s'))) = int newpid"
    by (intro fork_failed_clone) auto
next
  assume "fst (copy_pagetable cfg (kernel_pagetable cfg) (int pid)
              (s\<lparr>processes := (processes s)(pid := pinit (processes s pid))\<rparr>)) = 0
        \<and> PAGENUMBER (kernel_pagetable cfg) < NPAGES cfg"
  then show "\<exists>t. process_setup_pagetable cfg pinit pid s = Inr t
              \<and> p_pagetable (processes t pid) = kernel_pagetable cfg"
    using process_setup_pagetable_fallback[of cfg pid s pinit] by blast
qed

lemma fork_page_unmapped:
  "vam_perm (virtual_memory_lookup (mem s) (p_pagetable (processes s (current s))) va) = 0 \<Longrightarrow>
   fork_page cfg newpid va s = Inr s"
  by (simp add: fork_page_def Let_def)

lemma fork_pages_unmapped:
  "\<forall>va. vam_perm (virtual_memory_lookup (mem s) (p_pagetable (processes s (current s))) va) = 0 \<Longrightarrow>
   fork_pages cfg newpid va s = Inr s"
proof (induction cfg newpid va s rule: fork_pages.induct)
  case (1 cfg newpid va s)
  show ?case
  proof (cases "va < MEMSIZE_VIRTUAL cfg")
    case False
    then show ?thesis by (subst fork_pages.simps) simp
  next
    case True
    have p: "fork_page cfg newpid va s = Inr s"
      using "1.prems" by (simp add: fork_page_unmapped)
    from "1.IH"[OF True p "1.prems"] True p show ?thesis
      by (subst fork_pages.simps) simp
  qed
qed

lemma one_free_state_fork:
  "sys_fork small_config one_free_state = Inr (fork_registers 2 (fork_clone small_config 2 one_free_state))"
proof -
  have ff: "1 \<le> (2::nat)" "2 < NPROC small_config" "p_state (processes one_free_state 2) = P_FREE"
    "\<forall>j. 1 \<le> j \<and> j < 2 \<longrightarrow> p_state (processes one_free_state j) \<noteq> P_FREE"
    by (auto simp: small_config_def one_free_state_def proc_in_def)
  have cp: "copy_pagetable small_config 0x4000 2 one_free_state =
     (0, one_free_state\<lparr>pageinfo := (pageinfo one_free_state)(7 := \<lparr>owner = int8 2, refcount = 1\<rparr>)\<rparr>)"
    using one_free_state_frames by (intro copy_pagetable_one_free) auto
  have pt: "p_pagetable (processes one_free_state (current one_free_state)) = 0x4000"
    by (simp add: one_free_state_def proc_in_def)
  have m: "mem (fork_clone small_config 2 one_free_state) = mem one_free_state"
    by (simp add: fork_clone_frames pt cp)
  have "fork_pages small_config 2 (PROC_START_ADDR small_config) (fork_clone small_config 2 one_free_state)
      = Inr (fork_clone small_config 2 one_free_state)"
    by (rule fork_pages_unmapped)
       (simp add: m, simp add: one_free_state_def proc_in_def virtual_memory_lookup_def Let_def
          PAGENUMBER_def PAGESIZE_def PTE_P_def)
  then show ?thesis
    by (simp add: sys_fork_first_free[OF ff] fork_child_def)
qed

theorem fork_failed_clone_leaves_null_pagetable_witness:
  "\<exists>s'. sys_fork small_config one_free_state = Inr s'
      \<and> p_state (processes one_free_state 2) = P_FREE
      \<and> p_state (processes s' 2) = P_RUNNABLE \<and> p_pagetable (processes s' 2) = 0
      \<and> run s' 2 = Inr (s'\<lparr>current := 2\<rparr>)
      \<and> reg_eax (p_registers (processes s' (current s'))) = 2"
proof -
  let ?s' = "fork_registers 2 (fork_clone small_config 2 one_free_state)"
  have h: "1 \<le> (2::nat) \<and> 2 < NPROC small_config \<and> p_state (processes one_free_state 2) = P_FREE
      \<and> (\<forall>j. 1 \<le> j \<and> j < 2 \<longrightarrow> p_state (processes one_free_state j) \<noteq> P_FREE)
      \<and> fst (copy_pagetable small_config (p_pagetable (processes one_free_state (current one_free_state)))
               (int 2) one_free_state) = 0
      \<and> sys_fork small_config one_free_state = Inr ?s'"
  proof (intro conjI)
    show "fst (copy_pagetable small_config (p_pagetable (processes one_free_state (current one_free_state)))
               (int 2) one_free_state) = 0"
      using one_free_state_frames
      by (subst copy_pagetable_one_free[where n = 7]) auto
    show "sys_fork small_config one_free_state = Inr ?s'" by (rule one_free_state_fork)
  qed (auto simp: small_config_def one_free_state_def proc_in_def)
  from fork_failed_clone_leaves_null_pagetable[of 2 small_config one_free_state ?s',
      THEN conjunct1, rule_format, OF h] h
  show ?thesis by (intro exI[of _ ?s']) simp
qed

subsection \<open>A clone that succeeds\<close>

lemma copy_pagetable_two_free:
  assumes n1: "n1 < NPAGES cfg" "refcount (pageinfo s n1) = 0" "\<forall>j<n1. refcount (pageinfo s j) \<noteq> 0"
    and n2: "n2 < NPAGES cfg" "refcount (pageinfo s n2) = 0" "n1 < n2"
      "\<forall>j<n2. j \<noteq> n1 \<longrightarrow> refcount (pageinfo s j) \<noteq> 0"
    and nz: "n1 \<noteq> 0"
    and al: "pt mod PAGESIZE = 0"
  shows "copy_pagetable cfg pt ow s =
    (PAGEADDRESS n1,
     s\<lparr>pageinfo := (pageinfo s)(n1 := \<lparr>owner = int8 ow, refcount = 1\<rparr>,
                                  n2 := \<lparr>owner = int8 ow, refcount = 1\<rparr>),
       mem := (mem s)
         (n1 := (mem s (PAGENUMBER pt))(0 := PAGEADDRESS n2 OR PTE_P OR PTE_W OR PTE_U),
          n2 := ((mem s)(n1 := (mem s (PAGENUMBER pt))(0 := PAGEADDRESS n2 OR PTE_P OR PTE_W OR PTE_U)))
                  (PAGENUMBER (PTE_ADDR
                     (((mem s)(n1 := (mem s (PAGENUMBER pt))
                         (0 := PAGEADDRESS n2 OR PTE_P OR PTE_W OR PTE_U))) (PAGENUMBER pt) 0))))\<rparr>)"
proof -
  let ?s1 = "s\<lparr>pageinfo := (pageinfo s)(n1 := \<lparr>owner = int8 ow, refcount = 1\<rparr>)\<rparr>"
  let ?s2 = "?s1\<lparr>pageinfo := (pageinfo ?s1)(n2 := \<lparr>owner = int8 ow, refcount = 1\<rparr>)\<rparr>"
  have 1: "page_alloc_lite cfg ow s = (PAGEADDRESS n1, ?s1)"
    using n1 by (intro page_alloc_lite_found) auto
  have 2: "page_alloc_lite cfg ow ?s1 = (PAGEADDRESS n2, ?s2)"
    using n2 by (intro page_alloc_lite_found) auto
  from n2 nz have nz2: "n2 \<noteq> 0" by simp
  show ?thesis
    using nz nz2 al
    by (simp add: copy_pagetable_def 1 2 Let_def memcpy_page_def PTE_ADDR_def)
qed


subsection \<open>Fork when the frames run out inside the loop\<close>

lemma small_config_fields:
  "NPROC small_config = 8" "NPAGES small_config = 8"
  "PROC_START_ADDR small_config = 0x4000" "MEMSIZE_VIRTUAL small_config = 0x6000"
  "kernel_pagetable small_config = 0x1000"
  by (simp_all add: small_config_def)

lemma exhaust_state_pt:
  "current exhaust_state = 1"
  "p_pagetable (processes exhaust_state (Suc 0)) = 0x4000"
  "p_pid (processes exhaust_state (Suc 0)) = 1"
  by (simp_all add: exhaust_state_def proc_in_def)

lemma exhaust_clone:
  "copy_pagetable small_config 0x4000 2 exhaust_state =
    (0x2000,
     exhaust_state
       \<lparr>pageinfo := (pageinfo exhaust_state)(2 := \<lparr>owner = 2, refcount = 1\<rparr>,
                                               3 := \<lparr>owner = 2, refcount = 1\<rparr>),
        mem := (mem exhaust_state)
                 (2 := (mem exhaust_state 4)(0 := 0x3007), 3 := mem exhaust_state 5)\<rparr>)"
proof -
  have f: "2 < NPAGES small_config" "refcount (pageinfo exhaust_state 2) = 0"
      "3 < NPAGES small_config" "refcount (pageinfo exhaust_state 3) = 0"
    by (simp_all add: small_config_def exhaust_state_def frame_table_def)
  have b2: "\<forall>j<2. refcount (pageinfo exhaust_state j) \<noteq> 0"
    by (auto simp: exhaust_state_def frame_table_def less_Suc_eq numeral_2_eq_2)
  have b3: "\<forall>j<3. j \<noteq> 2 \<longrightarrow> refcount (pageinfo exhaust_state j) \<noteq> 0"
    by (auto simp: exhaust_state_def frame_table_def less_Suc_eq numeral_3_eq_3)
  have e: "(12288::nat) OR PTE_P OR PTE_W OR PTE_U = 0x3007"
    by (simp add: PTE_P_def PTE_W_def PTE_U_def)
  have m: "mem exhaust_state 4 0 = 0x5007" by (simp add: exhaust_state_def)
  show ?thesis
    using copy_pagetable_two_free[of 2 small_config exhaust_state 3 "0x4000" 2, OF f(1,2) b2 f(3,4) _ b3]
    by (simp add: e m PAGEADDRESS_def PAGENUMBER_def PAGESIZE_def PTE_ADDR_def int8_def)
qed

lemma exhaust_entry:
  "pageinfo exhaust_loop_entry =
     (pageinfo exhaust_state)(2 := \<lparr>owner = 2, refcount = 1\<rparr>, 3 := \<lparr>owner = 2, refcount = 1\<rparr>)"
  "mem exhaust_loop_entry =
     (mem exhaust_state)(2 := (mem exhaust_state 4)(0 := 0x3007), 3 := mem exhaust_state 5)"
  "p_pagetable (processes exhaust_loop_entry 2) = 0x2000"
  "p_pagetable (processes exhaust_loop_entry (current exhaust_loop_entry)) = 0x4000"
  "p_pid (processes exhaust_loop_entry (current exhaust_loop_entry)) = 1"
  by (simp_all add: exhaust_loop_entry_def fork_clone_frames exhaust_state_pt exhaust_clone)

lemma exhaust_no_frame: "page_alloc_lite small_config 2 exhaust_loop_entry = (0, exhaust_loop_entry)"
proof (rule page_alloc_lite_exhausted, intro allI impI)
  fix j assume "j < NPAGES small_config"
  then have "j = 0 \<or> j = 1 \<or> j = 2 \<or> j = 3 \<or> j = 4 \<or> j = 5 \<or> j = 6 \<or> j = 7"
    using less_8_cases[of j] by (simp add: small_config_def)
  then show "refcount (pageinfo exhaust_loop_entry j) \<noteq> 0"
    by (auto simp: exhaust_entry exhaust_state_def frame_table_def)
qed

lemma exhaust_lookup:
  "virtual_memory_lookup (mem exhaust_loop_entry) 0x4000 0x4000 = \<lparr>vam_pn = 6, vam_pa = 0x6000, vam_perm = 7\<rparr>"
  by (simp add: virtual_memory_lookup_def Let_def exhaust_entry exhaust_state_def
        PAGENUMBER_def PAGESIZE_def L1PAGEINDEX_def L2PAGEINDEX_def PAGETABLE_NENTRIES_def
        PTE_P_def PTE_ADDR_def PTE_FLAGS_def)


lemma exhaust_first_page:
  "fork_page small_config 2 0x4000 exhaust_loop_entry =
     Inr (exhaust_loop_entry\<lparr>mem := (mem exhaust_loop_entry)(0 := mem exhaust_loop_entry 6, 3 := (mem exhaust_loop_entry 3)(4 := 7))\<rparr>)"
proof -
  have o: "owner (pageinfo exhaust_loop_entry 6) = 1"
    by (simp add: exhaust_entry exhaust_state_def frame_table_def)
  have w: "(7::nat) AND PTE_W \<noteq> 0" by (simp add: PTE_W_def)
  have c: "memcpy_page (mem exhaust_loop_entry) 0 0x6000 = (mem exhaust_loop_entry)(0 := mem exhaust_loop_entry 6)"
    by (simp add: memcpy_page_def PAGENUMBER_def PAGESIZE_def)
  have ev: "PAGENUMBER 0x2000 = 2" "PAGENUMBER 0x3007 = 3" "L1PAGEINDEX 0x4000 = 0"
      "L2PAGEINDEX 0x4000 = 4" "(0x3007::nat) AND PTE_P \<noteq> 0" "(0::nat) OR 7 = 7"
    by (simp_all add: PAGENUMBER_def PAGESIZE_def L1PAGEINDEX_def L2PAGEINDEX_def
          PAGETABLE_NENTRIES_def PTE_P_def)
  have l1: "mem exhaust_loop_entry 2 0 = 0x3007"
    by (simp add: exhaust_entry exhaust_state_def)
  have m: "virtual_memory_map ((mem exhaust_loop_entry)(0 := mem exhaust_loop_entry 6)) 0x2000 0x4000 0 PAGESIZE 7 =
             (mem exhaust_loop_entry)(0 := mem exhaust_loop_entry 6, 3 := (mem exhaust_loop_entry 3)(4 := 7))"
    by (simp add: virtual_memory_map_def map_page_def Let_def ev l1)
  show ?thesis
    by (simp add: fork_page_def Let_def exhaust_entry(3,4,5) exhaust_lookup o w exhaust_no_frame c m
          small_config_fields)
qed


lemma exhaust_second_page: "fork_page small_config 2 0x5000 exhaust_loop_exit = Inr exhaust_loop_exit"
proof (rule fork_page_unmapped)
  have "p_pagetable (processes exhaust_loop_exit (current exhaust_loop_exit)) = 0x4000"
    by (simp add: exhaust_loop_exit_def exhaust_entry)
  moreover have "virtual_memory_lookup (mem exhaust_loop_exit) 0x4000 0x5000 = \<lparr>vam_pn = - 1, vam_pa = 2 ^ 32 - 1, vam_perm = 0\<rparr>"
    by (simp add: virtual_memory_lookup_def Let_def exhaust_loop_exit_def exhaust_entry exhaust_state_def
        PAGENUMBER_def PAGESIZE_def L1PAGEINDEX_def L2PAGEINDEX_def PAGETABLE_NENTRIES_def
        PTE_P_def)
  ultimately show "vam_perm (virtual_memory_lookup (mem exhaust_loop_exit) (p_pagetable (processes exhaust_loop_exit (current exhaust_loop_exit))) 0x5000) = 0"
    by simp
qed

lemma exhaust_pages: "fork_pages small_config 2 (PROC_START_ADDR small_config) exhaust_loop_entry = Inr exhaust_loop_exit"
proof -
  have 3: "fork_pages small_config 2 0x6000 exhaust_loop_exit = Inr exhaust_loop_exit"
    by (subst fork_pages.simps) (simp add: small_config_fields)
  have 2: "fork_pages small_config 2 0x5000 exhaust_loop_exit = Inr exhaust_loop_exit"
    by (subst fork_pages.simps) (simp add: small_config_fields exhaust_second_page PAGESIZE_def 3)
  show ?thesis
    unfolding small_config_fields
    by (subst fork_pages.simps)
       (simp add: small_config_fields exhaust_first_page PAGESIZE_def 2 exhaust_loop_exit_def[symmetric])
qed

lemma exhaust_fork: "sys_fork small_config exhaust_state = Inr (fork_registers 2 exhaust_loop_exit)"
proof -
  have ff: "1 \<le> (2::nat)" "2 < NPROC small_config" "p_state (processes exhaust_state 2) = P_FREE"
    "\<forall>j. 1 \<le> j \<and> j < 2 \<longrightarrow> p_state (processes exhaust_state j) \<noteq> P_FREE"
    by (auto simp: small_config_def exhaust_state_def proc_in_def)
  show ?thesis
    using exhaust_pages by (simp add: sys_fork_first_free[OF ff] fork_child_def exhaust_loop_entry_def)
qed

text \<open>
  Claim C10, on a machine whose two free frames are taken by the clone. The page at
  \<open>0x4000\<close> is writable and owned by the caller, so \<^verbatim>\<open>fork\<close> takes the copying branch:
  \<^verbatim>\<open>page_alloc_lite\<close> returns \<^verbatim>\<open>NULL\<close>, the page is copied to physical address 0 (frame 0,
  which stays reserved in the frame table), the child's page \<open>0x4000\<close> is mapped to
  physical address 0, and the caller is given the new pid.
\<close>

theorem fork_copies_to_null_when_exhausted:
  "\<exists>s'. sys_fork small_config exhaust_state = Inr s'
      \<and> reg_eax (p_registers (processes s' (current s'))) = 2
      \<and> fst (page_alloc_lite small_config 2 (fork_clone small_config 2 exhaust_state)) = 0
      \<and> owner (pageinfo exhaust_state 6) = 1
      \<and> virtual_memory_lookup (mem exhaust_state) (p_pagetable (processes exhaust_state 1)) 0x4000
          = \<lparr>vam_pn = 6, vam_pa = 0x6000, vam_perm = 7\<rparr>
      \<and> virtual_memory_lookup (mem s') (p_pagetable (processes s' 2)) 0x4000
          = \<lparr>vam_pn = 0, vam_pa = 0, vam_perm = 7\<rparr>
      \<and> mem s' 0 = mem exhaust_state 6
      \<and> pageinfo s' 0 = pageinfo exhaust_state 0"
proof (intro exI[of _ "fork_registers 2 exhaust_loop_exit"] conjI)
  show "sys_fork small_config exhaust_state = Inr (fork_registers 2 exhaust_loop_exit)" by (rule exhaust_fork)
  have "current exhaust_loop_exit = 1" by (simp add: exhaust_loop_exit_def exhaust_loop_entry_def exhaust_state_pt)
  then show "reg_eax (p_registers (processes (fork_registers 2 exhaust_loop_exit) (current (fork_registers 2 exhaust_loop_exit)))) = 2"
    using fork_registers_fields(8)[of 2 exhaust_loop_exit] by simp
  show "fst (page_alloc_lite small_config 2 (fork_clone small_config 2 exhaust_state)) = 0"
    using exhaust_no_frame by (simp add: exhaust_loop_entry_def)
  show "owner (pageinfo exhaust_state 6) = 1" by (simp add: exhaust_state_def frame_table_def)
  show "virtual_memory_lookup (mem exhaust_state) (p_pagetable (processes exhaust_state 1)) 0x4000
          = \<lparr>vam_pn = 6, vam_pa = 0x6000, vam_perm = 7\<rparr>"
    by (simp add: virtual_memory_lookup_def Let_def exhaust_state_def proc_in_def
        PAGENUMBER_def PAGESIZE_def L1PAGEINDEX_def L2PAGEINDEX_def PAGETABLE_NENTRIES_def
        PTE_P_def PTE_ADDR_def PTE_FLAGS_def)
  show "virtual_memory_lookup (mem (fork_registers 2 exhaust_loop_exit)) (p_pagetable (processes (fork_registers 2 exhaust_loop_exit) 2)) 0x4000
          = \<lparr>vam_pn = 0, vam_pa = 0, vam_perm = 7\<rparr>"
    by (simp add: exhaust_loop_exit_def exhaust_entry)
       (simp add: virtual_memory_lookup_def Let_def exhaust_entry exhaust_state_def
        PAGENUMBER_def PAGESIZE_def L1PAGEINDEX_def L2PAGEINDEX_def PAGETABLE_NENTRIES_def
        PTE_P_def PTE_ADDR_def PTE_FLAGS_def)
  show "mem (fork_registers 2 exhaust_loop_exit) 0 = mem exhaust_state 6"
    by (simp add: exhaust_loop_exit_def exhaust_entry)
  show "pageinfo (fork_registers 2 exhaust_loop_exit) 0 = pageinfo exhaust_state 0"
    by (simp add: exhaust_loop_exit_def exhaust_entry)
qed

theorem fork_copies_to_null_when_exhausted_witness:
  "\<exists>s'. sys_fork small_config exhaust_state = Inr s'
     \<and> vam_pa (virtual_memory_lookup (mem s') (p_pagetable (processes s' 2)) 0x4000) = 0
     \<and> mem s' 0 0 = 0xABCD"
proof -
  from fork_copies_to_null_when_exhausted obtain s' where
    "sys_fork small_config exhaust_state = Inr s'"
    "virtual_memory_lookup (mem s') (p_pagetable (processes s' 2)) 0x4000
          = \<lparr>vam_pn = 0, vam_pa = 0, vam_perm = 7\<rparr>"
    "mem s' 0 = mem exhaust_state 6"
    by blast
  then show ?thesis
    by (intro exI[of _ s']) (simp add: exhaust_state_def)
qed

subsection \<open>The frame invariant\<close>

lemma frames_inv_pageinfo:
  "pageinfo s = pageinfo t \<Longrightarrow> frames_inv cfg s = frames_inv cfg t"
  by (simp add: frames_inv_def)

lemma int8_id: "- 128 \<le> x \<Longrightarrow> x \<le> 127 \<Longrightarrow> int8 x = x"
  by (simp add: int8_def)

lemma frames_inv_alloc:
  "frames_inv cfg s \<Longrightarrow> int8 ow \<noteq> PO_FREE \<Longrightarrow>
   frames_inv cfg (s\<lparr>pageinfo := (pageinfo s)(n := \<lparr>owner = int8 ow, refcount = 1\<rparr>)\<rparr>)"
  by (simp add: frames_inv_def)

lemma frames_inv_increment:
  "frames_inv cfg s \<Longrightarrow> count_can_grow (refcount (pageinfo s n)) \<Longrightarrow>
   frames_inv cfg (s\<lparr>pageinfo := (pageinfo s)
      (n := (pageinfo s n)\<lparr>refcount := int8 (refcount (pageinfo s n) + 1)\<rparr>)\<rparr>)"
  by (auto simp: frames_inv_def count_can_grow_def)

text \<open>
  The two conditions are exact: on a frame of the table, an allocation keeps the invariant
  only for an owner that is not stored as the free tag, and an increment only for a count
  that can grow.
\<close>

lemma frames_inv_alloc_iff:
  assumes "frames_inv cfg s" "n < NPAGES cfg"
  shows "frames_inv cfg (s\<lparr>pageinfo := (pageinfo s)(n := \<lparr>owner = int8 ow, refcount = 1\<rparr>)\<rparr>)
           = (int8 ow \<noteq> PO_FREE)"
proof
  assume "frames_inv cfg (s\<lparr>pageinfo := (pageinfo s)(n := \<lparr>owner = int8 ow, refcount = 1\<rparr>)\<rparr>)"
  with assms(2) show "int8 ow \<noteq> PO_FREE"
    by (auto simp: frames_inv_def)
next
  assume "int8 ow \<noteq> PO_FREE"
  with assms(1) show "frames_inv cfg (s\<lparr>pageinfo := (pageinfo s)(n := \<lparr>owner = int8 ow, refcount = 1\<rparr>)\<rparr>)"
    by (rule frames_inv_alloc)
qed

lemma frames_inv_increment_iff:
  assumes "frames_inv cfg s" "n < NPAGES cfg"
  shows "frames_inv cfg (s\<lparr>pageinfo := (pageinfo s)
           (n := (pageinfo s n)\<lparr>refcount := int8 (refcount (pageinfo s n) + 1)\<rparr>)\<rparr>)
         = count_can_grow (refcount (pageinfo s n))"
proof
  assume a: "frames_inv cfg (s\<lparr>pageinfo := (pageinfo s)
           (n := (pageinfo s n)\<lparr>refcount := int8 (refcount (pageinfo s n) + 1)\<rparr>)\<rparr>)"
  from assms have b: "(refcount (pageinfo s n) = 0) = (owner (pageinfo s n) = PO_FREE)"
    by (simp add: frames_inv_def)
  from a have "\<forall>k<NPAGES cfg.
      (refcount (((pageinfo s)
         (n := (pageinfo s n)\<lparr>refcount := int8 (refcount (pageinfo s n) + 1)\<rparr>)) k) = 0)
      = (owner (((pageinfo s)
         (n := (pageinfo s n)\<lparr>refcount := int8 (refcount (pageinfo s n) + 1)\<rparr>)) k) = PO_FREE)"
    by (simp add: frames_inv_def)
  from this[rule_format, OF assms(2)]
  have c: "(int8 (refcount (pageinfo s n) + 1) = 0) = (owner (pageinfo s n) = PO_FREE)"
    by simp
  have z: "refcount (pageinfo s n) \<noteq> 0"
  proof
    assume "refcount (pageinfo s n) = 0"
    with b c show False by (simp add: int8_def)
  qed
  with b c show "count_can_grow (refcount (pageinfo s n))"
    by (simp add: count_can_grow_def)
next
  assume "count_can_grow (refcount (pageinfo s n))"
  with assms(1) show "frames_inv cfg (s\<lparr>pageinfo := (pageinfo s)
           (n := (pageinfo s n)\<lparr>refcount := int8 (refcount (pageinfo s n) + 1)\<rparr>)\<rparr>)"
    by (rule frames_inv_increment)
qed





lemma frames_inv_mem [simp]: "frames_inv cfg (s\<lparr>mem := m\<rparr>) = frames_inv cfg s"
  by (simp add: frames_inv_def)

lemma frames_inv_processes [simp]: "frames_inv cfg (s\<lparr>processes := f\<rparr>) = frames_inv cfg s"
  by (simp add: frames_inv_def)

lemma frames_inv_current [simp]: "frames_inv cfg (s\<lparr>current := c\<rparr>) = frames_inv cfg s"
  by (simp add: frames_inv_def)

lemma frames_inv_ticks [simp]: "frames_inv cfg (s\<lparr>ticks := c\<rparr>) = frames_inv cfg s"
  by (simp add: frames_inv_def)

lemma frames_inv_display [simp]:
  "frames_inv cfg (s\<lparr>last_ticks := c\<rparr>) = frames_inv cfg s"
  "frames_inv cfg (s\<lparr>showing := c\<rparr>) = frames_inv cfg s"
  by (simp_all add: frames_inv_def)

lemma frames_inv_set_eax [simp]: "frames_inv cfg (set_eax p v s) = frames_inv cfg s"
  by (simp add: frames_inv_def)

lemma frames_inv_fork_registers [simp]: "frames_inv cfg (fork_registers p s) = frames_inv cfg s"
  by (simp add: frames_inv_def)

















subsection \<open>A fork that copies one page and shares another\<close>

lemma fork_config_fields:
  "NPROC fork_config = 8" "NPAGES fork_config = 10"
  "PROC_START_ADDR fork_config = 0x4000" "MEMSIZE_VIRTUAL fork_config = 0x7000"
  by (simp_all add: fork_config_def)

lemma less_10_cases:
  "j < (10::nat) \<Longrightarrow> j = 0 \<or> j = 1 \<or> j = 2 \<or> j = 3 \<or> j = 4 \<or> j = 5 \<or> j = 6 \<or> j = 7
     \<or> j = 8 \<or> j = 9"
  by arith

lemma fork_state_fields:
  "current fork_state = 1"
  "p_pagetable (processes fork_state (Suc 0)) = 0x4000"
  "p_pid (processes fork_state (Suc 0)) = 1"
  by (simp_all add: fork_state_def proc_in_def)

lemma fork_state_clone:
  "copy_pagetable fork_config 0x4000 2 fork_state =
    (0x2000,
     fork_state
       \<lparr>pageinfo := (pageinfo fork_state)(2 := \<lparr>owner = 2, refcount = 1\<rparr>,
                                            3 := \<lparr>owner = 2, refcount = 1\<rparr>),
        mem := (mem fork_state)
                 (2 := (mem fork_state 4)(0 := 0x3007), 3 := mem fork_state 5)\<rparr>)"
proof -
  have f: "2 < NPAGES fork_config" "refcount (pageinfo fork_state 2) = 0"
      "3 < NPAGES fork_config" "refcount (pageinfo fork_state 3) = 0"
    by (simp_all add: fork_config_def fork_state_def frame_table_def)
  have b2: "\<forall>j<2. refcount (pageinfo fork_state j) \<noteq> 0"
    by (auto simp: fork_state_def frame_table_def less_Suc_eq numeral_2_eq_2)
  have b3: "\<forall>j<3. j \<noteq> 2 \<longrightarrow> refcount (pageinfo fork_state j) \<noteq> 0"
    by (auto simp: fork_state_def frame_table_def less_Suc_eq numeral_3_eq_3)
  have e: "(12288::nat) OR PTE_P OR PTE_W OR PTE_U = 0x3007"
    by (simp add: PTE_P_def PTE_W_def PTE_U_def)
  have m: "mem fork_state 4 0 = 0x5007" by (simp add: fork_state_def)
  show ?thesis
    using copy_pagetable_two_free[of 2 fork_config fork_state 3 "0x4000" 2, OF f(1,2) b2 f(3,4) _ b3]
    by (simp add: e m PAGEADDRESS_def PAGENUMBER_def PAGESIZE_def PTE_ADDR_def int8_def)
qed

lemma fork_entry_fields:
  "pageinfo fork_entry =
     (pageinfo fork_state)(2 := \<lparr>owner = 2, refcount = 1\<rparr>, 3 := \<lparr>owner = 2, refcount = 1\<rparr>)"
  "mem fork_entry =
     (mem fork_state)(2 := (mem fork_state 4)(0 := 0x3007), 3 := mem fork_state 5)"
  by (simp_all add: fork_entry_def fork_clone_frames fork_state_fields fork_state_clone)

lemma fork_entry_procs:
  "p_pagetable (processes fork_entry 2) = 0x2000"
  "p_pagetable (processes fork_entry (current fork_entry)) = 0x4000"
  "p_pid (processes fork_entry (current fork_entry)) = 1"
  "p_pagetable (processes fork_entry (Suc 0)) = 0x4000"
  "p_pid (processes fork_entry (Suc 0)) = 1"
  "current fork_entry = 1"
  by (simp_all add: fork_entry_def fork_state_fields fork_state_clone)

lemma layout_values:
  "PAGENUMBER 0x2000 = 2" "PAGENUMBER 0x3007 = 3" "PAGENUMBER 0x4000 = 4" "PAGENUMBER 0x5007 = 5"
  "PAGENUMBER 0x6000 = 6" "PAGENUMBER 0x6007 = 6" "PAGENUMBER 0x7000 = 7" "PAGENUMBER 0x7005 = 7"
  "PAGENUMBER 0x8000 = 8" "PAGENUMBER 0x8007 = 8" "PAGENUMBER 0x9005 = 9"
  "L1PAGEINDEX 0x4000 = 0" "L1PAGEINDEX 0x5000 = 0" "L1PAGEINDEX 0x6000 = 0"
  "L2PAGEINDEX 0x4000 = 4" "L2PAGEINDEX 0x5000 = 5" "L2PAGEINDEX 0x6000 = 6"
  "PTE_ADDR 0x6007 = 0x6000" "PTE_ADDR 0x7005 = 0x7000" "PTE_ADDR 0x9005 = 0x9000"
  "PTE_ADDR 0x8007 = 0x8000"
  "PTE_FLAGS 0x6007 = 7" "PTE_FLAGS 0x7005 = 5" "PTE_FLAGS 0x9005 = 5" "PTE_FLAGS 0x8007 = 7"
  "(0x3007::nat) AND PTE_P = 1" "(0x5007::nat) AND PTE_P = 1" "(0x6007::nat) AND PTE_P = 1"
  "(0x7005::nat) AND PTE_P = 1" "(0x9005::nat) AND PTE_P = 1" "(0x8007::nat) AND PTE_P = 1"
  "(0::nat) AND PTE_P = 0"
  "(7::nat) AND PTE_W = 2" "(5::nat) AND PTE_W = 0"
  "(0x8000::nat) OR 7 = 0x8007" "(0x7000::nat) OR 5 = 0x7005"
  "(0x4000::nat) mod PAGESIZE = 0" "(0x5000::nat) mod PAGESIZE = 0" "(0x6000::nat) mod PAGESIZE = 0"
  by (simp_all add: PAGENUMBER_def PAGESIZE_def L1PAGEINDEX_def L2PAGEINDEX_def
        PAGETABLE_NENTRIES_def PTE_P_def PTE_W_def PTE_ADDR_def PTE_FLAGS_def)

lemma fork_entry_lookups:
  "virtual_memory_lookup (mem fork_entry) 0x4000 0x4000 = \<lparr>vam_pn = 6, vam_pa = 0x6000, vam_perm = 7\<rparr>"
  "virtual_memory_lookup (mem fork_entry) 0x4000 0x5000 = \<lparr>vam_pn = 7, vam_pa = 0x7000, vam_perm = 5\<rparr>"
  "virtual_memory_lookup (mem fork_entry) 0x4000 0x6000 = \<lparr>vam_pn = 9, vam_pa = 0x9000, vam_perm = 5\<rparr>"
  by (simp_all add: virtual_memory_lookup_def Let_def layout_values fork_entry_fields fork_state_def)

lemma fork_entry_alloc:
  "page_alloc_lite fork_config 2 fork_entry =
     (0x8000, fork_entry\<lparr>pageinfo := (pageinfo fork_entry)(8 := \<lparr>owner = 2, refcount = 1\<rparr>)\<rparr>)"
proof -
  have l: "\<forall>j<8. refcount (pageinfo fork_entry j) \<noteq> 0"
  proof (intro allI impI)
    fix j :: nat assume "j < 8"
    then have "j = 0 \<or> j = 1 \<or> j = 2 \<or> j = 3 \<or> j = 4 \<or> j = 5 \<or> j = 6 \<or> j = 7"
      by (rule less_8_cases)
    then show "refcount (pageinfo fork_entry j) \<noteq> 0"
      by (auto simp: fork_entry_fields fork_state_def frame_table_def)
  qed
  have "page_alloc_lite fork_config 2 fork_entry =
     (PAGEADDRESS 8, fork_entry\<lparr>pageinfo := (pageinfo fork_entry)(8 := \<lparr>owner = int8 2, refcount = 1\<rparr>)\<rparr>)"
    using l by (intro page_alloc_lite_found)
      (simp_all add: fork_config_fields fork_entry_fields fork_state_def frame_table_def)
  then show ?thesis by (simp add: PAGEADDRESS_def PAGESIZE_def int8_def)
qed

lemma fork_first_page: "fork_page fork_config 2 0x4000 fork_entry = Inr fork_after_copy"
proof -
  have o: "owner (pageinfo fork_entry 6) = 1"
    by (simp add: fork_entry_fields fork_state_def frame_table_def)
  have c: "memcpy_page (mem fork_entry) 0x8000 0x6000 = (mem fork_entry)(8 := mem fork_entry 6)"
    by (simp add: memcpy_page_def layout_values)
  have l1: "mem fork_entry 2 0 = 0x3007"
    by (simp add: fork_entry_fields fork_state_def)
  have m: "virtual_memory_map ((mem fork_entry)(8 := mem fork_entry 6)) 0x2000 0x4000 0x8000 PAGESIZE 7 =
             (mem fork_entry)(8 := mem fork_entry 6, 3 := (mem fork_entry 3)(4 := 0x8007))"
    by (simp add: virtual_memory_map_def map_page_def Let_def layout_values l1)
  show ?thesis
    by (simp add: fork_page_def Let_def fork_entry_procs fork_entry_lookups o
          layout_values fork_entry_alloc c m fork_config_fields fork_after_copy_def)
qed

lemma fork_after_copy_fields:
  "p_pagetable (processes fork_after_copy 2) = 0x2000"
  "p_pagetable (processes fork_after_copy (current fork_after_copy)) = 0x4000"
  "p_pid (processes fork_after_copy (current fork_after_copy)) = 1"
  "p_pagetable (processes fork_after_copy (Suc 0)) = 0x4000"
  "p_pid (processes fork_after_copy (Suc 0)) = 1"
  "mem fork_after_copy 4 = mem fork_state 4"
  "mem fork_after_copy 5 = mem fork_state 5"
  "mem fork_after_copy 2 0 = 0x3007"
  "pageinfo fork_after_copy 7 = \<lparr>owner = 1, refcount = 1\<rparr>"
  "owner (pageinfo fork_after_copy 9) = - 2"
  by (simp_all add: fork_after_copy_def fork_entry_fields fork_entry_procs fork_state_def
        frame_table_def)

lemma fork_after_copy_lookups:
  "virtual_memory_lookup (mem fork_after_copy) 0x4000 0x5000 = \<lparr>vam_pn = 7, vam_pa = 0x7000, vam_perm = 5\<rparr>"
  "virtual_memory_lookup (mem fork_after_copy) 0x4000 0x6000 = \<lparr>vam_pn = 9, vam_pa = 0x9000, vam_perm = 5\<rparr>"
  by (simp_all add: virtual_memory_lookup_def Let_def layout_values fork_after_copy_fields fork_state_def)

lemma fork_second_map:
  "virtual_memory_map (mem fork_after_copy) 0x2000 0x5000 0x7000 PAGESIZE 5 =
     (mem fork_after_copy)(3 := (mem fork_after_copy 3)(5 := 0x7005))"
  by (simp add: virtual_memory_map_def map_page_def Let_def layout_values fork_after_copy_fields)

lemma fork_second_relookup:
  "virtual_memory_lookup ((mem fork_after_copy)(3 := (mem fork_after_copy 3)(5 := 0x7005))) 0x4000 0x5000
     = \<lparr>vam_pn = 7, vam_pa = 0x7000, vam_perm = 5\<rparr>"
  by (simp add: virtual_memory_lookup_def Let_def layout_values fork_after_copy_fields fork_state_def)

lemma fork_second_page: "fork_page fork_config 2 0x5000 fork_after_copy = Inr fork_exit"
  by (simp add: fork_page_def Let_def fork_after_copy_fields fork_after_copy_lookups layout_values
        fork_second_map fork_second_relookup fork_config_fields fork_exit_def int8_def)

lemma fork_exit_fields:
  "p_pagetable (processes fork_exit 2) = 0x2000"
  "p_pagetable (processes fork_exit (current fork_exit)) = 0x4000"
  "p_pid (processes fork_exit (current fork_exit)) = 1"
  "p_pagetable (processes fork_exit (Suc 0)) = 0x4000"
  "p_pid (processes fork_exit (Suc 0)) = 1"
  "current fork_exit = 1"
  "mem fork_exit 4 = mem fork_state 4"
  "mem fork_exit 5 = mem fork_state 5"
  "owner (pageinfo fork_exit 9) = - 2"
  by (simp_all add: fork_exit_def fork_after_copy_def fork_entry_fields fork_entry_procs
        fork_state_def frame_table_def)

lemma fork_third_page: "fork_page fork_config 2 0x6000 fork_exit = Inr fork_exit"
proof -
  have "virtual_memory_lookup (mem fork_exit) 0x4000 0x6000 = \<lparr>vam_pn = 9, vam_pa = 0x9000, vam_perm = 5\<rparr>"
    by (simp add: virtual_memory_lookup_def Let_def layout_values fork_exit_fields fork_state_def)
  then show ?thesis
    by (simp add: fork_page_def Let_def fork_exit_fields layout_values fork_config_fields)
qed

lemma fork_state_pages:
  "fork_pages fork_config 2 (PROC_START_ADDR fork_config) fork_entry = Inr fork_exit"
proof -
  have 4: "fork_pages fork_config 2 0x7000 fork_exit = Inr fork_exit"
    by (subst fork_pages.simps) (simp add: fork_config_fields)
  have 3: "fork_pages fork_config 2 0x6000 fork_exit = Inr fork_exit"
    by (subst fork_pages.simps) (simp add: fork_config_fields fork_third_page PAGESIZE_def 4)
  have 2: "fork_pages fork_config 2 0x5000 fork_after_copy = Inr fork_exit"
    by (subst fork_pages.simps) (simp add: fork_config_fields fork_second_page PAGESIZE_def 3)
  show ?thesis
    unfolding fork_config_fields
    by (subst fork_pages.simps) (simp add: fork_config_fields fork_first_page PAGESIZE_def 2)
qed

lemma fork_state_first_free:
  "1 \<le> (2::nat)" "2 < NPROC fork_config" "p_state (processes fork_state 2) = P_FREE"
  "\<forall>j. 1 \<le> j \<and> j < 2 \<longrightarrow> p_state (processes fork_state j) \<noteq> P_FREE"
  by (auto simp: fork_config_def fork_state_def proc_in_def)

lemma fork_state_fork: "sys_fork fork_config fork_state = Inr (fork_registers 2 fork_exit)"
  using fork_state_pages
  by (simp add: sys_fork_first_free[OF fork_state_first_free] fork_child_def fork_entry_def)

lemma fork_state_counts: "fork_counts_in_range fork_config 2 (PROC_START_ADDR fork_config) fork_entry"
proof -
  have o: "owner (pageinfo fork_entry 6) = 1"
    by (simp add: fork_entry_fields fork_state_def frame_table_def)
  have s1: "fork_page_shares fork_config 2 0x4000 fork_entry = None"
    by (simp add: fork_page_shares_def Let_def fork_entry_procs fork_entry_lookups layout_values
          fork_config_fields o)
  have s2: "fork_page_shares fork_config 2 0x5000 fork_after_copy = Some 7"
    by (simp add: fork_page_shares_def Let_def fork_after_copy_fields fork_after_copy_lookups
          layout_values fork_second_map fork_second_relookup fork_config_fields)
  have l3: "virtual_memory_lookup (mem fork_exit) 0x4000 0x6000 = \<lparr>vam_pn = 9, vam_pa = 0x9000, vam_perm = 5\<rparr>"
    by (simp add: virtual_memory_lookup_def Let_def layout_values fork_exit_fields fork_state_def)
  have s3: "fork_page_shares fork_config 2 0x6000 fork_exit = None"
    by (simp add: fork_page_shares_def Let_def fork_exit_fields l3 layout_values fork_config_fields)
  have 4: "fork_counts_in_range fork_config 2 0x7000 fork_exit"
    by (subst fork_counts_in_range.simps) (simp add: fork_config_fields)
  have 3: "fork_counts_in_range fork_config 2 0x6000 fork_exit"
    by (subst fork_counts_in_range.simps)
       (simp add: fork_config_fields s3 fork_third_page PAGESIZE_def 4)
  have 2: "fork_counts_in_range fork_config 2 0x5000 fork_after_copy"
    by (subst fork_counts_in_range.simps)
       (simp add: fork_config_fields s2 fork_second_page PAGESIZE_def 3 fork_after_copy_fields)
  show ?thesis
    unfolding fork_config_fields
    by (subst fork_counts_in_range.simps)
       (simp add: fork_config_fields s1 fork_first_page PAGESIZE_def 2)
qed

lemma fork_state_inv: "frames_inv fork_config fork_state"
  unfolding frames_inv_def fork_config_fields
proof (intro allI impI)
  fix n :: nat assume "n < 10"
  from less_10_cases[OF this] show "(refcount (pageinfo fork_state n) = 0) = (owner (pageinfo fork_state n) = PO_FREE)"
    by (auto simp: fork_state_def frame_table_def PO_FREE_def)
qed

subsection \<open>Page-table entries and the two page-table primitives\<close>

lemma or_aligned:
  assumes "a mod PAGESIZE = 0" "b < PAGESIZE"
  shows "a OR b = a + b"
proof -
  from assms(1) obtain k where k: "a = push_bit 12 k"
    by (auto simp: PAGESIZE_def push_bit_eq_mult mod_eq_0_iff_dvd elim!: dvdE)
  from assms(2) have b: "take_bit 12 b = b"
    by (simp add: PAGESIZE_def take_bit_nat_eq_self_iff)
  have "\<And>n. \<not> bit a n \<or> \<not> bit b n"
  proof -
    fix n
    show "\<not> bit a n \<or> \<not> bit b n"
    proof (cases "n < 12")
      case True then show ?thesis by (simp add: k bit_push_bit_iff)
    next
      case False
      have "bit b n = bit (take_bit 12 b) n" by (simp only: b)
      with False show ?thesis by (simp add: bit_take_bit_iff)
    qed
  qed
  then show ?thesis by (simp add: disjunctive_add)
qed

lemma and_PTE_P: "x AND PTE_P = x mod 2"
  by (simp add: PTE_P_def and_one_eq)

lemma PTE_FLAGS_less [simp]: "PTE_FLAGS e < PAGESIZE"
  by (simp add: PTE_FLAGS_def)

lemma PTE_ADDR_aligned [simp]: "PTE_ADDR e mod PAGESIZE = 0"
  by (simp add: PTE_ADDR_def PAGESIZE_def)

lemma PAGEADDRESS_aligned [simp]: "PAGEADDRESS n mod PAGESIZE = 0"
  by (simp add: PAGEADDRESS_def)

lemma PTE_split: "PTE_ADDR e OR PTE_FLAGS e = e"
  by (simp add: or_aligned) (simp add: PTE_ADDR_def PTE_FLAGS_def)

lemma PTE_FLAGS_present: "PTE_FLAGS e AND PTE_P = e AND PTE_P"
  by (simp add: and_PTE_P PTE_FLAGS_def PAGESIZE_def mod_mod_cancel)

lemma entry_parts:
  assumes "a mod PAGESIZE = 0" "b < PAGESIZE"
  shows "PAGENUMBER (a OR b) = PAGENUMBER a" "PTE_ADDR (a OR b) = a" "PTE_FLAGS (a OR b) = b"
    "(a OR b) AND PTE_P = b AND PTE_P"
proof -
  from assms(1) obtain k where k: "a = k * PAGESIZE"
    by (auto simp: mod_eq_0_iff_dvd elim!: dvdE)
  have e: "a OR b = a + b" using assms by (rule or_aligned)
  show "PAGENUMBER (a OR b) = PAGENUMBER a"
    unfolding e using assms(2) by (simp add: k PAGENUMBER_def)
  show f: "PTE_FLAGS (a OR b) = b"
    unfolding e using assms(2) by (simp add: k PTE_FLAGS_def)
  show "PTE_ADDR (a OR b) = a"
    unfolding e using assms(2) by (simp add: k PTE_ADDR_def)
  have "(a OR b) AND PTE_P = PTE_FLAGS (a OR b) AND PTE_P"
    by (rule PTE_FLAGS_present[symmetric])
  then show "(a OR b) AND PTE_P = b AND PTE_P" by (simp only: f)
qed

lemma PAGENUMBER_PTE_ADDR [simp]: "PAGENUMBER (PTE_ADDR e) = PAGENUMBER e"
proof -
  have "PAGENUMBER (PTE_ADDR e OR PTE_FLAGS e) = PAGENUMBER (PTE_ADDR e)"
    by (rule entry_parts) simp_all
  then show ?thesis by (simp add: PTE_split)
qed

lemma table_flags:
  "PTE_P OR PTE_W OR PTE_U = 7" "(7::nat) < PAGESIZE" "(7::nat) AND PTE_P = 1"
  by (simp_all add: PTE_P_def PTE_W_def PTE_U_def PAGESIZE_def)

lemma table_entry:
  "PAGENUMBER (PAGEADDRESS n OR PTE_P OR PTE_W OR PTE_U) = n"
  "(PAGEADDRESS n OR PTE_P OR PTE_W OR PTE_U) AND PTE_P \<noteq> 0"
proof -
  have e: "PAGEADDRESS n OR PTE_P OR PTE_W OR PTE_U = PAGEADDRESS n OR 7"
    by (simp add: table_flags(1)[symmetric] or.assoc)
  show "PAGENUMBER (PAGEADDRESS n OR PTE_P OR PTE_W OR PTE_U) = n"
    unfolding e by (simp add: entry_parts table_flags)
  show "(PAGEADDRESS n OR PTE_P OR PTE_W OR PTE_U) AND PTE_P \<noteq> 0"
    unfolding e by (simp add: entry_parts table_flags)
qed

lemma user_page_aligned:
  assumes "PROC_START_ADDR cfg mod PAGESIZE = 0" "PROC_START_ADDR cfg \<le> va"
    "(va - PROC_START_ADDR cfg) mod PAGESIZE = 0"
  shows "va mod PAGESIZE = 0"
proof -
  have "va = (va - PROC_START_ADDR cfg) + PROC_START_ADDR cfg" using assms(2) by simp
  then have "va mod PAGESIZE = ((va - PROC_START_ADDR cfg) + PROC_START_ADDR cfg) mod PAGESIZE"
    by simp
  also have "\<dots> = 0" using assms(1,3) by (simp add: mod_add_eq[symmetric] del: mod_add_eq)
  finally show ?thesis .
qed

lemma L1PAGEINDEX_low:
  "va < PAGESIZE * PAGETABLE_NENTRIES \<Longrightarrow> L1PAGEINDEX va = 0"
  by (simp add: L1PAGEINDEX_def)

lemma L2PAGEINDEX_low:
  "va < PAGESIZE * PAGETABLE_NENTRIES \<Longrightarrow> L2PAGEINDEX va = va div PAGESIZE"
  by (simp add: L2PAGEINDEX_def less_mult_imp_div_less mult.commute)

lemma L2PAGEINDEX_inj:
  assumes "va < PAGESIZE * PAGETABLE_NENTRIES" "va' < PAGESIZE * PAGETABLE_NENTRIES"
    "va mod PAGESIZE = 0" "va' mod PAGESIZE = 0" "L2PAGEINDEX va = L2PAGEINDEX va'"
  shows "va = va'"
proof -
  from assms(1,2,5) have "va div PAGESIZE = va' div PAGESIZE"
    by (simp add: L2PAGEINDEX_low)
  then have "va div PAGESIZE * PAGESIZE + va mod PAGESIZE = va' div PAGESIZE * PAGESIZE + va' mod PAGESIZE"
    using assms(3,4) by simp
  then show ?thesis by (simp only: div_mult_mod_eq)
qed

lemma lookup_l2:
  assumes "L1PAGEINDEX va = 0" "m (PAGENUMBER pt) 0 AND PTE_P \<noteq> 0"
  shows "virtual_memory_lookup m pt va =
     (if m (PAGENUMBER (m (PAGENUMBER pt) 0)) (L2PAGEINDEX va) AND PTE_P \<noteq> 0
      then \<lparr>vam_pn = int (PAGENUMBER (m (PAGENUMBER (m (PAGENUMBER pt) 0)) (L2PAGEINDEX va))),
            vam_pa = PTE_ADDR (m (PAGENUMBER (m (PAGENUMBER pt) 0)) (L2PAGEINDEX va)) + va mod PAGESIZE,
            vam_perm = PTE_FLAGS (m (PAGENUMBER (m (PAGENUMBER pt) 0)) (L2PAGEINDEX va))\<rparr>
      else \<lparr>vam_pn = - 1, vam_pa = 2 ^ 32 - 1, vam_perm = 0\<rparr>)"
  using assms by (simp add: virtual_memory_lookup_def Let_def)

lemma lookup_same_entry:
  assumes "L1PAGEINDEX va = 0" "m (PAGENUMBER pt) 0 AND PTE_P \<noteq> 0"
    "m' (PAGENUMBER pt') 0 AND PTE_P \<noteq> 0"
    "m' (PAGENUMBER (m' (PAGENUMBER pt') 0)) (L2PAGEINDEX va) =
     m (PAGENUMBER (m (PAGENUMBER pt) 0)) (L2PAGEINDEX va)"
  shows "virtual_memory_lookup m' pt' va = virtual_memory_lookup m pt va"
  using assms by (simp add: lookup_l2[of va m pt] lookup_l2[of va m' pt'])

lemma lookup_mapped:
  assumes "L1PAGEINDEX va = 0" "m (PAGENUMBER pt) 0 AND PTE_P \<noteq> 0"
    "vam_perm (virtual_memory_lookup m pt va) \<noteq> 0"
  shows "m (PAGENUMBER (m (PAGENUMBER pt) 0)) (L2PAGEINDEX va) AND PTE_P \<noteq> 0"
    "vam_pn (virtual_memory_lookup m pt va) = int (PAGENUMBER (m (PAGENUMBER (m (PAGENUMBER pt) 0)) (L2PAGEINDEX va)))"
    "vam_pa (virtual_memory_lookup m pt va) = PTE_ADDR (m (PAGENUMBER (m (PAGENUMBER pt) 0)) (L2PAGEINDEX va)) + va mod PAGESIZE"
    "vam_perm (virtual_memory_lookup m pt va) = PTE_FLAGS (m (PAGENUMBER (m (PAGENUMBER pt) 0)) (L2PAGEINDEX va))"
  using assms by (simp_all add: lookup_l2[of va m pt] split: if_splits)

lemma map_one_page:
  assumes "L1PAGEINDEX va = 0" "m (PAGENUMBER pt) 0 AND PTE_P \<noteq> 0"
  shows "virtual_memory_map m pt va pa PAGESIZE perm =
     m(PAGENUMBER (m (PAGENUMBER pt) 0) :=
         (m (PAGENUMBER (m (PAGENUMBER pt) 0)))(L2PAGEINDEX va := pa OR perm))"
proof -
  have "PAGESIZE div PAGESIZE = Suc 0" by (simp add: PAGESIZE_def)
  then show ?thesis
    using assms by (simp add: virtual_memory_map_def map_page_def Let_def)
qed

subsection \<open>One iteration of fork's loop over the pages\<close>

lemma fork_pre_fields:
  assumes "fork_pre cfg newpid s"
  shows "frames_inv cfg s" "newpid \<noteq> current s" "p_pid (processes s (current s)) \<noteq> 0"
    "int8 (int newpid) \<noteq> int (p_pid (processes s (current s)))"
    "p_pagetable (processes s (current s)) mod PAGESIZE = 0"
    "refcount (pageinfo s (PAGENUMBER (p_pagetable (processes s (current s))))) \<noteq> 0"
    "mem s (PAGENUMBER (p_pagetable (processes s (current s)))) 0 AND PTE_P \<noteq> 0"
    "refcount (pageinfo s (parent_l2 s)) \<noteq> 0"
    "MEMSIZE_VIRTUAL cfg \<le> PAGESIZE * PAGETABLE_NENTRIES"
    "PROC_START_ADDR cfg mod PAGESIZE = 0"
  using assms by (simp_all add: fork_pre_def Let_def parent_l2_def)

lemma fork_inv_procs_fields:
  assumes "fork_inv_procs cfg newpid s pC va t"
  shows "current t = current s" "processes t (current s) = processes s (current s)"
    "p_pagetable (processes t newpid) = PAGEADDRESS pC"
    "PROC_START_ADDR cfg \<le> va" "(va - PROC_START_ADDR cfg) mod PAGESIZE = 0"
  using assms by (simp_all add: fork_inv_procs_def)

lemma fork_inv_frames_fields:
  assumes "fork_inv_frames newpid s pC lC t"
  shows "pC \<noteq> lC" "refcount (pageinfo s pC) = 0" "refcount (pageinfo s lC) = 0"
    "pageinfo t pC = \<lparr>owner = int8 (int newpid), refcount = 1\<rparr>"
    "pageinfo t lC = \<lparr>owner = int8 (int newpid), refcount = 1\<rparr>"
    "mem t pC 0 = PAGEADDRESS lC OR PTE_P OR PTE_W OR PTE_U"
  using assms by (simp_all add: fork_inv_frames_def)

lemma fork_inv_frames_used:
  assumes "fork_inv_frames newpid s pC lC t" "refcount (pageinfo s n) \<noteq> 0"
  shows "owner (pageinfo t n) = owner (pageinfo s n)" "refcount (pageinfo t n) \<noteq> 0"
    "mem t n = mem s n"
  using assms by (simp_all add: fork_inv_frames_def)

lemma fork_inv_frames_free:
  assumes "fork_inv_frames newpid s pC lC t" "refcount (pageinfo s n) = 0"
  shows "pageinfo t n = pageinfo s n \<or> pageinfo t n = \<lparr>owner = int8 (int newpid), refcount = 1\<rparr>"
  using assms by (simp add: fork_inv_frames_def)

lemma fork_step_address:
  assumes pre: "fork_pre cfg newpid s"
    and procs: "fork_inv_procs cfg newpid s pC va t"
    and va: "va < MEMSIZE_VIRTUAL cfg"
  shows "va mod PAGESIZE = 0" "L1PAGEINDEX va = 0" "user_page cfg va"
    "va < PAGESIZE * PAGETABLE_NENTRIES"
proof -
  show "va mod PAGESIZE = 0"
    by (rule user_page_aligned[OF fork_pre_fields(10)[OF pre] fork_inv_procs_fields(4,5)[OF procs]])
  show l: "va < PAGESIZE * PAGETABLE_NENTRIES"
    using va fork_pre_fields(9)[OF pre] by simp
  show "L1PAGEINDEX va = 0" by (rule L1PAGEINDEX_low[OF l])
  show "user_page cfg va"
    using va fork_inv_procs_fields(4,5)[OF procs] by (simp add: user_page_def)
qed

lemma user_page_address:
  assumes pre: "fork_pre cfg newpid s" and u: "user_page cfg va"
  shows "va mod PAGESIZE = 0" "L1PAGEINDEX va = 0" "va < PAGESIZE * PAGETABLE_NENTRIES"
proof -
  from u have a: "PROC_START_ADDR cfg \<le> va" "(va - PROC_START_ADDR cfg) mod PAGESIZE = 0"
    "va < MEMSIZE_VIRTUAL cfg"
    by (simp_all add: user_page_def)
  show "va mod PAGESIZE = 0"
    by (rule user_page_aligned[OF fork_pre_fields(10)[OF pre] a(1,2)])
  show l: "va < PAGESIZE * PAGETABLE_NENTRIES"
    using a(3) fork_pre_fields(9)[OF pre] by simp
  show "L1PAGEINDEX va = 0" by (rule L1PAGEINDEX_low[OF l])
qed

lemma parent_lookup_frame:
  assumes pre: "fork_pre cfg newpid s"
    and l1: "L1PAGEINDEX va = 0"
    and m1: "m (PAGENUMBER (p_pagetable (processes s (current s)))) =
             mem s (PAGENUMBER (p_pagetable (processes s (current s))))"
    and m2: "m (parent_l2 s) = mem s (parent_l2 s)"
  shows "virtual_memory_lookup m (p_pagetable (processes s (current s))) va = parent_mapping s va"
proof -
  let ?P = "p_pagetable (processes s (current s))"
  have p: "mem s (PAGENUMBER ?P) 0 AND PTE_P \<noteq> 0" by (rule fork_pre_fields(7)[OF pre])
  have p': "m (PAGENUMBER ?P) 0 AND PTE_P \<noteq> 0" unfolding m1 by (rule p)
  have e: "m (PAGENUMBER (m (PAGENUMBER ?P) 0)) (L2PAGEINDEX va) =
           mem s (PAGENUMBER (mem s (PAGENUMBER ?P) 0)) (L2PAGEINDEX va)"
    using m2 by (simp only: m1 parent_l2_def)
  show ?thesis
    unfolding parent_mapping_def by (rule lookup_same_entry[OF l1 p p' e])
qed

lemma parent_mapping_parts:
  assumes pre: "fork_pre cfg newpid s"
    and u: "user_page cfg va"
    and perm: "vam_perm (parent_mapping s va) \<noteq> 0"
  shows "vam_pn (parent_mapping s va) = int (page_frame s va)"
    "PAGENUMBER (vam_pa (parent_mapping s va)) = page_frame s va"
    "vam_pa (parent_mapping s va) OR vam_perm (parent_mapping s va) =
       mem s (parent_l2 s) (L2PAGEINDEX va)"
    "vam_perm (parent_mapping s va) < PAGESIZE"
    "vam_perm (parent_mapping s va) AND PTE_P \<noteq> 0"
    "parent_mapping s va =
       \<lparr>vam_pn = int (PAGENUMBER (mem s (parent_l2 s) (L2PAGEINDEX va))),
        vam_pa = PTE_ADDR (mem s (parent_l2 s) (L2PAGEINDEX va)),
        vam_perm = PTE_FLAGS (mem s (parent_l2 s) (L2PAGEINDEX va))\<rparr>"
proof -
  let ?P = "p_pagetable (processes s (current s))"
  let ?pe = "mem s (parent_l2 s) (L2PAGEINDEX va)"
  note a = user_page_address[OF pre u]
  have p: "mem s (PAGENUMBER ?P) 0 AND PTE_P \<noteq> 0" by (rule fork_pre_fields(7)[OF pre])
  have perm': "vam_perm (virtual_memory_lookup (mem s) ?P va) \<noteq> 0"
    using perm by (simp add: parent_mapping_def)
  note l = lookup_mapped[OF a(2) p perm', folded parent_mapping_def parent_l2_def]
  show pn: "vam_pn (parent_mapping s va) = int (page_frame s va)"
    by (simp add: page_frame_def l(2))
  have pa: "vam_pa (parent_mapping s va) = PTE_ADDR ?pe"
    using l(3) a(1) by simp
  show "PAGENUMBER (vam_pa (parent_mapping s va)) = page_frame s va"
    by (simp add: pa page_frame_def l(2))
  show "vam_pa (parent_mapping s va) OR vam_perm (parent_mapping s va) = ?pe"
    by (simp only: pa l(4) PTE_split)
  show "vam_perm (parent_mapping s va) < PAGESIZE"
    by (simp only: l(4) PTE_FLAGS_less)
  show "vam_perm (parent_mapping s va) AND PTE_P \<noteq> 0"
    unfolding l(4) PTE_FLAGS_present by (rule l(1))
  show "parent_mapping s va = \<lparr>vam_pn = int (PAGENUMBER ?pe), vam_pa = PTE_ADDR ?pe,
          vam_perm = PTE_FLAGS ?pe\<rparr>"
    using l(2) pa l(4) by (cases "parent_mapping s va") simp
qed

lemma fork_step_tables:
  assumes pre: "fork_pre cfg newpid s"
    and procs: "fork_inv_procs cfg newpid s pC va t"
    and frames: "fork_inv_frames newpid s pC lC t"
  shows "processes t (current t) = processes s (current s)"
    "mem t (PAGENUMBER (p_pagetable (processes s (current s)))) =
       mem s (PAGENUMBER (p_pagetable (processes s (current s))))"
    "mem t (parent_l2 s) = mem s (parent_l2 s)"
    "PAGENUMBER (p_pagetable (processes s (current s))) \<noteq> lC"
    "parent_l2 s \<noteq> lC"
proof -
  show "processes t (current t) = processes s (current s)"
    using fork_inv_procs_fields(1,2)[OF procs] by simp
  show "mem t (PAGENUMBER (p_pagetable (processes s (current s)))) =
       mem s (PAGENUMBER (p_pagetable (processes s (current s))))"
    by (rule fork_inv_frames_used(3)[OF frames fork_pre_fields(6)[OF pre]])
  show "mem t (parent_l2 s) = mem s (parent_l2 s)"
    by (rule fork_inv_frames_used(3)[OF frames fork_pre_fields(8)[OF pre]])
  show "PAGENUMBER (p_pagetable (processes s (current s))) \<noteq> lC"
    using fork_pre_fields(6)[OF pre] fork_inv_frames_fields(3)[OF frames] by auto
  show "parent_l2 s \<noteq> lC"
    using fork_pre_fields(8)[OF pre] fork_inv_frames_fields(3)[OF frames] by auto
qed

lemma fork_step_lookup:
  assumes pre: "fork_pre cfg newpid s"
    and procs: "fork_inv_procs cfg newpid s pC va t"
    and frames: "fork_inv_frames newpid s pC lC t"
    and va: "va < MEMSIZE_VIRTUAL cfg"
  shows "virtual_memory_lookup (mem t) (p_pagetable (processes s (current s))) va =
           parent_mapping s va"
    "virtual_memory_lookup ((mem t)(lC := x)) (p_pagetable (processes s (current s))) va =
           parent_mapping s va"
proof -
  note tb = fork_step_tables[OF pre procs frames]
  note a = fork_step_address[OF pre procs va]
  show "virtual_memory_lookup (mem t) (p_pagetable (processes s (current s))) va =
           parent_mapping s va"
    by (rule parent_lookup_frame[OF pre a(2) tb(2) tb(3)])
  have 1: "((mem t)(lC := x)) (PAGENUMBER (p_pagetable (processes s (current s)))) =
             mem s (PAGENUMBER (p_pagetable (processes s (current s))))"
    using tb(4) tb(2) by simp
  have 2: "((mem t)(lC := x)) (parent_l2 s) = mem s (parent_l2 s)"
    using tb(5) tb(3) by simp
  show "virtual_memory_lookup ((mem t)(lC := x)) (p_pagetable (processes s (current s))) va =
           parent_mapping s va"
    by (rule parent_lookup_frame[OF pre a(2) 1 2])
qed

lemma fork_step_map:
  assumes pre: "fork_pre cfg newpid s"
    and procs: "fork_inv_procs cfg newpid s pC va t"
    and frames: "fork_inv_frames newpid s pC lC t"
    and va: "va < MEMSIZE_VIRTUAL cfg"
    and m: "m pC = mem t pC"
  shows "virtual_memory_map m (p_pagetable (processes t newpid)) va pa PAGESIZE perm =
           m(lC := (m lC)(L2PAGEINDEX va := pa OR perm))"
proof -
  note a = fork_step_address[OF pre procs va]
  have c: "p_pagetable (processes t newpid) = PAGEADDRESS pC"
    by (rule fork_inv_procs_fields(3)[OF procs])
  have e: "m (PAGENUMBER (PAGEADDRESS pC)) 0 = PAGEADDRESS lC OR PTE_P OR PTE_W OR PTE_U"
    using fork_inv_frames_fields(6)[OF frames] by (simp add: m)
  have p: "m (PAGENUMBER (PAGEADDRESS pC)) 0 AND PTE_P \<noteq> 0"
    unfolding e by (rule table_entry(2))
  have n: "PAGENUMBER (m (PAGENUMBER (PAGEADDRESS pC)) 0) = lC"
    unfolding e by (rule table_entry(1))
  have "virtual_memory_map m (PAGEADDRESS pC) va pa PAGESIZE perm =
     m(PAGENUMBER (m (PAGENUMBER (PAGEADDRESS pC)) 0) :=
         (m (PAGENUMBER (m (PAGENUMBER (PAGEADDRESS pC)) 0)))(L2PAGEINDEX va := pa OR perm))"
    using a(2) p by (rule map_one_page[of va m "PAGEADDRESS pC" pa perm])
  then show ?thesis
    unfolding c by (simp only: n)
qed

lemma fork_step_owner:
  assumes pre: "fork_pre cfg newpid s"
    and frames: "fork_inv_frames newpid s pC lC t"
    and n: "n < NPAGES cfg"
  shows "(owner (pageinfo t n) = int (p_pid (processes s (current s)))) =
         (owner (pageinfo s n) = int (p_pid (processes s (current s))))"
proof (cases "refcount (pageinfo s n) = 0")
  case False
  then show ?thesis by (simp add: fork_inv_frames_used(1)[OF frames])
next
  case True
  from fork_pre_fields(1)[OF pre] n True have o: "owner (pageinfo s n) = 0"
    by (simp add: frames_inv_def PO_FREE_def)
  from fork_inv_frames_free[OF frames True]
  have "owner (pageinfo t n) = 0 \<or> owner (pageinfo t n) = int8 (int newpid)"
    using o by auto
  with o fork_pre_fields(3,4)[OF pre] show ?thesis by auto
qed

lemma fork_page_step:
  assumes pre: "fork_pre cfg newpid s"
    and procs: "fork_inv_procs cfg newpid s pC va t"
    and frames: "fork_inv_frames newpid s pC lC t"
    and va: "va < MEMSIZE_VIRTUAL cfg"
    and alloc: "fork_page_copies cfg va t \<longrightarrow> fst (page_alloc_lite cfg (int newpid) t) \<noteq> 0"
    and count: "\<forall>n. fork_page_shares cfg newpid va t = Some n \<longrightarrow>
                  0 < refcount (pageinfo t (nat n)) \<and> refcount (pageinfo t (nat n)) < 127"
    and step: "fork_page cfg newpid va t = Inr t'"
  obtains (copied) f where "page_copied s va" "f \<noteq> 0" "refcount (pageinfo t f) = 0"
      "page_frame s va < NPAGES cfg" "f < NPAGES cfg"
      "pageinfo t' = (pageinfo t)(f := \<lparr>owner = int8 (int newpid), refcount = 1\<rparr>)"
      "mem t' = (mem t)(f := mem t (page_frame s va),
                        lC := (mem t lC)(L2PAGEINDEX va :=
                                 PAGEADDRESS f OR vam_perm (parent_mapping s va)))"
      "processes t' = processes t" "current t' = current t"
  | (shared) "page_shared s va" "page_frame s va < NPAGES cfg"
      "0 < refcount (pageinfo t (page_frame s va))"
      "pageinfo t' = (pageinfo t)(page_frame s va := (pageinfo t (page_frame s va))
                        \<lparr>refcount := refcount (pageinfo t (page_frame s va)) + 1\<rparr>)"
      "mem t' = (mem t)(lC := (mem t lC)(L2PAGEINDEX va :=
                                 mem s (parent_l2 s) (L2PAGEINDEX va)))"
      "processes t' = processes t" "current t' = current t"
  | (other) "\<not> page_copied s va" "\<not> page_shared s va" "t' = t"
proof -
  note tb = fork_step_tables[OF pre procs frames]
  note a = fork_step_address[OF pre procs va]
  note lk = fork_step_lookup[OF pre procs frames va]
  let ?vam = "parent_mapping s va"
  let ?pid = "p_pid (processes s (current s))"
  let ?pn = "page_frame s va"
  have lkt: "virtual_memory_lookup (mem t) (p_pagetable (processes t (current t))) va = ?vam"
    by (simp only: tb(1) lk(1))
  have pid: "p_pid (processes t (current t)) = ?pid"
    by (simp only: tb(1))
  show ?thesis
  proof (cases "vam_perm ?vam = 0")
    case True
    have "fork_page cfg newpid va t = Inr t"
      by (simp add: fork_page_def Let_def lkt True)
    with step have "t' = t" by simp
    moreover have "\<not> page_copied s va" by (simp add: page_copied_def True)
    moreover have "\<not> page_shared s va" by (simp add: page_shared_def True)
    ultimately show ?thesis by (rule other[rotated 2])
  next
    case perm: False
    note parts = parent_mapping_parts[OF pre a(3) perm]
    have rg: "\<not> (vam_pn ?vam < 0 \<or> int (NPAGES cfg) \<le> vam_pn ?vam)"
    proof
      assume "vam_pn ?vam < 0 \<or> int (NPAGES cfg) \<le> vam_pn ?vam"
      then have "fork_page cfg newpid va t = Inl OutOfBounds"
        using perm by (simp add: fork_page_def Let_def lkt)
      with step show False by simp
    qed
    have nat_pn: "nat (vam_pn ?vam) = ?pn" by (simp add: page_frame_def)
    from rg have pn: "?pn < NPAGES cfg" by (simp add: parts(1))
    have ow: "(owner (pageinfo t ?pn) = int ?pid) = page_owned s va"
      unfolding page_owned_def by (rule fork_step_owner[OF pre frames pn])
    show ?thesis
    proof (cases "vam_perm ?vam AND PTE_W \<noteq> 0 \<and> page_owned s va")
      case copy: True
      then have pc: "page_copied s va" by (simp add: page_copied_def)
      have "fork_page_copies cfg va t"
        using perm rg copy by (simp add: fork_page_copies_def Let_def lkt pid nat_pn ow)
      then have nz: "fst (page_alloc_lite cfg (int newpid) t) \<noteq> 0" by (rule alloc[rule_format])
      show ?thesis
      proof (cases rule: page_alloc_lite_cases[of cfg t "int newpid"])
        case exhausted
        with nz show ?thesis by simp
      next
        case (found f)
        from nz found(4) have f0: "f \<noteq> 0" by simp
        have fC: "f \<noteq> pC" "f \<noteq> lC"
          using found(2) fork_inv_frames_fields(4,5)[OF frames] by auto
        let ?t1 = "t\<lparr>pageinfo := (pageinfo t)(f := \<lparr>owner = int8 (int newpid), refcount = 1\<rparr>)\<rparr>"
        let ?m2 = "(mem t)(f := mem t ?pn)"
        have cp: "memcpy_page (mem t) (PAGEADDRESS f) (vam_pa ?vam) = ?m2"
          by (simp add: memcpy_page_def parts(2))
        have mp: "virtual_memory_map ?m2 (p_pagetable (processes t newpid)) va (PAGEADDRESS f)
                    PAGESIZE (vam_perm ?vam) =
                  ?m2(lC := (?m2 lC)(L2PAGEINDEX va := PAGEADDRESS f OR vam_perm ?vam))"
          by (rule fork_step_map[OF pre procs frames va]) (use fC in auto)
        have m2l: "?m2 lC = mem t lC" using fC by simp
        have r: "fork_page cfg newpid va t =
                   Inr (?t1\<lparr>mem := ?m2(lC := (mem t lC)(L2PAGEINDEX va :=
                                         PAGEADDRESS f OR vam_perm ?vam))\<rparr>)"
          using perm rg copy
          by (simp add: fork_page_def Let_def lkt pid nat_pn ow found(4) cp mp m2l
                fC fC[symmetric])
        from step r have t': "t' = ?t1\<lparr>mem := ?m2(lC := (mem t lC)(L2PAGEINDEX va :=
                                         PAGEADDRESS f OR vam_perm ?vam))\<rparr>"
          by simp
        show ?thesis
          by (rule copied[OF pc f0 found(2) pn found(1)]) (simp_all add: t')
      qed
    next
      case ncopy: False
      show ?thesis
      proof (cases "page_owned s va")
        case False
        have "fork_page cfg newpid va t = Inr t"
          using perm rg False by (simp add: fork_page_def Let_def lkt pid nat_pn ow)
        with step have "t' = t" by simp
        moreover have "\<not> page_copied s va" using False by (simp add: page_copied_def)
        moreover have "\<not> page_shared s va" using False by (simp add: page_shared_def)
        ultimately show ?thesis by (rule other[rotated 2])
      next
        case owned: True
        with ncopy have w: "vam_perm ?vam AND PTE_W = 0" by simp
        have ps: "page_shared s va" using perm w owned by (simp add: page_shared_def)
        let ?m1 = "(mem t)(lC := (mem t lC)(L2PAGEINDEX va := mem s (parent_l2 s) (L2PAGEINDEX va)))"
        have "virtual_memory_map (mem t) (p_pagetable (processes t newpid)) va (vam_pa ?vam)
                    PAGESIZE (vam_perm ?vam) =
              (mem t)(lC := (mem t lC)(L2PAGEINDEX va := vam_pa ?vam OR vam_perm ?vam))"
          by (rule fork_step_map[OF pre procs frames va]) simp
        then have mp: "virtual_memory_map (mem t) (p_pagetable (processes t newpid)) va (vam_pa ?vam)
                    PAGESIZE (vam_perm ?vam) = ?m1"
          by (simp only: parts(3))
        have rl: "virtual_memory_lookup ?m1 (p_pagetable (processes t (current t))) va = ?vam"
          by (simp only: tb(1) lk(2))
        have sh: "fork_page_shares cfg newpid va t = Some (vam_pn ?vam)"
          using perm rg w owned
          by (simp add: fork_page_shares_def Let_def lkt pid nat_pn ow mp rl)
        from count[rule_format, OF sh] have c: "0 < refcount (pageinfo t ?pn)" "refcount (pageinfo t ?pn) < 127"
          by (simp_all add: nat_pn)
        then have i8: "int8 (refcount (pageinfo t ?pn) + 1) = refcount (pageinfo t ?pn) + 1"
          by (intro int8_id) simp_all
        have r: "fork_page cfg newpid va t =
                   Inr (t\<lparr>mem := ?m1,
                          pageinfo := (pageinfo t)(?pn := (pageinfo t ?pn)
                             \<lparr>refcount := refcount (pageinfo t ?pn) + 1\<rparr>)\<rparr>)"
          using perm rg w owned
          by (simp add: fork_page_def Let_def lkt pid nat_pn ow mp rl i8)
        from step r have t': "t' = t\<lparr>mem := ?m1,
                          pageinfo := (pageinfo t)(?pn := (pageinfo t ?pn)
                             \<lparr>refcount := refcount (pageinfo t ?pn) + 1\<rparr>)\<rparr>"
          by simp
        show ?thesis
          by (rule shared[OF ps pn c(1)]) (simp_all add: t')
      qed
    qed
  qed
qed

subsection \<open>The loop over the pages\<close>

lemma page_owned_used:
  assumes pre: "fork_pre cfg newpid s" and o: "page_owned s va"
    and n: "page_frame s va < NPAGES cfg"
  shows "refcount (pageinfo s (page_frame s va)) \<noteq> 0"
proof
  assume "refcount (pageinfo s (page_frame s va)) = 0"
  with fork_pre_fields(1)[OF pre] n have "owner (pageinfo s (page_frame s va)) = 0"
    by (simp add: frames_inv_def PO_FREE_def)
  with o fork_pre_fields(3)[OF pre] show False by (simp add: page_owned_def)
qed

lemma next_page:
  assumes "PROC_START_ADDR cfg \<le> va" "(va - PROC_START_ADDR cfg) mod PAGESIZE = 0"
    and "user_page cfg va'"
  shows "(va' < va + PAGESIZE) = (va' < va \<or> va' = va)"
proof -
  from assms(3) have u: "PROC_START_ADDR cfg \<le> va'" "(va' - PROC_START_ADDR cfg) mod PAGESIZE = 0"
    by (simp_all add: user_page_def)
  from assms(2) obtain k where "va - PROC_START_ADDR cfg = PAGESIZE * k"
    by (auto simp: mod_eq_0_iff_dvd elim!: dvdE)
  with assms(1) have k: "va = PROC_START_ADDR cfg + PAGESIZE * k" by simp
  from u(2) obtain k' where "va' - PROC_START_ADDR cfg = PAGESIZE * k'"
    by (auto simp: mod_eq_0_iff_dvd elim!: dvdE)
  with u(1) have k': "va' = PROC_START_ADDR cfg + PAGESIZE * k'" by simp
  have "(va' < va + PAGESIZE) = (PAGESIZE * k' < PAGESIZE * Suc k)"
    by (simp add: k k' add.commute)
  also have "\<dots> = (k' < Suc k)" by (simp only: mult_less_cancel1) simp
  also have "\<dots> = (k' < k \<or> k' = k)" by auto
  also have "\<dots> = (va' < va \<or> va' = va)" by (simp add: k k')
  finally show ?thesis .
qed

lemma user_page_index:
  assumes pre: "fork_pre cfg newpid s" and "user_page cfg va" "user_page cfg va'" "va' \<noteq> va"
  shows "L2PAGEINDEX va' \<noteq> L2PAGEINDEX va"
proof
  assume e: "L2PAGEINDEX va' = L2PAGEINDEX va"
  note a = user_page_address[OF pre assms(2)]
  note a' = user_page_address[OF pre assms(3)]
  have "va' = va" by (rule L2PAGEINDEX_inj[OF a'(3) a(3) a'(1) a(1) e])
  with assms(4) show False by simp
qed

lemma fork_inv_procs_step:
  assumes procs: "fork_inv_procs cfg newpid s pC va t"
    and p: "processes t' = processes t" and c: "current t' = current t"
  shows "fork_inv_procs cfg newpid s pC (va + PAGESIZE) t'"
proof -
  note f = fork_inv_procs_fields[OF procs]
  have "va + PAGESIZE - PROC_START_ADDR cfg = (va - PROC_START_ADDR cfg) + PAGESIZE"
    using f(4) by simp
  then have "(va + PAGESIZE - PROC_START_ADDR cfg) mod PAGESIZE = 0"
    using f(5) by simp
  with f show ?thesis by (simp add: fork_inv_procs_def p c)
qed

lemma fork_inv_frames_copy:
  assumes frames: "fork_inv_frames newpid s pC lC t"
    and f: "refcount (pageinfo t f) = 0"
    and pi: "pageinfo t' = (pageinfo t)(f := \<lparr>owner = int8 (int newpid), refcount = 1\<rparr>)"
    and m: "mem t' = (mem t)(f := x, lC := y)"
  shows "fork_inv_frames newpid s pC lC t'" "refcount (pageinfo s f) = 0" "f \<noteq> pC" "f \<noteq> lC"
proof -
  note ff = fork_inv_frames_fields[OF frames]
  show fs: "refcount (pageinfo s f) = 0"
    using fork_inv_frames_used(2)[OF frames, of f] f by auto
  show fC: "f \<noteq> pC" "f \<noteq> lC" using f ff(4,5) by auto
  have 1: "pageinfo t' pC = \<lparr>owner = int8 (int newpid), refcount = 1\<rparr>"
    "pageinfo t' lC = \<lparr>owner = int8 (int newpid), refcount = 1\<rparr>"
    using ff(4,5) by (simp_all add: pi)
  have 2: "mem t' pC 0 = PAGEADDRESS lC OR PTE_P OR PTE_W OR PTE_U"
    using ff(1,6) fC by (simp add: m)
  have 3: "\<forall>n. refcount (pageinfo s n) \<noteq> 0 \<longrightarrow>
             owner (pageinfo t' n) = owner (pageinfo s n) \<and> refcount (pageinfo t' n) \<noteq> 0
             \<and> mem t' n = mem s n"
  proof (intro allI impI)
    fix n assume n: "refcount (pageinfo s n) \<noteq> 0"
    from n fs ff(3) have ne: "n \<noteq> f" "n \<noteq> lC" by auto
    from fork_inv_frames_used[OF frames n] ne
    show "owner (pageinfo t' n) = owner (pageinfo s n) \<and> refcount (pageinfo t' n) \<noteq> 0
             \<and> mem t' n = mem s n"
      by (simp add: pi m)
  qed
  have 4: "\<forall>n. refcount (pageinfo s n) = 0 \<longrightarrow>
             pageinfo t' n = pageinfo s n
             \<or> pageinfo t' n = \<lparr>owner = int8 (int newpid), refcount = 1\<rparr>"
  proof (intro allI impI)
    fix n assume n: "refcount (pageinfo s n) = 0"
    from fork_inv_frames_free[OF frames n]
    show "pageinfo t' n = pageinfo s n
             \<or> pageinfo t' n = \<lparr>owner = int8 (int newpid), refcount = 1\<rparr>"
      by (cases "n = f") (simp_all add: pi)
  qed
  show "fork_inv_frames newpid s pC lC t'"
    unfolding fork_inv_frames_def using ff(1,2,3) 1 2 3 4 by blast
qed

lemma fork_inv_frames_share:
  assumes frames: "fork_inv_frames newpid s pC lC t"
    and u: "refcount (pageinfo s pn) \<noteq> 0" and c: "0 < refcount (pageinfo t pn)"
    and pi: "pageinfo t' = (pageinfo t)(pn := (pageinfo t pn)
                        \<lparr>refcount := refcount (pageinfo t pn) + 1\<rparr>)"
    and m: "mem t' = (mem t)(lC := y)"
  shows "fork_inv_frames newpid s pC lC t'"
proof -
  note ff = fork_inv_frames_fields[OF frames]
  from u ff(2,3) have ne: "pn \<noteq> pC" "pn \<noteq> lC" by auto
  have 1: "pageinfo t' pC = \<lparr>owner = int8 (int newpid), refcount = 1\<rparr>"
    "pageinfo t' lC = \<lparr>owner = int8 (int newpid), refcount = 1\<rparr>"
    using ff(4,5) ne by (simp_all add: pi)
  have 2: "mem t' pC 0 = PAGEADDRESS lC OR PTE_P OR PTE_W OR PTE_U"
    using ff(1,6) by (simp add: m)
  have 3: "\<forall>n. refcount (pageinfo s n) \<noteq> 0 \<longrightarrow>
             owner (pageinfo t' n) = owner (pageinfo s n) \<and> refcount (pageinfo t' n) \<noteq> 0
             \<and> mem t' n = mem s n"
  proof (intro allI impI)
    fix n assume n: "refcount (pageinfo s n) \<noteq> 0"
    from n ff(3) have nl: "n \<noteq> lC" by auto
    from fork_inv_frames_used[OF frames n] nl c
    show "owner (pageinfo t' n) = owner (pageinfo s n) \<and> refcount (pageinfo t' n) \<noteq> 0
             \<and> mem t' n = mem s n"
      by (cases "n = pn") (simp_all add: pi m)
  qed
  have 4: "\<forall>n. refcount (pageinfo s n) = 0 \<longrightarrow>
             pageinfo t' n = pageinfo s n
             \<or> pageinfo t' n = \<lparr>owner = int8 (int newpid), refcount = 1\<rparr>"
  proof (intro allI impI)
    fix n assume n: "refcount (pageinfo s n) = 0"
    with u have "n \<noteq> pn" by auto
    with fork_inv_frames_free[OF frames n]
    show "pageinfo t' n = pageinfo s n
             \<or> pageinfo t' n = \<lparr>owner = int8 (int newpid), refcount = 1\<rparr>"
      by (simp add: pi)
  qed
  show "fork_inv_frames newpid s pC lC t'"
    unfolding fork_inv_frames_def using ff(1,2,3) 1 2 3 4 by blast
qed

lemma fork_copied_keep:
  assumes c: "fork_copied newpid s pC lC va' t"
    and e: "mem t' lC (L2PAGEINDEX va') = mem t lC (L2PAGEINDEX va')"
    and k: "\<And>n. n \<noteq> lC \<Longrightarrow> refcount (pageinfo s n) = 0 \<Longrightarrow> refcount (pageinfo t n) \<noteq> 0 \<Longrightarrow>
              pageinfo t' n = pageinfo t n \<and> mem t' n = mem t n"
  shows "fork_copied newpid s pC lC va' t'"
proof -
  let ?f = "PAGENUMBER (mem t lC (L2PAGEINDEX va'))"
  from c have f: "?f \<noteq> lC" "refcount (pageinfo s ?f) = 0"
    "pageinfo t ?f = \<lparr>owner = int8 (int newpid), refcount = 1\<rparr>"
    by (simp_all add: fork_copied_def Let_def)
  from f(3) have "refcount (pageinfo t ?f) \<noteq> 0" by simp
  from k[OF f(1,2) this] have "pageinfo t' ?f = pageinfo t ?f" "mem t' ?f = mem t ?f"
    by simp_all
  with c show ?thesis by (simp add: fork_copied_def Let_def e)
qed

lemma page_copied_perm:
  assumes "page_copied s va"
  shows "vam_perm (parent_mapping s va) \<noteq> 0" "page_owned s va" "\<not> page_shared s va"
proof -
  from assms have w: "vam_perm (parent_mapping s va) AND PTE_W \<noteq> 0" and o: "page_owned s va"
    by (simp_all add: page_copied_def)
  show "vam_perm (parent_mapping s va) \<noteq> 0"
  proof
    assume "vam_perm (parent_mapping s va) = 0"
    with w show False by simp
  qed
  from o show "page_owned s va" .
  from w show "\<not> page_shared s va" by (simp add: page_shared_def)
qed

lemma page_shared_perm:
  assumes "page_shared s va"
  shows "vam_perm (parent_mapping s va) \<noteq> 0" "page_owned s va" "\<not> page_copied s va"
  using assms by (simp_all add: page_shared_def page_copied_def)

lemma fork_inv_pages_copy:
  assumes pre: "fork_pre cfg newpid s"
    and procs: "fork_inv_procs cfg newpid s pC va t"
    and frames: "fork_inv_frames newpid s pC lC t"
    and pages: "fork_inv_pages cfg newpid s pC lC va t"
    and va: "va < MEMSIZE_VIRTUAL cfg"
    and pc: "page_copied s va" and f0: "f \<noteq> 0" and f: "refcount (pageinfo t f) = 0"
    and pn: "page_frame s va < NPAGES cfg"
    and pi: "pageinfo t' = (pageinfo t)(f := \<lparr>owner = int8 (int newpid), refcount = 1\<rparr>)"
    and m: "mem t' = (mem t)(f := mem t (page_frame s va),
                        lC := (mem t lC)(L2PAGEINDEX va :=
                                 PAGEADDRESS f OR vam_perm (parent_mapping s va)))"
  shows "fork_inv_pages cfg newpid s pC lC (va + PAGESIZE) t'"
proof -
  note a = fork_step_address[OF pre procs va]
  note pf = fork_inv_procs_fields[OF procs]
  have fs': "refcount (pageinfo s f) = 0" "f \<noteq> pC" "f \<noteq> lC"
    using fork_inv_frames_used(2)[OF frames, of f] f fork_inv_frames_fields(4,5)[OF frames]
    by auto
  note cp = page_copied_perm[OF pc]
  note parts = parent_mapping_parts[OF pre a(3) cp(1)]
  have used: "refcount (pageinfo s (page_frame s va)) \<noteq> 0"
    by (rule page_owned_used[OF pre cp(2) pn])
  have here: "fork_copied newpid s pC lC va t'"
  proof -
    have pe: "mem t' lC (L2PAGEINDEX va) = PAGEADDRESS f OR vam_perm (parent_mapping s va)"
      by (simp add: m)
    have n: "PAGENUMBER (PAGEADDRESS f OR vam_perm (parent_mapping s va)) = f"
      using entry_parts(1)[of "PAGEADDRESS f" "vam_perm (parent_mapping s va)"] parts(4)
      by simp
    have mf: "mem t' f = mem s (page_frame s va)"
      using fs'(3) fork_inv_frames_used(3)[OF frames used] by (simp add: m)
    have pif: "pageinfo t' f = \<lparr>owner = int8 (int newpid), refcount = 1\<rparr>"
      by (simp add: pi)
    show ?thesis
      unfolding fork_copied_def Let_def pe n
      using f0 fs' pif mf used by simp
  qed
  show ?thesis
    unfolding fork_inv_pages_def
  proof (intro allI impI)
    fix va' assume u: "user_page cfg va'"
    show "if va' < va + PAGESIZE \<and> page_copied s va' then fork_copied newpid s pC lC va' t'
          else mem t' lC (L2PAGEINDEX va') = mem s (parent_l2 s) (L2PAGEINDEX va')"
    proof (cases "va' = va")
      case True
      with here pc a(1) show ?thesis by simp
    next
      case False
      have nx: "(va' < va + PAGESIZE) = (va' < va)"
        using next_page[OF pf(4,5) u] False by simp
      have ix: "L2PAGEINDEX va' \<noteq> L2PAGEINDEX va"
        by (rule user_page_index[OF pre a(3) u False])
      have e: "mem t' lC (L2PAGEINDEX va') = mem t lC (L2PAGEINDEX va')"
        using ix by (simp add: m)
      from pages u have old: "if va' < va \<and> page_copied s va' then fork_copied newpid s pC lC va' t
          else mem t lC (L2PAGEINDEX va') = mem s (parent_l2 s) (L2PAGEINDEX va')"
        by (simp add: fork_inv_pages_def)
      show ?thesis
      proof (cases "va' < va \<and> page_copied s va'")
        case True
        with old have c: "fork_copied newpid s pC lC va' t" by simp
        have "fork_copied newpid s pC lC va' t'"
        proof (rule fork_copied_keep[OF c e])
          fix n assume n: "n \<noteq> lC" "refcount (pageinfo s n) = 0" "refcount (pageinfo t n) \<noteq> 0"
          from n(3) f have "n \<noteq> f" by auto
          with n(1) show "pageinfo t' n = pageinfo t n \<and> mem t' n = mem t n"
            by (simp add: pi m)
        qed
        with True show ?thesis by (simp add: nx)
      next
        case False
        with old have "mem t lC (L2PAGEINDEX va') = mem s (parent_l2 s) (L2PAGEINDEX va')"
          by simp
        with False show ?thesis by (auto simp: nx e)
      qed
    qed
  qed
qed

lemma fork_inv_pages_share:
  assumes pre: "fork_pre cfg newpid s"
    and procs: "fork_inv_procs cfg newpid s pC va t"
    and frames: "fork_inv_frames newpid s pC lC t"
    and pages: "fork_inv_pages cfg newpid s pC lC va t"
    and va: "va < MEMSIZE_VIRTUAL cfg"
    and ps: "page_shared s va"
    and pn: "page_frame s va < NPAGES cfg"
    and pi: "pageinfo t' = (pageinfo t)(page_frame s va := (pageinfo t (page_frame s va))
                        \<lparr>refcount := refcount (pageinfo t (page_frame s va)) + 1\<rparr>)"
    and m: "mem t' = (mem t)(lC := (mem t lC)(L2PAGEINDEX va :=
                                 mem s (parent_l2 s) (L2PAGEINDEX va)))"
  shows "fork_inv_pages cfg newpid s pC lC (va + PAGESIZE) t'"
proof -
  note a = fork_step_address[OF pre procs va]
  note pf = fork_inv_procs_fields[OF procs]
  note sp = page_shared_perm[OF ps]
  have used: "refcount (pageinfo s (page_frame s va)) \<noteq> 0"
    by (rule page_owned_used[OF pre sp(2) pn])
  show ?thesis
    unfolding fork_inv_pages_def
  proof (intro allI impI)
    fix va' assume u: "user_page cfg va'"
    show "if va' < va + PAGESIZE \<and> page_copied s va' then fork_copied newpid s pC lC va' t'
          else mem t' lC (L2PAGEINDEX va') = mem s (parent_l2 s) (L2PAGEINDEX va')"
    proof (cases "va' = va")
      case True
      with sp(3) show ?thesis by (simp add: m)
    next
      case False
      have nx: "(va' < va + PAGESIZE) = (va' < va)"
        using next_page[OF pf(4,5) u] False by simp
      have ix: "L2PAGEINDEX va' \<noteq> L2PAGEINDEX va"
        by (rule user_page_index[OF pre a(3) u False])
      have e: "mem t' lC (L2PAGEINDEX va') = mem t lC (L2PAGEINDEX va')"
        using ix by (simp add: m)
      from pages u have old: "if va' < va \<and> page_copied s va' then fork_copied newpid s pC lC va' t
          else mem t lC (L2PAGEINDEX va') = mem s (parent_l2 s) (L2PAGEINDEX va')"
        by (simp add: fork_inv_pages_def)
      show ?thesis
      proof (cases "va' < va \<and> page_copied s va'")
        case True
        with old have c: "fork_copied newpid s pC lC va' t" by simp
        have "fork_copied newpid s pC lC va' t'"
        proof (rule fork_copied_keep[OF c e])
          fix n assume n: "n \<noteq> lC" "refcount (pageinfo s n) = 0" "refcount (pageinfo t n) \<noteq> 0"
          from n(2) used have "n \<noteq> page_frame s va" by auto
          with n(1) show "pageinfo t' n = pageinfo t n \<and> mem t' n = mem t n"
            by (simp add: pi m)
        qed
        with True show ?thesis by (simp add: nx)
      next
        case False
        with old have "mem t lC (L2PAGEINDEX va') = mem s (parent_l2 s) (L2PAGEINDEX va')"
          by simp
        with False show ?thesis by (auto simp: nx e)
      qed
    qed
  qed
qed

lemma fork_inv_pages_other:
  assumes pre: "fork_pre cfg newpid s"
    and procs: "fork_inv_procs cfg newpid s pC va t"
    and pages: "fork_inv_pages cfg newpid s pC lC va t"
    and va: "va < MEMSIZE_VIRTUAL cfg"
    and nc: "\<not> page_copied s va"
  shows "fork_inv_pages cfg newpid s pC lC (va + PAGESIZE) t"
  unfolding fork_inv_pages_def
proof (intro allI impI)
  note pf = fork_inv_procs_fields[OF procs]
  fix va' assume u: "user_page cfg va'"
  from pages u have old: "if va' < va \<and> page_copied s va' then fork_copied newpid s pC lC va' t
          else mem t lC (L2PAGEINDEX va') = mem s (parent_l2 s) (L2PAGEINDEX va')"
    by (simp add: fork_inv_pages_def)
  have nx: "(va' < va + PAGESIZE) = (va' < va \<or> va' = va)"
    by (rule next_page[OF pf(4,5) u])
  show "if va' < va + PAGESIZE \<and> page_copied s va' then fork_copied newpid s pC lC va' t
          else mem t lC (L2PAGEINDEX va') = mem s (parent_l2 s) (L2PAGEINDEX va')"
  proof (cases "va' = va")
    case True
    with old nc show ?thesis by simp
  next
    case False
    with old show ?thesis by (simp add: nx)
  qed
qed

lemma only_sharer_fields:
  assumes "only_sharer cfg s va'"
  shows "user_page cfg va'" "page_shared s va'"
    "\<And>va2. user_page cfg va2 \<Longrightarrow> page_shared s va2 \<Longrightarrow> page_frame s va2 = page_frame s va'
       \<Longrightarrow> va2 = va'"
  using assms by (simp_all add: only_sharer_def)

lemma fork_inv_counts_copy:
  assumes pre: "fork_pre cfg newpid s"
    and procs: "fork_inv_procs cfg newpid s pC va t"
    and counts: "fork_inv_counts cfg s va t"
    and pc: "page_copied s va" and fs: "refcount (pageinfo s f) = 0" and fn: "f < NPAGES cfg"
    and pi: "pageinfo t' = (pageinfo t)(f := x)"
  shows "fork_inv_counts cfg s (va + PAGESIZE) t'"
proof -
  note pf = fork_inv_procs_fields[OF procs]
  have 1: "\<forall>va'. only_sharer cfg s va' \<longrightarrow>
          refcount (pageinfo t' (page_frame s va')) =
            refcount (pageinfo s (page_frame s va')) + (if va' < va + PAGESIZE then 1 else 0)"
  proof (intro allI impI)
    fix va' assume o: "only_sharer cfg s va'"
    note of = only_sharer_fields[OF o]
    from of(2) page_copied_perm(3)[OF pc] have ne: "va' \<noteq> va" by auto
    have nx: "(va' < va + PAGESIZE) = (va' < va)"
      using next_page[OF pf(4,5) of(1)] ne by simp
    have "page_frame s va' \<noteq> f"
    proof (cases "page_frame s va' < NPAGES cfg")
      case True
      from page_owned_used[OF pre page_shared_perm(2)[OF of(2)] True] fs show ?thesis by auto
    next
      case False
      with fn show ?thesis by auto
    qed
    then have "pageinfo t' (page_frame s va') = pageinfo t (page_frame s va')"
      by (simp add: pi)
    moreover from counts o have "refcount (pageinfo t (page_frame s va')) =
            refcount (pageinfo s (page_frame s va')) + (if va' < va then 1 else 0)"
      by (simp add: fork_inv_counts_def)
    ultimately show "refcount (pageinfo t' (page_frame s va')) =
            refcount (pageinfo s (page_frame s va')) + (if va' < va + PAGESIZE then 1 else 0)"
      by (simp only: nx)
  qed
  have 2: "\<forall>n. refcount (pageinfo s n) \<noteq> 0
             \<and> (\<forall>va'. user_page cfg va' \<and> page_shared s va' \<longrightarrow> page_frame s va' \<noteq> n)
           \<longrightarrow> pageinfo t' n = pageinfo s n"
  proof (intro allI impI)
    fix n assume n: "refcount (pageinfo s n) \<noteq> 0
             \<and> (\<forall>va'. user_page cfg va' \<and> page_shared s va' \<longrightarrow> page_frame s va' \<noteq> n)"
    with counts have "pageinfo t n = pageinfo s n"
      unfolding fork_inv_counts_def by blast
    moreover from n fs have "n \<noteq> f" by auto
    ultimately show "pageinfo t' n = pageinfo s n" by (simp add: pi)
  qed
  from 1 2 show ?thesis unfolding fork_inv_counts_def by (rule conjI)
qed

lemma fork_inv_counts_share:
  assumes pre: "fork_pre cfg newpid s"
    and procs: "fork_inv_procs cfg newpid s pC va t"
    and counts: "fork_inv_counts cfg s va t"
    and va: "va < MEMSIZE_VIRTUAL cfg"
    and ps: "page_shared s va"
    and pi: "pageinfo t' = (pageinfo t)(page_frame s va := (pageinfo t (page_frame s va))
                        \<lparr>refcount := refcount (pageinfo t (page_frame s va)) + 1\<rparr>)"
  shows "fork_inv_counts cfg s (va + PAGESIZE) t'"
proof -
  note pf = fork_inv_procs_fields[OF procs]
  note a = fork_step_address[OF pre procs va]
  have 1: "\<forall>va'. only_sharer cfg s va' \<longrightarrow>
          refcount (pageinfo t' (page_frame s va')) =
            refcount (pageinfo s (page_frame s va')) + (if va' < va + PAGESIZE then 1 else 0)"
  proof (intro allI impI)
    fix va' assume o: "only_sharer cfg s va'"
    note of = only_sharer_fields[OF o]
    from counts o have old: "refcount (pageinfo t (page_frame s va')) =
            refcount (pageinfo s (page_frame s va')) + (if va' < va then 1 else 0)"
      by (simp add: fork_inv_counts_def)
    show "refcount (pageinfo t' (page_frame s va')) =
            refcount (pageinfo s (page_frame s va')) + (if va' < va + PAGESIZE then 1 else 0)"
    proof (cases "va' = va")
      case True
      have "va < va + PAGESIZE" by simp
      with old True show ?thesis by (simp add: pi)
    next
      case False
      have nx: "(va' < va + PAGESIZE) = (va' < va)"
        using next_page[OF pf(4,5) of(1)] False by simp
      have "page_frame s va' \<noteq> page_frame s va"
      proof
        assume "page_frame s va' = page_frame s va"
        then have "page_frame s va = page_frame s va'" by simp
        from of(3)[OF a(3) ps this] False show False by simp
      qed
      then have "pageinfo t' (page_frame s va') = pageinfo t (page_frame s va')"
        by (simp add: pi)
      with old show ?thesis by (simp only: nx)
    qed
  qed
  have 2: "\<forall>n. refcount (pageinfo s n) \<noteq> 0
             \<and> (\<forall>va'. user_page cfg va' \<and> page_shared s va' \<longrightarrow> page_frame s va' \<noteq> n)
           \<longrightarrow> pageinfo t' n = pageinfo s n"
  proof (intro allI impI)
    fix n assume n: "refcount (pageinfo s n) \<noteq> 0
             \<and> (\<forall>va'. user_page cfg va' \<and> page_shared s va' \<longrightarrow> page_frame s va' \<noteq> n)"
    with counts have "pageinfo t n = pageinfo s n"
      unfolding fork_inv_counts_def by blast
    moreover from n a(3) ps have "page_frame s va \<noteq> n" by blast
    ultimately show "pageinfo t' n = pageinfo s n" by (simp add: pi)
  qed
  from 1 2 show ?thesis unfolding fork_inv_counts_def by (rule conjI)
qed

lemma fork_inv_counts_other:
  assumes procs: "fork_inv_procs cfg newpid s pC va t"
    and counts: "fork_inv_counts cfg s va t"
    and ns: "\<not> page_shared s va"
  shows "fork_inv_counts cfg s (va + PAGESIZE) t"
proof -
  note pf = fork_inv_procs_fields[OF procs]
  have 1: "\<forall>va'. only_sharer cfg s va' \<longrightarrow>
          refcount (pageinfo t (page_frame s va')) =
            refcount (pageinfo s (page_frame s va')) + (if va' < va + PAGESIZE then 1 else 0)"
  proof (intro allI impI)
    fix va' assume o: "only_sharer cfg s va'"
    note of = only_sharer_fields[OF o]
    from of(2) ns have ne: "va' \<noteq> va" by auto
    have nx: "(va' < va + PAGESIZE) = (va' < va)"
      using next_page[OF pf(4,5) of(1)] ne by simp
    from counts o have "refcount (pageinfo t (page_frame s va')) =
            refcount (pageinfo s (page_frame s va')) + (if va' < va then 1 else 0)"
      by (simp add: fork_inv_counts_def)
    then show "refcount (pageinfo t (page_frame s va')) =
            refcount (pageinfo s (page_frame s va')) + (if va' < va + PAGESIZE then 1 else 0)"
      by (simp only: nx)
  qed
  from counts have 2: "\<forall>n. refcount (pageinfo s n) \<noteq> 0
             \<and> (\<forall>va'. user_page cfg va' \<and> page_shared s va' \<longrightarrow> page_frame s va' \<noteq> n)
           \<longrightarrow> pageinfo t n = pageinfo s n"
    by (simp add: fork_inv_counts_def)
  from 1 2 show ?thesis unfolding fork_inv_counts_def by (rule conjI)
qed

lemma fork_inv_step:
  assumes pre: "fork_pre cfg newpid s"
    and inv: "fork_inv cfg newpid s pC lC va t"
    and va: "va < MEMSIZE_VIRTUAL cfg"
    and alloc: "fork_page_copies cfg va t \<longrightarrow> fst (page_alloc_lite cfg (int newpid) t) \<noteq> 0"
    and count: "\<forall>n. fork_page_shares cfg newpid va t = Some n \<longrightarrow>
                  0 < refcount (pageinfo t (nat n)) \<and> refcount (pageinfo t (nat n)) < 127"
    and step: "fork_page cfg newpid va t = Inr t'"
  shows "fork_inv cfg newpid s pC lC (va + PAGESIZE) t'"
proof -
  from inv have procs: "fork_inv_procs cfg newpid s pC va t"
    and frames: "fork_inv_frames newpid s pC lC t"
    and pages: "fork_inv_pages cfg newpid s pC lC va t"
    and counts: "fork_inv_counts cfg s va t"
    by (simp_all add: fork_inv_def)
  show ?thesis
  proof (rule fork_page_step[OF pre procs frames va alloc count step], goal_cases)
    case (1 f)
    note copied = 1
    have a: "fork_inv_procs cfg newpid s pC (va + PAGESIZE) t'"
      by (rule fork_inv_procs_step[OF procs copied(8,9)])
    note fc = fork_inv_frames_copy[OF frames copied(3,6,7)]
    have c: "fork_inv_pages cfg newpid s pC lC (va + PAGESIZE) t'"
      by (rule fork_inv_pages_copy[OF pre procs frames pages va copied(1,2,3,4,6,7)])
    have d: "fork_inv_counts cfg s (va + PAGESIZE) t'"
      by (rule fork_inv_counts_copy[OF pre procs counts copied(1) fc(2) copied(5,6)])
    from a fc(1) c d show ?thesis by (simp add: fork_inv_def)
  next
    case 2
    note shared = 2
    have a: "fork_inv_procs cfg newpid s pC (va + PAGESIZE) t'"
      by (rule fork_inv_procs_step[OF procs shared(6,7)])
    have u: "refcount (pageinfo s (page_frame s va)) \<noteq> 0"
      by (rule page_owned_used[OF pre page_shared_perm(2)[OF shared(1)] shared(2)])
    have b: "fork_inv_frames newpid s pC lC t'"
      by (rule fork_inv_frames_share[OF frames u shared(3,4,5)])
    have c: "fork_inv_pages cfg newpid s pC lC (va + PAGESIZE) t'"
      by (rule fork_inv_pages_share[OF pre procs frames pages va shared(1,2,4,5)])
    have d: "fork_inv_counts cfg s (va + PAGESIZE) t'"
      by (rule fork_inv_counts_share[OF pre procs counts va shared(1,4)])
    from a b c d show ?thesis by (simp add: fork_inv_def)
  next
    case 3
    note other = 3
    have a: "fork_inv_procs cfg newpid s pC (va + PAGESIZE) t"
      by (rule fork_inv_procs_step[OF procs refl refl])
    have c: "fork_inv_pages cfg newpid s pC lC (va + PAGESIZE) t"
      by (rule fork_inv_pages_other[OF pre procs pages va other(1)])
    have d: "fork_inv_counts cfg s (va + PAGESIZE) t"
      by (rule fork_inv_counts_other[OF procs counts other(2)])
    from a frames c d show ?thesis by (simp add: fork_inv_def other(3))
  qed
qed

lemma fork_pages_inv:
  "fork_inv cfg newpid s pC lC va t \<Longrightarrow> fork_allocations_succeed cfg newpid va t \<Longrightarrow>
    fork_counts_in_range cfg newpid va t \<Longrightarrow> fork_pages cfg newpid va t = Inr t' \<Longrightarrow>
    fork_pre cfg newpid s \<Longrightarrow>
    \<exists>ve. MEMSIZE_VIRTUAL cfg \<le> ve \<and> fork_inv cfg newpid s pC lC ve t'"
proof (induction cfg newpid va t rule: fork_pages.induct)
  case (1 cfg newpid va t)
  show ?case
  proof (cases "va < MEMSIZE_VIRTUAL cfg")
    case False
    with "1.prems"(4) have "t' = t" by (subst (asm) fork_pages.simps) simp
    with False "1.prems"(1) show ?thesis by (intro exI[of _ va]) simp
  next
    case True
    with "1.prems"(4) obtain u where u: "fork_page cfg newpid va t = Inr u"
        "fork_pages cfg newpid (va + PAGESIZE) u = Inr t'"
      by (subst (asm) fork_pages.simps) (auto split: sum.splits)
    have "fork_allocations_succeed cfg newpid va t =
            ((if fork_page_copies cfg va t then fst (page_alloc_lite cfg (int newpid) t) \<noteq> 0
              else True)
             \<and> fork_allocations_succeed cfg newpid (va + PAGESIZE) u)"
      by (subst fork_allocations_succeed.simps) (simp add: True u(1))
    with "1.prems"(2)
    have al: "fork_page_copies cfg va t \<longrightarrow> fst (page_alloc_lite cfg (int newpid) t) \<noteq> 0"
      and al': "fork_allocations_succeed cfg newpid (va + PAGESIZE) u"
      by (simp_all split: if_splits)
    have "fork_counts_in_range cfg newpid va t =
            ((case fork_page_shares cfg newpid va t of
                None \<Rightarrow> True
              | Some n \<Rightarrow> 0 < refcount (pageinfo t (nat n)) \<and> refcount (pageinfo t (nat n)) < 127)
             \<and> fork_counts_in_range cfg newpid (va + PAGESIZE) u)"
      by (subst fork_counts_in_range.simps) (simp add: True u(1))
    with "1.prems"(3)
    have ct: "\<forall>n. fork_page_shares cfg newpid va t = Some n \<longrightarrow>
                  0 < refcount (pageinfo t (nat n)) \<and> refcount (pageinfo t (nat n)) < 127"
      and ct': "fork_counts_in_range cfg newpid (va + PAGESIZE) u"
      by (simp_all split: option.splits)
    have "fork_inv cfg newpid s pC lC (va + PAGESIZE) u"
      by (rule fork_inv_step[OF "1.prems"(5) "1.prems"(1) True al ct u(1)])
    from "1.IH"[OF True u(1) this al' ct' u(2) "1.prems"(5)] show ?thesis .
  qed
qed

subsection \<open>The state at the entry of the loop\<close>

lemma copy_pagetable_success:
  assumes ok: "fst (copy_pagetable cfg pt ow s) \<noteq> 0"
  obtains n1 n2 where "n1 < NPAGES cfg" "refcount (pageinfo s n1) = 0"
    "\<forall>j<n1. refcount (pageinfo s j) \<noteq> 0"
    "n2 < NPAGES cfg" "refcount (pageinfo s n2) = 0" "n1 < n2"
    "\<forall>j<n2. j \<noteq> n1 \<longrightarrow> refcount (pageinfo s j) \<noteq> 0" "n1 \<noteq> 0"
proof (cases rule: page_alloc_lite_cases[of cfg s ow])
  case exhausted
  then have "fst (copy_pagetable cfg pt ow s) = 0"
    by (simp add: copy_pagetable_def)
  with ok show ?thesis by simp
next
  case (found n1)
  let ?s1 = "s\<lparr>pageinfo := (pageinfo s)(n1 := \<lparr>owner = int8 ow, refcount = 1\<rparr>)\<rparr>"
  have nz: "n1 \<noteq> 0"
  proof
    assume "n1 = 0"
    then have "fst (copy_pagetable cfg pt ow s) = 0"
      by (simp add: copy_pagetable_def found(4))
    with ok show False by simp
  qed
  show ?thesis
  proof (cases rule: page_alloc_lite_cases[of cfg ?s1 ow])
    case exhausted
    then have "fst (copy_pagetable cfg pt ow s) = 0"
      by (simp add: copy_pagetable_def found(4))
    with ok show ?thesis by simp
  next
    case (found n2)
    note f1 = \<open>n1 < NPAGES cfg\<close> \<open>refcount (pageinfo s n1) = 0\<close>
      \<open>\<forall>j<n1. refcount (pageinfo s j) \<noteq> 0\<close>
    from found(2) have ne: "n2 \<noteq> n1" by (auto split: if_splits)
    with found(2) have r2: "refcount (pageinfo s n2) = 0" by simp
    from f1(3) r2 have "\<not> n2 < n1" by auto
    with ne have lt: "n1 < n2" by simp
    have al: "\<forall>j<n2. j \<noteq> n1 \<longrightarrow> refcount (pageinfo s j) \<noteq> 0"
    proof (intro allI impI)
      fix j assume "j < n2" "j \<noteq> n1"
      with found(3) show "refcount (pageinfo s j) \<noteq> 0" by auto
    qed
    show ?thesis by (rule that[OF f1 found(1) r2 lt al nz])
  qed
qed

lemma fork_clone_entry:
  assumes pre: "fork_pre cfg newpid s"
    and ok: "fst (copy_pagetable cfg (p_pagetable (processes s (current s))) (int newpid) s) \<noteq> 0"
  obtains pC lC where "pC < NPAGES cfg" "lC < NPAGES cfg" "pC \<noteq> lC" "pC \<noteq> 0"
    "refcount (pageinfo s pC) = 0" "refcount (pageinfo s lC) = 0"
    "fst (copy_pagetable cfg (p_pagetable (processes s (current s))) (int newpid) s) = PAGEADDRESS pC"
    "pageinfo (fork_clone cfg newpid s) =
       (pageinfo s)(pC := \<lparr>owner = int8 (int newpid), refcount = 1\<rparr>,
                    lC := \<lparr>owner = int8 (int newpid), refcount = 1\<rparr>)"
    "mem (fork_clone cfg newpid s) =
       (mem s)(pC := (mem s (PAGENUMBER (p_pagetable (processes s (current s)))))
                        (0 := PAGEADDRESS lC OR PTE_P OR PTE_W OR PTE_U),
               lC := mem s (parent_l2 s))"
proof -
  let ?P = "p_pagetable (processes s (current s))"
  from ok obtain n1 n2 where n: "n1 < NPAGES cfg" "refcount (pageinfo s n1) = 0"
    "\<forall>j<n1. refcount (pageinfo s j) \<noteq> 0"
    "n2 < NPAGES cfg" "refcount (pageinfo s n2) = 0" "n1 < n2"
    "\<forall>j<n2. j \<noteq> n1 \<longrightarrow> refcount (pageinfo s j) \<noteq> 0" "n1 \<noteq> 0"
    by (rule copy_pagetable_success)
  note pf = fork_pre_fields[OF pre]
  note c = copy_pagetable_two_free[OF n(1,2,3,4,5,6,7,8) pf(5), of "int newpid"]
  from pf(6) n(2) have p1: "PAGENUMBER ?P \<noteq> n1" by auto
  from pf(8) n(2) have l1: "parent_l2 s \<noteq> n1" by auto
  have e0: "((mem s)(n1 := (mem s (PAGENUMBER ?P))(0 := PAGEADDRESS n2 OR PTE_P OR PTE_W OR PTE_U)))
              (PAGENUMBER ?P) 0 = mem s (PAGENUMBER ?P) 0"
    using p1 by simp
  have src: "((mem s)(n1 := (mem s (PAGENUMBER ?P))(0 := PAGEADDRESS n2 OR PTE_P OR PTE_W OR PTE_U)))
              (PAGENUMBER (PTE_ADDR (mem s (PAGENUMBER ?P) 0))) = mem s (parent_l2 s)"
    using l1 by (simp add: parent_l2_def)
  have m: "mem (snd (copy_pagetable cfg ?P (int newpid) s)) =
       (mem s)(n1 := (mem s (PAGENUMBER ?P))(0 := PAGEADDRESS n2 OR PTE_P OR PTE_W OR PTE_U),
               n2 := mem s (parent_l2 s))"
    unfolding c by (simp only: snd_conv e0 src) simp
  have pi: "pageinfo (snd (copy_pagetable cfg ?P (int newpid) s)) =
       (pageinfo s)(n1 := \<lparr>owner = int8 (int newpid), refcount = 1\<rparr>,
                    n2 := \<lparr>owner = int8 (int newpid), refcount = 1\<rparr>)"
    unfolding c by simp
  have r: "fst (copy_pagetable cfg ?P (int newpid) s) = PAGEADDRESS n1"
    unfolding c by simp
  from n(6) have ne: "n1 \<noteq> n2" by simp
  show ?thesis
    by (rule that[OF n(1) n(4) ne n(8) n(2) n(5) r])
       (simp_all only: fork_clone_frames pi m)
qed

lemma fork_clone_inv:
  assumes pre: "fork_pre cfg newpid s"
    and ok: "fst (copy_pagetable cfg (p_pagetable (processes s (current s))) (int newpid) s) \<noteq> 0"
  obtains pC lC where "pC \<noteq> 0"
    "fork_inv cfg newpid s pC lC (PROC_START_ADDR cfg) (fork_clone cfg newpid s)"
proof -
  let ?P = "p_pagetable (processes s (current s))"
  let ?t = "fork_clone cfg newpid s"
  note pf = fork_pre_fields[OF pre]
  from pre ok obtain pC lC where e: "pC < NPAGES cfg" "lC < NPAGES cfg" "pC \<noteq> lC" "pC \<noteq> 0"
    "refcount (pageinfo s pC) = 0" "refcount (pageinfo s lC) = 0"
    "fst (copy_pagetable cfg ?P (int newpid) s) = PAGEADDRESS pC"
    "pageinfo ?t =
       (pageinfo s)(pC := \<lparr>owner = int8 (int newpid), refcount = 1\<rparr>,
                    lC := \<lparr>owner = int8 (int newpid), refcount = 1\<rparr>)"
    "mem ?t =
       (mem s)(pC := (mem s (PAGENUMBER ?P))(0 := PAGEADDRESS lC OR PTE_P OR PTE_W OR PTE_U),
               lC := mem s (parent_l2 s))"
    by (rule fork_clone_entry)
  have procs: "fork_inv_procs cfg newpid s pC (PROC_START_ADDR cfg) ?t"
    using pf(2) e(7) by (simp add: fork_inv_procs_def)
  have frames: "fork_inv_frames newpid s pC lC ?t"
    unfolding fork_inv_frames_def e(8,9)
    using e(3,5,6) by auto
  have pages: "fork_inv_pages cfg newpid s pC lC (PROC_START_ADDR cfg) ?t"
    unfolding fork_inv_pages_def e(9)
    by (auto simp: user_page_def)
  have out: "page_frame s va' \<noteq> pC \<and> page_frame s va' \<noteq> lC" if o: "page_owned s va'" for va'
  proof (cases "page_frame s va' < NPAGES cfg")
    case True
    from page_owned_used[OF pre o True] e(5,6) show ?thesis by auto
  next
    case False
    with e(1,2) show ?thesis by auto
  qed
  have counts: "fork_inv_counts cfg s (PROC_START_ADDR cfg) ?t"
    unfolding fork_inv_counts_def
  proof (intro conjI allI impI)
    fix va' assume o: "only_sharer cfg s va'"
    note of = only_sharer_fields[OF o]
    from of(1) have "\<not> va' < PROC_START_ADDR cfg" by (simp add: user_page_def)
    moreover from out[OF page_shared_perm(2)[OF of(2)]]
    have "pageinfo ?t (page_frame s va') = pageinfo s (page_frame s va')"
      by (simp add: e(8))
    ultimately show "refcount (pageinfo ?t (page_frame s va')) =
            refcount (pageinfo s (page_frame s va'))
              + (if va' < PROC_START_ADDR cfg then 1 else 0)"
      by simp
  next
    fix n assume "refcount (pageinfo s n) \<noteq> 0
             \<and> (\<forall>va'. user_page cfg va' \<and> page_shared s va' \<longrightarrow> page_frame s va' \<noteq> n)"
    with e(5,6) have "n \<noteq> pC" "n \<noteq> lC" by auto
    then show "pageinfo ?t n = pageinfo s n" by (simp add: e(8))
  qed
  from procs frames pages counts
  have "fork_inv cfg newpid s pC lC (PROC_START_ADDR cfg) ?t" by (simp add: fork_inv_def)
  with e(4) show ?thesis by (rule that)
qed

subsection \<open>The state after the fork\<close>

lemma fork_result:
  assumes free: "1 \<le> newpid" "newpid < NPROC cfg" "p_state (processes s newpid) = P_FREE"
      "\<forall>j. 1 \<le> j \<and> j < newpid \<longrightarrow> p_state (processes s j) \<noteq> P_FREE"
    and pre: "fork_pre cfg newpid s"
    and al: "fork_allocations_succeed cfg newpid (PROC_START_ADDR cfg) (fork_clone cfg newpid s)"
    and ct: "fork_counts_in_range cfg newpid (PROC_START_ADDR cfg) (fork_clone cfg newpid s)"
    and fork: "sys_fork cfg s = Inr s'"
    and ok: "p_pagetable (processes s' newpid) \<noteq> 0"
  obtains pC lC ve t where "MEMSIZE_VIRTUAL cfg \<le> ve" "fork_inv cfg newpid s pC lC ve t"
    "s' = fork_registers newpid t" "pC \<noteq> 0"
proof -
  from fork have "fork_child cfg newpid s = Inr s'"
    by (simp add: sys_fork_first_free[OF free])
  then obtain t where t: "fork_pages cfg newpid (PROC_START_ADDR cfg) (fork_clone cfg newpid s) = Inr t"
    "s' = fork_registers newpid t" "processes t = processes (fork_clone cfg newpid s)"
    "current t = current s"
    by (rule fork_child_result)
  have "p_pagetable (processes s' newpid) =
          fst (copy_pagetable cfg (p_pagetable (processes s (current s))) (int newpid) s)"
    by (simp only: t(2) fork_registers_fields(6) t(3) fork_clone_child(2))
  with ok have ok': "fst (copy_pagetable cfg (p_pagetable (processes s (current s))) (int newpid) s) \<noteq> 0"
    by simp
  from pre ok' obtain pC lC where c: "pC \<noteq> 0"
    "fork_inv cfg newpid s pC lC (PROC_START_ADDR cfg) (fork_clone cfg newpid s)"
    by (rule fork_clone_inv)
  from fork_pages_inv[OF c(2) al ct t(1) pre]
  obtain ve where "MEMSIZE_VIRTUAL cfg \<le> ve" "fork_inv cfg newpid s pC lC ve t" by blast
  then show ?thesis using t(2) c(1) by (rule that)
qed

lemma fork_inv_parent_mapping:
  assumes pre: "fork_pre cfg newpid s"
    and procs: "fork_inv_procs cfg newpid s pC ve t"
    and frames: "fork_inv_frames newpid s pC lC t"
    and u: "user_page cfg va"
  shows "parent_mapping (fork_registers newpid t) va = parent_mapping s va"
proof -
  note tb = fork_step_tables[OF pre procs frames]
  note a = user_page_address[OF pre u]
  have "parent_mapping (fork_registers newpid t) va =
          virtual_memory_lookup (mem t) (p_pagetable (processes t (current t))) va"
    by (simp add: parent_mapping_def)
  also have "\<dots> = virtual_memory_lookup (mem t) (p_pagetable (processes s (current s))) va"
    by (simp only: tb(1))
  also have "\<dots> = parent_mapping s va"
    by (rule parent_lookup_frame[OF pre a(2) tb(2,3)])
  finally show ?thesis .
qed

lemma fork_inv_child_mapping:
  assumes pre: "fork_pre cfg newpid s"
    and procs: "fork_inv_procs cfg newpid s pC ve t"
    and frames: "fork_inv_frames newpid s pC lC t"
    and u: "user_page cfg va"
  shows "child_mapping newpid (fork_registers newpid t) va =
     (if mem t lC (L2PAGEINDEX va) AND PTE_P \<noteq> 0
      then \<lparr>vam_pn = int (PAGENUMBER (mem t lC (L2PAGEINDEX va))),
            vam_pa = PTE_ADDR (mem t lC (L2PAGEINDEX va)),
            vam_perm = PTE_FLAGS (mem t lC (L2PAGEINDEX va))\<rparr>
      else \<lparr>vam_pn = - 1, vam_pa = 2 ^ 32 - 1, vam_perm = 0\<rparr>)"
proof -
  note a = user_page_address[OF pre u]
  have c: "p_pagetable (processes t newpid) = PAGEADDRESS pC"
    by (rule fork_inv_procs_fields(3)[OF procs])
  have e: "mem t (PAGENUMBER (PAGEADDRESS pC)) 0 = PAGEADDRESS lC OR PTE_P OR PTE_W OR PTE_U"
    using fork_inv_frames_fields(6)[OF frames] by simp
  have p: "mem t (PAGENUMBER (PAGEADDRESS pC)) 0 AND PTE_P \<noteq> 0"
    unfolding e by (rule table_entry(2))
  have n: "PAGENUMBER (mem t (PAGENUMBER (PAGEADDRESS pC)) 0) = lC"
    unfolding e by (rule table_entry(1))
  have "child_mapping newpid (fork_registers newpid t) va =
          virtual_memory_lookup (mem t) (PAGEADDRESS pC) va"
    by (simp add: child_mapping_def c)
  also have "\<dots> =
     (if mem t (PAGENUMBER (mem t (PAGENUMBER (PAGEADDRESS pC)) 0)) (L2PAGEINDEX va) AND PTE_P \<noteq> 0
      then \<lparr>vam_pn = int (PAGENUMBER (mem t (PAGENUMBER (mem t (PAGENUMBER (PAGEADDRESS pC)) 0)) (L2PAGEINDEX va))),
            vam_pa = PTE_ADDR (mem t (PAGENUMBER (mem t (PAGENUMBER (PAGEADDRESS pC)) 0)) (L2PAGEINDEX va)) + va mod PAGESIZE,
            vam_perm = PTE_FLAGS (mem t (PAGENUMBER (mem t (PAGENUMBER (PAGEADDRESS pC)) 0)) (L2PAGEINDEX va))\<rparr>
      else \<lparr>vam_pn = - 1, vam_pa = 2 ^ 32 - 1, vam_perm = 0\<rparr>)"
    using a(2) p by (rule lookup_l2[of va "mem t" "PAGEADDRESS pC"])
  finally show ?thesis by (simp only: n a(1) add_0_right)
qed

lemma fork_inv_inherited:
  assumes pre: "fork_pre cfg newpid s"
    and procs: "fork_inv_procs cfg newpid s pC ve t"
    and frames: "fork_inv_frames newpid s pC lC t"
    and u: "user_page cfg va"
    and e: "mem t lC (L2PAGEINDEX va) = mem s (parent_l2 s) (L2PAGEINDEX va)"
  shows "child_mapping newpid (fork_registers newpid t) va = parent_mapping s va"
proof -
  let ?P = "p_pagetable (processes s (current s))"
  note a = user_page_address[OF pre u]
  have p: "mem s (PAGENUMBER ?P) 0 AND PTE_P \<noteq> 0" by (rule fork_pre_fields(7)[OF pre])
  have "parent_mapping s va =
     (if mem s (PAGENUMBER (mem s (PAGENUMBER ?P) 0)) (L2PAGEINDEX va) AND PTE_P \<noteq> 0
      then \<lparr>vam_pn = int (PAGENUMBER (mem s (PAGENUMBER (mem s (PAGENUMBER ?P) 0)) (L2PAGEINDEX va))),
            vam_pa = PTE_ADDR (mem s (PAGENUMBER (mem s (PAGENUMBER ?P) 0)) (L2PAGEINDEX va)) + va mod PAGESIZE,
            vam_perm = PTE_FLAGS (mem s (PAGENUMBER (mem s (PAGENUMBER ?P) 0)) (L2PAGEINDEX va))\<rparr>
      else \<lparr>vam_pn = - 1, vam_pa = 2 ^ 32 - 1, vam_perm = 0\<rparr>)"
    unfolding parent_mapping_def using a(2) p by (rule lookup_l2[of va "mem s" ?P])
  then have "parent_mapping s va =
     (if mem s (parent_l2 s) (L2PAGEINDEX va) AND PTE_P \<noteq> 0
      then \<lparr>vam_pn = int (PAGENUMBER (mem s (parent_l2 s) (L2PAGEINDEX va))),
            vam_pa = PTE_ADDR (mem s (parent_l2 s) (L2PAGEINDEX va)),
            vam_perm = PTE_FLAGS (mem s (parent_l2 s) (L2PAGEINDEX va))\<rparr>
      else \<lparr>vam_pn = - 1, vam_pa = 2 ^ 32 - 1, vam_perm = 0\<rparr>)"
    by (simp only: parent_l2_def[symmetric] a(1) add_0_right)
  then show ?thesis
    by (simp only: fork_inv_child_mapping[OF pre procs frames u] e)
qed

lemma fork_inv_copy:
  assumes pre: "fork_pre cfg newpid s"
    and procs: "fork_inv_procs cfg newpid s pC ve t"
    and frames: "fork_inv_frames newpid s pC lC t"
    and u: "user_page cfg va"
    and pc: "page_copied s va"
    and c: "fork_copied newpid s pC lC va t"
  shows "child_mapping newpid (fork_registers newpid t) va =
           \<lparr>vam_pn = int (PAGENUMBER (mem t lC (L2PAGEINDEX va))),
            vam_pa = PAGEADDRESS (PAGENUMBER (mem t lC (L2PAGEINDEX va))),
            vam_perm = vam_perm (parent_mapping s va)\<rparr>"
proof -
  let ?pe = "mem t lC (L2PAGEINDEX va)"
  let ?f = "PAGENUMBER ?pe"
  let ?perm = "vam_perm (parent_mapping s va)"
  note cp = page_copied_perm[OF pc]
  note parts = parent_mapping_parts[OF pre u cp(1)]
  from c have pe: "?pe = PAGEADDRESS ?f OR ?perm" by (simp add: fork_copied_def Let_def)
  have al: "PAGEADDRESS ?f mod PAGESIZE = 0" by simp
  note ep = entry_parts[OF al parts(4)]
  have 1: "?pe AND PTE_P \<noteq> 0"
    using parts(5) ep(4) pe by simp
  have 2: "PTE_ADDR ?pe = PAGEADDRESS ?f" using ep(2) pe by simp
  have 3: "PTE_FLAGS ?pe = ?perm" using ep(3) pe by simp
  show ?thesis
    by (simp only: fork_inv_child_mapping[OF pre procs frames u] 1 2 3) simp
qed

text \<open>
  Claim C2, amended. Take a fork that returns, whose clone of the page table succeeded,
  whose allocations all returned a frame and whose incremented counts were positive and
  below 127, from a state that satisfies \<open>fork_pre\<close>; and a page \<open>va\<close> the loop visits. The
  caller's mapping of \<open>va\<close> is unchanged. If the caller owns the frame and may write it, the
  child maps \<open>va\<close> with the same permissions to a frame that was free before the fork, is
  now the child's with count 1, and holds the contents of the caller's page, which are
  unchanged. Otherwise the child's mapping of \<open>va\<close> is the caller's: it is the same frame
  with the same permissions when the caller owns the frame and may not write it, and also
  when the caller does not own the frame. The count of a frame that exactly one page of
  the caller shares is then 1 more than before, and the record of a referenced frame that
  no page shares is unchanged.
\<close>

theorem fork_copies_or_keeps_each_page:
  assumes "1 \<le> newpid" "newpid < NPROC cfg" "p_state (processes s newpid) = P_FREE"
      "\<forall>j. 1 \<le> j \<and> j < newpid \<longrightarrow> p_state (processes s j) \<noteq> P_FREE"
    and "fork_pre cfg newpid s"
    and "fork_allocations_succeed cfg newpid (PROC_START_ADDR cfg) (fork_clone cfg newpid s)"
    and "fork_counts_in_range cfg newpid (PROC_START_ADDR cfg) (fork_clone cfg newpid s)"
    and "sys_fork cfg s = Inr s'"
    and "p_pagetable (processes s' newpid) \<noteq> 0"
    and "user_page cfg va"
  shows "parent_mapping s' va = parent_mapping s va
    \<and> (if page_copied s va
        then (let f = nat (vam_pn (child_mapping newpid s' va))
              in child_mapping newpid s' va =
                   \<lparr>vam_pn = int f, vam_pa = PAGEADDRESS f,
                    vam_perm = vam_perm (parent_mapping s va)\<rparr>
                 \<and> f \<noteq> 0
                 \<and> refcount (pageinfo s f) = 0
                 \<and> pageinfo s' f = \<lparr>owner = int8 (int newpid), refcount = 1\<rparr>
                 \<and> mem s' f = mem s (page_frame s va)
                 \<and> mem s' (page_frame s va) = mem s (page_frame s va))
        else child_mapping newpid s' va = parent_mapping s va)
    \<and> (only_sharer cfg s va \<longrightarrow>
          refcount (pageinfo s' (page_frame s va)) = refcount (pageinfo s (page_frame s va)) + 1)
    \<and> (\<forall>n. refcount (pageinfo s n) \<noteq> 0
           \<and> (\<forall>va'. user_page cfg va' \<and> page_shared s va' \<longrightarrow> page_frame s va' \<noteq> n)
         \<longrightarrow> pageinfo s' n = pageinfo s n)"
proof -
  note pre = assms(5) and u = assms(10)
  from assms(1-9) obtain pC lC ve t where r: "MEMSIZE_VIRTUAL cfg \<le> ve"
    "fork_inv cfg newpid s pC lC ve t" "s' = fork_registers newpid t" "pC \<noteq> 0"
    by (rule fork_result)
  from r(2) have procs: "fork_inv_procs cfg newpid s pC ve t"
    and frames: "fork_inv_frames newpid s pC lC t"
    and pages: "fork_inv_pages cfg newpid s pC lC ve t"
    and counts: "fork_inv_counts cfg s ve t"
    by (simp_all add: fork_inv_def)
  from u r(1) have lt: "va < ve" by (simp add: user_page_def)
  have 1: "parent_mapping s' va = parent_mapping s va"
    unfolding r(3) by (rule fork_inv_parent_mapping[OF pre procs frames u])
  from pages u have pg: "if va < ve \<and> page_copied s va then fork_copied newpid s pC lC va t
         else mem t lC (L2PAGEINDEX va) = mem s (parent_l2 s) (L2PAGEINDEX va)"
    by (simp add: fork_inv_pages_def)
  have 2: "if page_copied s va
        then (let f = nat (vam_pn (child_mapping newpid s' va))
              in child_mapping newpid s' va =
                   \<lparr>vam_pn = int f, vam_pa = PAGEADDRESS f,
                    vam_perm = vam_perm (parent_mapping s va)\<rparr>
                 \<and> f \<noteq> 0
                 \<and> refcount (pageinfo s f) = 0
                 \<and> pageinfo s' f = \<lparr>owner = int8 (int newpid), refcount = 1\<rparr>
                 \<and> mem s' f = mem s (page_frame s va)
                 \<and> mem s' (page_frame s va) = mem s (page_frame s va))
        else child_mapping newpid s' va = parent_mapping s va"
  proof (cases "page_copied s va")
    case True
    with pg lt have c: "fork_copied newpid s pC lC va t" by simp
    let ?f = "PAGENUMBER (mem t lC (L2PAGEINDEX va))"
    have cm: "child_mapping newpid s' va =
           \<lparr>vam_pn = int ?f, vam_pa = PAGEADDRESS ?f, vam_perm = vam_perm (parent_mapping s va)\<rparr>"
      unfolding r(3) by (rule fork_inv_copy[OF pre procs frames u True c])
    then have f: "nat (vam_pn (child_mapping newpid s' va)) = ?f" by simp
    from c have cf: "?f \<noteq> 0" "refcount (pageinfo s ?f) = 0"
      "pageinfo t ?f = \<lparr>owner = int8 (int newpid), refcount = 1\<rparr>"
      "mem t ?f = mem s (page_frame s va)"
      by (simp_all add: fork_copied_def Let_def)
    from c have used: "refcount (pageinfo s (page_frame s va)) \<noteq> 0"
      by (simp add: fork_copied_def Let_def)
    have pm: "mem t (page_frame s va) = mem s (page_frame s va)"
      by (rule fork_inv_frames_used(3)[OF frames used])
    show ?thesis
      using True cm cf pm by (simp add: Let_def r(3))
  next
    case False
    with pg have "mem t lC (L2PAGEINDEX va) = mem s (parent_l2 s) (L2PAGEINDEX va)" by simp
    from fork_inv_inherited[OF pre procs frames u this] False
    show ?thesis by (simp add: r(3))
  qed
  have 3: "only_sharer cfg s va \<longrightarrow>
          refcount (pageinfo s' (page_frame s va)) = refcount (pageinfo s (page_frame s va)) + 1"
  proof
    assume "only_sharer cfg s va"
    with counts lt show "refcount (pageinfo s' (page_frame s va)) =
        refcount (pageinfo s (page_frame s va)) + 1"
      by (simp add: fork_inv_counts_def r(3))
  qed
  from counts have 4: "\<forall>n. refcount (pageinfo s n) \<noteq> 0
           \<and> (\<forall>va'. user_page cfg va' \<and> page_shared s va' \<longrightarrow> page_frame s va' \<noteq> n)
         \<longrightarrow> pageinfo s' n = pageinfo s n"
    by (simp add: fork_inv_counts_def r(3))
  from 1 2 3 4 show ?thesis by (intro conjI)
qed

subsection \<open>The fork that copies one page, shares one and inherits one\<close>

lemma fork_state_pre: "fork_pre fork_config 2 fork_state"
proof -
  have 1: "(2::nat) \<noteq> current fork_state" "p_pid (processes fork_state (current fork_state)) \<noteq> 0"
    "int8 (int 2) \<noteq> int (p_pid (processes fork_state (current fork_state)))"
    "p_pagetable (processes fork_state (current fork_state)) = 0x4000"
    by (simp_all add: fork_state_def proc_in_def int8_def)
  have 2: "refcount (pageinfo fork_state 4) \<noteq> 0" "mem fork_state 4 0 = 0x5007"
    "refcount (pageinfo fork_state 5) \<noteq> 0"
    by (simp_all add: fork_state_def frame_table_def)
  have 3: "MEMSIZE_VIRTUAL fork_config \<le> PAGESIZE * PAGETABLE_NENTRIES"
    "PROC_START_ADDR fork_config mod PAGESIZE = 0"
    by (simp_all add: fork_config_fields PAGESIZE_def PAGETABLE_NENTRIES_def)
  show ?thesis
    unfolding fork_pre_def Let_def 1(4)
    using fork_state_inv 1(1,2,3) 2 3 by (simp add: layout_values)
qed

lemma fork_state_mappings:
  "parent_mapping fork_state 0x4000 = \<lparr>vam_pn = 6, vam_pa = 0x6000, vam_perm = 7\<rparr>"
  "parent_mapping fork_state 0x5000 = \<lparr>vam_pn = 7, vam_pa = 0x7000, vam_perm = 5\<rparr>"
  "parent_mapping fork_state 0x6000 = \<lparr>vam_pn = 9, vam_pa = 0x9000, vam_perm = 5\<rparr>"
proof -
  have p: "p_pagetable (processes fork_state (current fork_state)) = 0x4000"
    by (simp add: fork_state_def proc_in_def)
  have m: "mem fork_state 4 0 = 0x5007" "mem fork_state 5 4 = 0x6007"
    "mem fork_state 5 5 = 0x7005" "mem fork_state 5 6 = 0x9005"
    by (simp_all add: fork_state_def)
  show "parent_mapping fork_state 0x4000 = \<lparr>vam_pn = 6, vam_pa = 0x6000, vam_perm = 7\<rparr>"
    "parent_mapping fork_state 0x5000 = \<lparr>vam_pn = 7, vam_pa = 0x7000, vam_perm = 5\<rparr>"
    "parent_mapping fork_state 0x6000 = \<lparr>vam_pn = 9, vam_pa = 0x9000, vam_perm = 5\<rparr>"
    by (simp_all add: parent_mapping_def p virtual_memory_lookup_def Let_def layout_values m)
qed

lemma fork_state_pages_kinds:
  "page_copied fork_state 0x4000" "page_shared fork_state 0x5000"
  "\<not> page_copied fork_state 0x5000"
  "\<not> page_owned fork_state 0x6000" "\<not> page_copied fork_state 0x6000"
  "\<not> page_shared fork_state 0x6000" "\<not> page_shared fork_state 0x4000"
  "page_frame fork_state 0x4000 = 6" "page_frame fork_state 0x5000 = 7"
  "page_frame fork_state 0x6000 = 9"
proof -
  have p: "p_pid (processes fork_state (current fork_state)) = 1"
    by (simp add: fork_state_def proc_in_def)
  have o: "owner (pageinfo fork_state 6) = 1" "owner (pageinfo fork_state 7) = 1"
    "owner (pageinfo fork_state 9) = - 2"
    by (simp_all add: fork_state_def frame_table_def)
  show f: "page_frame fork_state 0x4000 = 6" "page_frame fork_state 0x5000 = 7"
    "page_frame fork_state 0x6000 = 9"
    by (simp_all add: page_frame_def fork_state_mappings)
  show "page_copied fork_state 0x4000" "page_shared fork_state 0x5000"
    "\<not> page_copied fork_state 0x5000"
    "\<not> page_owned fork_state 0x6000" "\<not> page_copied fork_state 0x6000"
    "\<not> page_shared fork_state 0x6000" "\<not> page_shared fork_state 0x4000"
    by (simp_all add: page_copied_def page_shared_def page_owned_def f p o fork_state_mappings
          layout_values)
qed

lemma fork_config_user_pages:
  "user_page fork_config va = (va = 0x4000 \<or> va = 0x5000 \<or> va = 0x6000)"
proof
  assume "user_page fork_config va"
  then have u: "0x4000 \<le> va" "va < 0x7000" "(va - 0x4000) mod PAGESIZE = 0"
    by (simp_all add: user_page_def fork_config_fields)
  from u(3) obtain k where "va - 0x4000 = PAGESIZE * k"
    by (auto simp: mod_eq_0_iff_dvd elim!: dvdE)
  with u(1) have k: "va = 0x4000 + 4096 * k" by (simp add: PAGESIZE_def)
  with u(2) have "k < 3" by simp
  then have "k = 0 \<or> k = 1 \<or> k = 2" by arith
  with k show "va = 0x4000 \<or> va = 0x5000 \<or> va = 0x6000" by auto
next
  assume "va = 0x4000 \<or> va = 0x5000 \<or> va = 0x6000"
  then show "user_page fork_config va"
    by (auto simp: user_page_def fork_config_fields PAGESIZE_def)
qed

lemma fork_state_only_sharer: "only_sharer fork_config fork_state 0x5000"
  unfolding only_sharer_def fork_config_user_pages
  using fork_state_pages_kinds by auto

lemma fork_state_allocations:
  "fork_allocations_succeed fork_config 2 (PROC_START_ADDR fork_config)
     (fork_clone fork_config 2 fork_state)"
proof -
  have a1: "fst (page_alloc_lite fork_config (int 2) fork_entry) \<noteq> 0"
    using fork_entry_alloc by simp
  have c2: "\<not> fork_page_copies fork_config 0x5000 fork_after_copy"
    by (simp add: fork_page_copies_def Let_def fork_after_copy_fields fork_after_copy_lookups
          layout_values)
  have l3: "virtual_memory_lookup (mem fork_exit) 0x4000 0x6000 =
              \<lparr>vam_pn = 9, vam_pa = 0x9000, vam_perm = 5\<rparr>"
    by (simp add: virtual_memory_lookup_def Let_def layout_values fork_exit_fields fork_state_def)
  have c3: "\<not> fork_page_copies fork_config 0x6000 fork_exit"
    by (simp add: fork_page_copies_def Let_def fork_exit_fields l3 layout_values)
  have 4: "fork_allocations_succeed fork_config 2 0x7000 fork_exit"
    by (subst fork_allocations_succeed.simps) (simp add: fork_config_fields)
  have 3: "fork_allocations_succeed fork_config 2 0x6000 fork_exit"
    by (subst fork_allocations_succeed.simps)
       (simp add: fork_config_fields c3 fork_third_page PAGESIZE_def 4)
  have 2: "fork_allocations_succeed fork_config 2 0x5000 fork_after_copy"
    by (subst fork_allocations_succeed.simps)
       (simp add: fork_config_fields c2 fork_second_page PAGESIZE_def 3)
  have 1: "fork_allocations_succeed fork_config 2 0x4000 fork_entry"
    by (subst fork_allocations_succeed.simps)
       (use a1 in \<open>simp add: fork_config_fields fork_first_page PAGESIZE_def 2\<close>)
  then show ?thesis by (simp add: fork_config_fields fork_entry_def)
qed

lemma fork_exit_child_mappings:
  "child_mapping 2 (fork_registers 2 fork_exit) 0x4000 = \<lparr>vam_pn = 8, vam_pa = 0x8000, vam_perm = 7\<rparr>"
  "child_mapping 2 (fork_registers 2 fork_exit) 0x5000 = \<lparr>vam_pn = 7, vam_pa = 0x7000, vam_perm = 5\<rparr>"
  "child_mapping 2 (fork_registers 2 fork_exit) 0x6000 = \<lparr>vam_pn = 9, vam_pa = 0x9000, vam_perm = 5\<rparr>"
proof -
  have m: "mem fork_exit 2 0 = 0x3007" "mem fork_exit 3 4 = 0x8007"
    "mem fork_exit 3 5 = 0x7005" "mem fork_exit 3 6 = 0x9005"
    by (simp_all add: fork_exit_def fork_after_copy_def fork_entry_fields fork_state_def)
  show "child_mapping 2 (fork_registers 2 fork_exit) 0x4000 = \<lparr>vam_pn = 8, vam_pa = 0x8000, vam_perm = 7\<rparr>"
    "child_mapping 2 (fork_registers 2 fork_exit) 0x5000 = \<lparr>vam_pn = 7, vam_pa = 0x7000, vam_perm = 5\<rparr>"
    "child_mapping 2 (fork_registers 2 fork_exit) 0x6000 = \<lparr>vam_pn = 9, vam_pa = 0x9000, vam_perm = 5\<rparr>"
    by (simp_all add: child_mapping_def fork_exit_fields(1) virtual_memory_lookup_def Let_def
          layout_values m)
qed

theorem fork_copies_or_keeps_each_page_witness:
  "fork_pre fork_config 2 fork_state
   \<and> sys_fork fork_config fork_state = Inr (fork_registers 2 fork_exit)
   \<and> page_copied fork_state 0x4000
   \<and> parent_mapping fork_state 0x4000 = \<lparr>vam_pn = 6, vam_pa = 0x6000, vam_perm = 7\<rparr>
   \<and> child_mapping 2 (fork_registers 2 fork_exit) 0x4000 =
        \<lparr>vam_pn = 8, vam_pa = 0x8000, vam_perm = 7\<rparr>
   \<and> refcount (pageinfo fork_state 8) = 0
   \<and> pageinfo (fork_registers 2 fork_exit) 8 = \<lparr>owner = 2, refcount = 1\<rparr>
   \<and> mem (fork_registers 2 fork_exit) 8 = mem fork_state 6
   \<and> only_sharer fork_config fork_state 0x5000
   \<and> parent_mapping fork_state 0x5000 = \<lparr>vam_pn = 7, vam_pa = 0x7000, vam_perm = 5\<rparr>
   \<and> child_mapping 2 (fork_registers 2 fork_exit) 0x5000 =
        \<lparr>vam_pn = 7, vam_pa = 0x7000, vam_perm = 5\<rparr>
   \<and> refcount (pageinfo fork_state 7) = 1
   \<and> refcount (pageinfo (fork_registers 2 fork_exit) 7) = 2"
proof -
  let ?s' = "fork_registers 2 fork_exit"
  have ok: "p_pagetable (processes ?s' 2) \<noteq> 0"
    by (simp add: fork_exit_fields)
  have u: "user_page fork_config 0x4000" "user_page fork_config 0x5000"
    by (simp_all add: fork_config_user_pages)
  have ct: "fork_counts_in_range fork_config 2 (PROC_START_ADDR fork_config)
              (fork_clone fork_config 2 fork_state)"
    using fork_state_counts by (simp add: fork_entry_def)
  note t4 = fork_copies_or_keeps_each_page[OF fork_state_first_free fork_state_pre
      fork_state_allocations ct fork_state_fork ok u(1)]
  note t5 = fork_copies_or_keeps_each_page[OF fork_state_first_free fork_state_pre
      fork_state_allocations ct fork_state_fork ok u(2)]
  have r: "refcount (pageinfo fork_state 8) = 0" "refcount (pageinfo fork_state 7) = 1"
    by (simp_all add: fork_state_def frame_table_def)
  from t4 have c: "pageinfo ?s' 8 = \<lparr>owner = int8 (int 2), refcount = 1\<rparr>"
    "mem ?s' 8 = mem fork_state 6"
    by (simp_all add: fork_state_pages_kinds fork_exit_child_mappings Let_def)
  then have c': "pageinfo ?s' 8 = \<lparr>owner = 2, refcount = 1\<rparr>" by (simp add: int8_def)
  from t5 fork_state_only_sharer have "refcount (pageinfo ?s' 7) = refcount (pageinfo fork_state 7) + 1"
    by (simp add: fork_state_pages_kinds)
  with r have s: "refcount (pageinfo ?s' 7) = 2" by simp
  from fork_state_pre fork_state_fork fork_state_pages_kinds(1) fork_state_mappings(1,2)
    fork_exit_child_mappings(1,2) r c' c(2) fork_state_only_sharer s
  show ?thesis by (intro conjI)
qed

theorem fork_keeps_unowned_mapping_counterexample:
  "user_page fork_config 0x6000
   \<and> parent_mapping fork_state 0x6000 = \<lparr>vam_pn = 9, vam_pa = 0x9000, vam_perm = 5\<rparr>
   \<and> owner (pageinfo fork_state 9) = PO_KERNEL
   \<and> p_pid (processes fork_state (current fork_state)) = 1
   \<and> \<not> page_owned fork_state 0x6000
   \<and> vam_perm (child_mapping 2 fork_state 0x6000) = 0
   \<and> sys_fork fork_config fork_state = Inr (fork_registers 2 fork_exit)
   \<and> child_mapping 2 (fork_registers 2 fork_exit) 0x6000 =
        \<lparr>vam_pn = 9, vam_pa = 0x9000, vam_perm = 5\<rparr>"
proof -
  have 1: "user_page fork_config 0x6000" by (simp add: fork_config_user_pages)
  have 2: "owner (pageinfo fork_state 9) = PO_KERNEL"
    "p_pid (processes fork_state (current fork_state)) = 1"
    by (simp_all add: fork_state_def frame_table_def proc_in_def PO_KERNEL_def)
  have 3: "vam_perm (child_mapping 2 fork_state 0x6000) = 0"
    by (simp add: child_mapping_def virtual_memory_lookup_def Let_def fork_state_def proc_in_def
          PAGENUMBER_def L1PAGEINDEX_def PAGESIZE_def PAGETABLE_NENTRIES_def PTE_P_def)
  from 1 fork_state_mappings(3) 2 fork_state_pages_kinds(4) 3 fork_state_fork
    fork_exit_child_mappings(3)
  show ?thesis by (intro conjI)
qed

subsection \<open>The entry of the interrupt handler\<close>

lemma memshow_virtual_animate_fields:
  assumes "memshow_virtual_animate cfg s = Inr s'"
  shows "pageinfo s' = pageinfo s" "processes s' = processes s" "current s' = current s"
    "ticks s' = ticks s" "mem s' = mem s" "0 < NPROC cfg"
  using assms
  by (auto simp: memshow_virtual_animate_def Let_def split: if_splits option.splits)

lemma interrupt_entry_fields:
  assumes "interrupt_entry cfg reg s = Inr s1"
  shows "pageinfo s1 = pageinfo s" "mem s1 = mem s" "current s1 = current s" "ticks s1 = ticks s"
    "processes s1 = (processes s)(current s := (processes s (current s))\<lparr>p_registers := reg\<rparr>)"
    "0 < NPROC cfg"
    "virtual_memory_check cfg
       (s\<lparr>processes := (processes s)
            (current s := (processes s (current s))\<lparr>p_registers := reg\<rparr>)\<rparr>) = None"
    "memshow_physical cfg
       (s\<lparr>processes := (processes s)
            (current s := (processes s (current s))\<lparr>p_registers := reg\<rparr>)\<rparr>) = None"
proof -
  let ?s0 = "s\<lparr>processes := (processes s)
            (current s := (processes s (current s))\<lparr>p_registers := reg\<rparr>)\<rparr>"
  from assms have c: "virtual_memory_check cfg ?s0 = None" "memshow_physical cfg ?s0 = None"
    and a: "memshow_virtual_animate cfg ?s0 = Inr s1"
    by (auto simp: interrupt_entry_def Let_def split: option.splits)
  note f = memshow_virtual_animate_fields[OF a]
  from c show "virtual_memory_check cfg ?s0 = None" "memshow_physical cfg ?s0 = None" .
  from f show "pageinfo s1 = pageinfo s" "mem s1 = mem s" "current s1 = current s"
    "ticks s1 = ticks s"
    "processes s1 = (processes s)(current s := (processes s (current s))\<lparr>p_registers := reg\<rparr>)"
    "0 < NPROC cfg"
    by simp_all
qed

lemma interrupt_entry_fault:
  "interrupt_entry cfg reg s = Inl f \<Longrightarrow> interrupt cfg reg s = Some (Inl f)"
  by (simp add: interrupt_def)

lemma schedule_loop_none:
  assumes "0 < NPROC cfg" "\<forall>q<NPROC cfg. p_state (processes s q) \<noteq> P_RUNNABLE"
  shows "schedule_loop cfg s pid = None"
proof (cases "schedule_loop cfg s pid")
  case None
  then show ?thesis .
next
  case (Some y)
  then obtain k where k: "p_state (processes s ((pid + Suc k) mod NPROC cfg)) = P_RUNNABLE"
    using schedule_loop_runnable by blast
  have "(pid + Suc k) mod NPROC cfg < NPROC cfg" using assms(1) by simp
  with assms(2) k show ?thesis by blast
qed

subsection \<open>The page-fault handler\<close>

text \<open>
  Claim C7. A fault at the entry of the handler, in the invariant check or the memory
  display, ends the handler. Past the entry, a page-fault trap from kernel mode panics.
  One from user mode marks the current process broken, whatever the other processes are,
  and leaves every other descriptor as it was; the handler then is the scheduler on that
  state: the process that runs next is a runnable one other than the faulting one, and
  when no other process is runnable the scheduler spins for ever.
\<close>

theorem pagefault_marks_broken:
  assumes "reg_intno reg = INT_PAGEFAULT"
  shows "(\<forall>f. interrupt_entry cfg reg s = Inl f \<longrightarrow> interrupt cfg reg s = Some (Inl f))
     \<and> (\<forall>s1. interrupt_entry cfg reg s = Inr s1 \<longrightarrow>
          (reg_err reg AND PFERR_USER = 0 \<longrightarrow> interrupt cfg reg s = Some (Inl Panic))
          \<and> (reg_err reg AND PFERR_USER \<noteq> 0 \<longrightarrow>
               pagefault reg s1 =
                 Inr (s1\<lparr>processes := (processes s1)
                           (current s1 := (processes s1 (current s1))\<lparr>p_state := P_BROKEN\<rparr>)\<rparr>)
               \<and> interrupt cfg reg s =
                   schedule cfg
                     (s1\<lparr>processes := (processes s1)
                           (current s1 := (processes s1 (current s1))\<lparr>p_state := P_BROKEN\<rparr>)\<rparr>)
               \<and> (processes s1)(current s1 := (processes s1 (current s1))\<lparr>p_state := P_BROKEN\<rparr>)
                   = (processes s)
                       (current s := (processes s (current s))
                          \<lparr>p_registers := reg, p_state := P_BROKEN\<rparr>)
               \<and> ((\<exists>q<NPROC cfg. q \<noteq> current s \<and> p_state (processes s q) = P_RUNNABLE) \<longrightarrow>
                    (\<exists>q<NPROC cfg. q \<noteq> current s \<and> p_state (processes s q) = P_RUNNABLE
                       \<and> interrupt cfg reg s =
                           Some (Inr (s1\<lparr>processes := (processes s1)
                                           (current s1 := (processes s1 (current s1))
                                              \<lparr>p_state := P_BROKEN\<rparr>),
                                         current := q\<rparr>))))
               \<and> ((\<forall>q<NPROC cfg. q \<noteq> current s \<longrightarrow> p_state (processes s q) \<noteq> P_RUNNABLE) \<longrightarrow>
                    interrupt cfg reg s = None)))"
proof (intro conjI allI impI)
  fix f assume "interrupt_entry cfg reg s = Inl f"
  then show "interrupt cfg reg s = Some (Inl f)" by (rule interrupt_entry_fault)
next
  fix s1 assume e: "interrupt_entry cfg reg s = Inr s1" and k: "reg_err reg AND PFERR_USER = 0"
  then show "interrupt cfg reg s = Some (Inl Panic)"
    using assms by (simp add: interrupt_def pagefault_def)
next
  fix s1 assume e: "interrupt_entry cfg reg s = Inr s1" and u: "reg_err reg AND PFERR_USER \<noteq> 0"
  let ?s2 = "s1\<lparr>processes := (processes s1)
                           (current s1 := (processes s1 (current s1))\<lparr>p_state := P_BROKEN\<rparr>)\<rparr>"
  note f = interrupt_entry_fields[OF e]
  show pf: "pagefault reg s1 = Inr ?s2"
    using u by (simp add: pagefault_def)
  have br: "p_state (processes ?s2 (current ?s2)) \<noteq> P_RUNNABLE" by simp
  show sc: "interrupt cfg reg s = schedule cfg ?s2"
    using assms e pf br by (simp add: interrupt_def resume_def)
  show pr: "(processes s1)(current s1 := (processes s1 (current s1))\<lparr>p_state := P_BROKEN\<rparr>)
          = (processes s)(current s := (processes s (current s))
                          \<lparr>p_registers := reg, p_state := P_BROKEN\<rparr>)"
    by (simp add: f(3,5))
  have st: "p_state (processes ?s2 q) = (if q = current s then P_BROKEN else p_state (processes s q))"
    for q
    by (simp add: f(3,5))
  {
    assume "\<exists>q<NPROC cfg. q \<noteq> current s \<and> p_state (processes s q) = P_RUNNABLE"
    then obtain q where q: "q < NPROC cfg" "q \<noteq> current s" "p_state (processes s q) = P_RUNNABLE"
      by blast
    then have "p_state (processes ?s2 q) = P_RUNNABLE" by (simp only: st if_False)
    with f(6) q(1) obtain q' where q': "q' < NPROC cfg" "p_state (processes ?s2 q') = P_RUNNABLE"
        "schedule_loop cfg ?s2 (p_pid (processes ?s2 (current ?s2))) = Some (Inr (?s2\<lparr>current := q'\<rparr>))"
      using schedule_loop_total[of cfg q ?s2 "p_pid (processes ?s2 (current ?s2))"] by blast
    from q'(2) have ne: "q' \<noteq> current s" by (auto simp only: st split: if_splits)
    with q'(2) have run: "p_state (processes s q') = P_RUNNABLE" by (simp only: st if_False)
    from sc q'(3) have "interrupt cfg reg s = Some (Inr (?s2\<lparr>current := q'\<rparr>))"
      by (simp add: schedule_def)
    with q'(1) ne run
    show "\<exists>q<NPROC cfg. q \<noteq> current s \<and> p_state (processes s q) = P_RUNNABLE
                       \<and> interrupt cfg reg s = Some (Inr (?s2\<lparr>current := q\<rparr>))"
      by blast
  }
  {
    assume n: "\<forall>q<NPROC cfg. q \<noteq> current s \<longrightarrow> p_state (processes s q) \<noteq> P_RUNNABLE"
    have "\<forall>q<NPROC cfg. p_state (processes ?s2 q) \<noteq> P_RUNNABLE"
    proof (intro allI impI)
      fix q assume "q < NPROC cfg"
      with n show "p_state (processes ?s2 q) \<noteq> P_RUNNABLE"
        by (cases "q = current s") (simp_all only: st if_True if_False, simp_all)
    qed
    with f(6) have "schedule_loop cfg ?s2 (p_pid (processes ?s2 (current ?s2))) = None"
      by (rule schedule_loop_none)
    with sc show "interrupt cfg reg s = None" by (simp add: schedule_def)
  }
qed

lemma memshow_virtual_unmapped:
  assumes "\<forall>n i. mem s n i = 0"
  shows "memshow_virtual cfg s pt = (if pt \<noteq> PTE_ADDR pt then Some Panic else None)"
proof -
  have "memshow_virtual_page cfg s pt va = None" for va
    using assms by (simp add: memshow_virtual_page_def virtual_memory_lookup_def Let_def)
  then show ?thesis by (simp add: memshow_virtual_def first_fault_None)
qed

lemma memshow_virtual_page_display:
  "memshow_virtual_page cfg (s\<lparr>last_ticks := a\<rparr>) pt va = memshow_virtual_page cfg s pt va"
  "memshow_virtual_page cfg (s\<lparr>showing := b\<rparr>) pt va = memshow_virtual_page cfg s pt va"
  by (simp_all add: memshow_virtual_page_def Let_def cong: if_cong)

lemma memshow_virtual_display [simp]:
  "memshow_virtual cfg (s\<lparr>last_ticks := a\<rparr>) pt = memshow_virtual cfg s pt"
  "memshow_virtual cfg (s\<lparr>showing := b\<rparr>) pt = memshow_virtual cfg s pt"
  by (simp_all add: memshow_virtual_def memshow_virtual_page_display)

lemma animate_skip_stop:
  "p_state (processes s (sh mod NPROC cfg)) \<noteq> P_FREE \<Longrightarrow> animate_skip cfg s sh = sh"
  by (subst animate_skip.simps) simp

lemma memshow_virtual_animate_next:
  assumes np: "0 < NPROC cfg" and lt: "last_ticks s = 0"
    and nf: "p_state (processes s (Suc (showing s) mod NPROC cfg)) \<noteq> P_FREE"
    and mv: "memshow_virtual cfg s (p_pagetable (processes s (Suc (showing s) mod NPROC cfg))) = None"
  shows "memshow_virtual_animate cfg s =
           Inr (s\<lparr>last_ticks := ticks s, showing := Suc (showing s) mod NPROC cfg\<rparr>)"
proof -
  let ?s1 = "s\<lparr>last_ticks := ticks s, showing := showing s + 1\<rparr>"
  have s1: "(if last_ticks s = 0
                \<or> int (HZ div 2) \<le> (int (ticks s) - int (last_ticks s)) mod 2 ^ 32
             then s\<lparr>last_ticks := ticks s, showing := showing s + 1\<rparr> else s) = ?s1"
    by (simp add: lt)
  show ?thesis
    unfolding memshow_virtual_animate_def Let_def s1
    using np nf mv by (simp add: animate_skip_stop)
qed

lemma fault_state_entry:
  "interrupt_entry small_config fault_registers fault_state =
     Inr (fault_state
       \<lparr>processes := (processes fault_state)
          (1 := (processes fault_state 1)\<lparr>p_registers := fault_registers\<rparr>),
        last_ticks := 0, showing := 2\<rparr>)"
proof -
  let ?s0 = "fault_state\<lparr>processes := (processes fault_state)
        (current fault_state := (processes fault_state (current fault_state))
           \<lparr>p_registers := fault_registers\<rparr>)\<rparr>"
  have c: "virtual_memory_check small_config ?s0 = None" by (rule fault_state_check)
  have p: "memshow_physical small_config ?s0 = None"
    by (simp add: memshow_physical_def first_fault_None memstate_color_def Let_def
          memstate_colors_entries_def fault_state_def small_config_def frame_table_def
          MEMSIZE_PHYSICAL_def PAGENUMBER_def PAGEADDRESS_def PAGESIZE_def PO_KERNEL_def
          PO_FREE_def upt8)
  have z: "\<forall>n i. mem ?s0 n i = 0" by (simp add: fault_state_def)
  have sh: "Suc (showing ?s0) mod NPROC small_config = 2"
    by (simp add: fault_state_def small_config_def)
  have a: "memshow_virtual_animate small_config ?s0 =
             Inr (?s0\<lparr>last_ticks := ticks ?s0,
                       showing := Suc (showing ?s0) mod NPROC small_config\<rparr>)"
  proof (rule memshow_virtual_animate_next)
    show "0 < NPROC small_config" by (simp add: small_config_def)
    show "last_ticks ?s0 = 0" by (simp add: fault_state_def)
    show "p_state (processes ?s0 (Suc (showing ?s0) mod NPROC small_config)) \<noteq> P_FREE"
      unfolding sh by (simp add: fault_state_def proc_in_def)
    show "memshow_virtual small_config ?s0
            (p_pagetable (processes ?s0 (Suc (showing ?s0) mod NPROC small_config))) = None"
      unfolding sh memshow_virtual_unmapped[OF z]
      by (simp add: fault_state_def proc_in_def PTE_ADDR_def PAGESIZE_def)
  qed
  have "interrupt_entry small_config fault_registers fault_state =
          Inr (?s0\<lparr>last_ticks := ticks ?s0,
                    showing := Suc (showing ?s0) mod NPROC small_config\<rparr>)"
    by (simp only: interrupt_entry_def Let_def c p a option.case)
  then show ?thesis unfolding sh by (simp add: fault_state_def)
qed

theorem pagefault_marks_broken_witness:
  "interrupt small_config fault_registers fault_state =
     Some (Inr (fault_state
       \<lparr>processes := (processes fault_state)
          (1 := (processes fault_state 1)\<lparr>p_registers := fault_registers, p_state := P_BROKEN\<rparr>),
        current := 2, last_ticks := 0, showing := 2\<rparr>))"
proof -
  have i: "reg_intno fault_registers = INT_PAGEFAULT" by (simp add: fault_registers_def)
  have u: "reg_err fault_registers AND PFERR_USER \<noteq> 0"
    by (simp add: fault_registers_def PFERR_USER_def)
  have e: "\<exists>q<NPROC small_config. q \<noteq> current fault_state
                \<and> p_state (processes fault_state q) = P_RUNNABLE"
    by (intro exI[of _ 2]) (simp add: fault_state_def small_config_def proc_in_def)
  let ?s1 = "fault_state
       \<lparr>processes := (processes fault_state)
          (1 := (processes fault_state 1)\<lparr>p_registers := fault_registers\<rparr>),
        last_ticks := 0, showing := 2\<rparr>"
  let ?s2 = "?s1\<lparr>processes := (processes ?s1)
                (current ?s1 := (processes ?s1 (current ?s1))\<lparr>p_state := P_BROKEN\<rparr>)\<rparr>"
  from pagefault_marks_broken[OF i, THEN conjunct2, rule_format, OF fault_state_entry,
      THEN conjunct2, rule_format, OF u, THEN conjunct2, THEN conjunct2, THEN conjunct2,
      THEN conjunct1, rule_format, OF e]
  obtain q where q: "q \<noteq> current fault_state" "p_state (processes fault_state q) = P_RUNNABLE"
    "interrupt small_config fault_registers fault_state = Some (Inr (?s2\<lparr>current := q\<rparr>))"
    by blast
  from q(1,2) have "q = 2" by (simp add: fault_state_def proc_in_def split: if_splits)
  with q(3) show ?thesis by (simp add: fault_state_def)
qed

subsection \<open>The frame invariant through the interrupt handler\<close>





subsection \<open>Fork on a full process table\<close>

lemma set_eax_display [simp]:
  "last_ticks (set_eax p v s) = last_ticks s" "showing (set_eax p v s) = showing s"
  by (simp_all add: set_eax_def)

lemma set_eax_other: "q \<noteq> p \<Longrightarrow> processes (set_eax p v s) q = processes s q"
  by (simp add: set_eax_def)

lemma interrupt_fork_exhausted:
  assumes np: "16 \<le> NPROC cfg"
    and i: "reg_intno reg = INT_SYS_FORK"
    and e: "interrupt_entry cfg reg s = Inr s1"
    and full: "\<forall>j. 1 \<le> j \<and> j < NPROC cfg \<longrightarrow> p_state (processes s j) \<noteq> P_FREE"
    and run: "p_state (processes s (current s)) = P_RUNNABLE"
  shows "interrupt cfg reg s = Some (Inr (set_eax (current s) (- 1) s1))"
proof -
  note f = interrupt_entry_fields[OF e]
  have st: "p_state (processes s1 j) = p_state (processes s j)" for j by (simp add: f(5))
  from full have "\<forall>j. 1 \<le> j \<and> j < NPROC cfg \<longrightarrow> p_state (processes s1 j) \<noteq> P_FREE"
    unfolding st .
  with np have sf: "sys_fork cfg s1 = Inr (set_eax (current s1) (- 1) s1)"
    by (rule sys_fork_exhausted)
  have r: "resume cfg (set_eax (current s1) (- 1) s1) = Some (Inr (set_eax (current s1) (- 1) s1))"
    using run by (simp add: resume_def run_def st f(3))
  show ?thesis
    using i e sf r by (simp add: interrupt_def f(3))
qed

text \<open>
  Claim C3. In a process table of at least sixteen slots, the capacity for which
  \<^verbatim>\<open>kernel.c\<close> is written (the store of the error is at slot 15, and \<^verbatim>\<open>memstate_colors\<close> has
  a colour for the owners up to 15): when no slot from 1 to \<^verbatim>\<open>NPROC - 1\<close> is free, \<^verbatim>\<open>fork\<close>
  puts \<open>-1\<close> in the caller's \<^verbatim>\<open>reg_eax\<close> and changes nothing else, neither a state, a page
  table or a pid of the process table, nor a frame, nor the memory; when a slot is free,
  a fork that returns gives the caller the pid of the first free slot, which is at least
  1, and has made that slot runnable. Through the interrupt handler, a caller that traps
  with a full table is resumed with \<open>-1\<close>.
\<close>

theorem sys_fork_reports_full_table:
  assumes "16 \<le> NPROC cfg"
  shows "((\<forall>j. 1 \<le> j \<and> j < NPROC cfg \<longrightarrow> p_state (processes s j) \<noteq> P_FREE) \<longrightarrow>
            sys_fork cfg s = Inr (set_eax (current s) (- 1) s))
     \<and> reg_eax (p_registers (processes (set_eax (current s) (- 1) s) (current s))) = - 1
     \<and> (\<forall>q. p_state (processes (set_eax (current s) (- 1) s) q) = p_state (processes s q)
           \<and> p_pagetable (processes (set_eax (current s) (- 1) s) q) = p_pagetable (processes s q)
           \<and> p_pid (processes (set_eax (current s) (- 1) s) q) = p_pid (processes s q)
           \<and> (q \<noteq> current s \<longrightarrow> processes (set_eax (current s) (- 1) s) q = processes s q))
     \<and> pageinfo (set_eax (current s) (- 1) s) = pageinfo s
     \<and> mem (set_eax (current s) (- 1) s) = mem s
     \<and> (\<forall>newpid s'. 1 \<le> newpid \<and> newpid < NPROC cfg \<and> p_state (processes s newpid) = P_FREE
           \<and> (\<forall>j. 1 \<le> j \<and> j < newpid \<longrightarrow> p_state (processes s j) \<noteq> P_FREE)
           \<and> sys_fork cfg s = Inr s'
         \<longrightarrow> reg_eax (p_registers (processes s' (current s))) = int newpid
             \<and> p_state (processes s' newpid) = P_RUNNABLE)
     \<and> (\<forall>s1. reg_intno reg = INT_SYS_FORK \<and> interrupt_entry cfg reg s = Inr s1
           \<and> (\<forall>j. 1 \<le> j \<and> j < NPROC cfg \<longrightarrow> p_state (processes s j) \<noteq> P_FREE)
           \<and> p_state (processes s (current s)) = P_RUNNABLE
         \<longrightarrow> interrupt cfg reg s = Some (Inr (set_eax (current s) (- 1) s1)))"
proof (intro conjI allI impI)
  assume "\<forall>j. 1 \<le> j \<and> j < NPROC cfg \<longrightarrow> p_state (processes s j) \<noteq> P_FREE"
  with assms show "sys_fork cfg s = Inr (set_eax (current s) (- 1) s)"
    by (rule sys_fork_exhausted)
next
  fix q assume "q \<noteq> current s"
  then show "processes (set_eax (current s) (- 1) s) q = processes s q"
    by (rule set_eax_other)
next
  fix newpid s'
  assume h: "1 \<le> newpid \<and> newpid < NPROC cfg \<and> p_state (processes s newpid) = P_FREE
           \<and> (\<forall>j. 1 \<le> j \<and> j < newpid \<longrightarrow> p_state (processes s j) \<noteq> P_FREE)
           \<and> sys_fork cfg s = Inr s'"
  then have ff: "1 \<le> newpid" "newpid < NPROC cfg" "p_state (processes s newpid) = P_FREE"
    "\<forall>j. 1 \<le> j \<and> j < newpid \<longrightarrow> p_state (processes s j) \<noteq> P_FREE" by simp_all
  from h sys_fork_first_free[OF ff] have "fork_child cfg newpid s = Inr s'" by simp
  then obtain t where t: "s' = fork_registers newpid t"
    "processes t = processes (fork_clone cfg newpid s)" "current t = current s"
    by (rule fork_child_result)
  have "reg_eax (p_registers (processes (fork_registers newpid t) (current t))) = int newpid"
    by (rule fork_registers_fields(8))
  then show "reg_eax (p_registers (processes s' (current s))) = int newpid"
    by (simp only: t(1,3))
  show "p_state (processes s' newpid) = P_RUNNABLE"
    by (simp add: t(1,2))
next
  fix s1
  assume h: "reg_intno reg = INT_SYS_FORK \<and> interrupt_entry cfg reg s = Inr s1
           \<and> (\<forall>j. 1 \<le> j \<and> j < NPROC cfg \<longrightarrow> p_state (processes s j) \<noteq> P_FREE)
           \<and> p_state (processes s (current s)) = P_RUNNABLE"
  show "interrupt cfg reg s = Some (Inr (set_eax (current s) (- 1) s1))"
    by (rule interrupt_fork_exhausted[OF assms h[THEN conjunct1] h[THEN conjunct2, THEN conjunct1]
          h[THEN conjunct2, THEN conjunct2, THEN conjunct1]
          h[THEN conjunct2, THEN conjunct2, THEN conjunct2]])
qed simp_all

lemma full_config_fields:
  "NPROC full_config = 16" "NPAGES full_config = 20" "kernel_pagetable full_config = 0x1000"
  "MEMSIZE_PHYSICAL full_config = PAGEADDRESS 20"
  by (simp_all add: full_config_def MEMSIZE_PHYSICAL_def)

lemma full_table_state_fields:
  "current full_table_state = 1" "last_ticks full_table_state = 0" "showing full_table_state = 1"
  "ticks full_table_state = 0" "mem full_table_state n i = 0"
  by (simp_all add: full_table_state_def)

lemma full_table_state_procs:
  "p_state (processes full_table_state q) = (if 1 \<le> q \<and> q < 16 then P_RUNNABLE else P_FREE)"
  "p_pagetable (processes full_table_state q) = (if 1 \<le> q \<and> q < 16 then PAGEADDRESS (q + 1) else 0)"
  by (simp_all add: full_table_state_def proc_in_def)

lemma full_table_state_frames:
  "pageinfo full_table_state 0 = \<lparr>owner = - 1, refcount = 1\<rparr>"
  "pageinfo full_table_state (Suc 0) = \<lparr>owner = - 2, refcount = 1\<rparr>"
  "1 \<le> q \<Longrightarrow> q < 16 \<Longrightarrow> pageinfo full_table_state (Suc q) = \<lparr>owner = int q, refcount = 1\<rparr>"
  "17 \<le> n \<Longrightarrow> pageinfo full_table_state n = \<lparr>owner = 0, refcount = 0\<rparr>"
  by (simp_all add: full_table_state_def)

lemma full_table_state_frame_cases:
  obtains "n = 0" | "n = 1" | q where "n = Suc q" "1 \<le> q" "q < 16" | "17 \<le> n"
proof (cases "n = 0 \<or> n = 1 \<or> 17 \<le> n")
  case True
  then show ?thesis using that(1,2,4) by blast
next
  case False
  then have "n = Suc (n - 1)" "1 \<le> n - 1" "n - 1 < 16" by arith+
  then show ?thesis by (rule that(3))
qed

lemma full_table_state_entry:
  "interrupt_entry full_config fork_trap_registers full_table_state =
     Inr (full_table_state\<lparr>last_ticks := 0, showing := 2\<rparr>)"
proof -
  let ?s0 = "full_table_state\<lparr>processes := (processes full_table_state)
        (current full_table_state := (processes full_table_state (current full_table_state))
           \<lparr>p_registers := fork_trap_registers\<rparr>)\<rparr>"
  have same: "?s0 = full_table_state"
    by (simp add: full_table_state_def proc_in_def fun_eq_iff)
  let ?s = full_table_state
  have none: "\<forall>i. mem ?s (PAGENUMBER pt) i AND PTE_P = 0" for pt
    by (simp add: full_table_state_fields)
  have ek: "expected_kernel_refcount full_config ?s = 1"
    by (simp add: expected_kernel_refcount_def filter_empty_conv full_config_fields
          full_table_state_procs PAGEADDRESS_def PAGESIZE_def)
  have kern: "check_pagetable full_config ?s 0x1000 PO_KERNEL 1 = None"
    unfolding check_pagetable_no_entries[OF none]
    by (simp add: full_config_fields PAGENUMBER_def PAGESIZE_def full_table_state_frames
          PO_KERNEL_def)
  have own: "check_pagetable full_config ?s (PAGEADDRESS (Suc q)) (int q) 1 = None"
    if "1 \<le> q" "q < 16" for q
    unfolding check_pagetable_no_entries[OF none]
    using that by (simp add: full_config_fields full_table_state_frames)
  have p: "check_process full_config ?s po = None" for po
  proof (cases po)
    case None
    then show ?thesis by (simp add: check_process_def full_config_fields ek kern)
  next
    case (Some pid)
    show ?thesis
    proof (cases "1 \<le> pid \<and> pid < 16")
      case False
      then have "p_state (processes ?s pid) = P_FREE"
        by (simp add: full_table_state_procs)
      then show ?thesis by (simp add: Some check_process_def)
    next
      case True
      then have "PAGEADDRESS (pid + 1) \<noteq> 0x1000"
        by (simp add: PAGEADDRESS_def PAGESIZE_def)
      moreover from True have "p_state (processes ?s pid) = P_RUNNABLE"
        "p_pagetable (processes ?s pid) = PAGEADDRESS (Suc pid)"
        by (simp_all add: full_table_state_procs)
      moreover from True have "check_pagetable full_config ?s (PAGEADDRESS (Suc pid)) (int pid) 1 = None"
        by (simp add: own)
      ultimately show ?thesis
        by (simp add: Some check_process_def full_config_fields)
    qed
  qed
  have r: "check_referenced full_config ?s n = None" for n
    by (cases n rule: full_table_state_frame_cases)
       (simp_all add: check_referenced_def full_table_state_frames full_config_fields
          full_table_state_procs)
  have c: "virtual_memory_check full_config ?s = None"
    using p r
    by (auto simp: virtual_memory_check_def first_fault_None full_config_fields
          full_table_state_procs)
  have col: "memstate_color (pageinfo ?s n) = None" for n
    by (cases n rule: full_table_state_frame_cases)
       (simp_all add: memstate_color_def Let_def memstate_colors_entries_def
          full_table_state_frames PO_KERNEL_def PO_FREE_def)
  have m: "memshow_physical full_config ?s = None"
    by (simp add: memshow_physical_def first_fault_None col)
  have z: "\<forall>n i. mem ?s n i = 0" by (simp add: full_table_state_fields)
  have sh: "Suc (showing ?s) mod NPROC full_config = 2"
    by (simp add: full_table_state_fields full_config_fields)
  have a: "memshow_virtual_animate full_config ?s =
             Inr (?s\<lparr>last_ticks := ticks ?s, showing := Suc (showing ?s) mod NPROC full_config\<rparr>)"
  proof (rule memshow_virtual_animate_next)
    show "0 < NPROC full_config" by (simp add: full_config_fields)
    show "last_ticks ?s = 0" by (simp add: full_table_state_fields)
    show "p_state (processes ?s (Suc (showing ?s) mod NPROC full_config)) \<noteq> P_FREE"
      unfolding sh by (simp add: full_table_state_procs)
    show "memshow_virtual full_config ?s
            (p_pagetable (processes ?s (Suc (showing ?s) mod NPROC full_config))) = None"
      unfolding sh memshow_virtual_unmapped[OF z]
      by (simp add: full_table_state_procs PTE_ADDR_def PAGEADDRESS_def PAGESIZE_def)
  qed
  have "interrupt_entry full_config fork_trap_registers full_table_state =
          Inr (?s\<lparr>last_ticks := ticks ?s, showing := Suc (showing ?s) mod NPROC full_config\<rparr>)"
    unfolding interrupt_entry_def Let_def same
    by (simp only: c m a option.case)
  then show ?thesis unfolding sh by (simp add: full_table_state_fields)
qed

theorem sys_fork_reports_full_table_witness:
  "16 \<le> NPROC full_config
   \<and> map (\<lambda>j. p_state (processes full_table_state j)) [0..<NPROC full_config]
       = P_FREE # replicate 15 P_RUNNABLE
   \<and> reg_eax (p_registers (processes full_table_state 1)) = 42
   \<and> interrupt full_config fork_trap_registers full_table_state =
       Some (Inr (set_eax 1 (- 1) (full_table_state\<lparr>last_ticks := 0, showing := 2\<rparr>)))
   \<and> reg_eax (p_registers (processes
         (set_eax 1 (- 1) (full_table_state\<lparr>last_ticks := 0, showing := 2\<rparr>)) 1)) = - 1"
proof -
  have np: "16 \<le> NPROC full_config" by (simp add: full_config_fields)
  have full: "\<forall>j. 1 \<le> j \<and> j < NPROC full_config \<longrightarrow>
                p_state (processes full_table_state j) \<noteq> P_FREE"
    by (simp add: full_config_fields full_table_state_procs)
  have h: "reg_intno fork_trap_registers = INT_SYS_FORK
      \<and> interrupt_entry full_config fork_trap_registers full_table_state =
          Inr (full_table_state\<lparr>last_ticks := 0, showing := 2\<rparr>)
      \<and> (\<forall>j. 1 \<le> j \<and> j < NPROC full_config \<longrightarrow>
                p_state (processes full_table_state j) \<noteq> P_FREE)
      \<and> p_state (processes full_table_state (current full_table_state)) = P_RUNNABLE"
    using full full_table_state_entry
    by (simp add: fork_trap_registers_def full_table_state_procs full_table_state_fields)
  from sys_fork_reports_full_table[OF np, of full_table_state fork_trap_registers,
      THEN conjunct2, THEN conjunct2, THEN conjunct2, THEN conjunct2, THEN conjunct2,
      THEN conjunct2, rule_format, OF h]
  have "interrupt full_config fork_trap_registers full_table_state =
       Some (Inr (set_eax 1 (- 1) (full_table_state\<lparr>last_ticks := 0, showing := 2\<rparr>)))"
    by (simp add: full_table_state_fields)
  moreover have "map (\<lambda>j. p_state (processes full_table_state j)) [0..<NPROC full_config]
       = P_FREE # replicate 15 P_RUNNABLE"
    by (auto simp: list_eq_iff_nth_eq full_config_fields full_table_state_procs nth_Cons')
  moreover have "reg_eax (p_registers (processes full_table_state 1)) = 42"
    by (simp add: full_table_state_def proc_in_def fork_trap_registers_def)
  ultimately show ?thesis using np by simp
qed

end
